(* ===== verification/Meridian_Prelude.thy ===== *)
theory Meridian_Prelude
  imports Main "HOL-Library.Word" "HOL-Library.Monad_Syntax"
begin

unbundle bit_operations_syntax

text \<open>
  Shared vocabulary of the development: the machine integers of the eBPF target, byte order
  (the objects are built with \<^verbatim>\<open>-target bpfel\<close>, so the host order is little endian), bounds
  checked loads from a packet, and the list lemmas that the component proofs use.

  A direct packet load is an \<open>option\<close>: \<open>None\<close> is a dereference outside
  \<open>[data, data_end)\<close>, which the C program must never do. The memory safety theorems say that
  no program ever takes that value.
\<close>

section \<open>Machine integers\<close>

type_synonym u8 = "8 word"
type_synonym u16 = "16 word"
type_synonym u32 = "32 word"
type_synonym u64 = "64 word"
type_synonym byte = u8

named_theorems frame_simps \<open>fields that an operation of the data path leaves alone\<close>
named_theorems kernel_laws \<open>documented behaviour of the kernel helpers\<close>
named_theorems load_simps \<open>packet loads inside their bounds\<close>

section \<open>Byte order\<close>

definition le16 :: "byte \<Rightarrow> byte \<Rightarrow> u16" where
  "le16 b0 b1 = ucast b0 OR push_bit 8 (ucast b1)"

definition le32 :: "byte \<Rightarrow> byte \<Rightarrow> byte \<Rightarrow> byte \<Rightarrow> u32" where
  "le32 b0 b1 b2 b3 =
     ucast b0 OR push_bit 8 (ucast b1) OR push_bit 16 (ucast b2) OR push_bit 24 (ucast b3)"

definition bytes16 :: "u16 \<Rightarrow> byte list" where
  "bytes16 w = [ucast w, ucast (drop_bit 8 w)]"

definition bytes32 :: "u32 \<Rightarrow> byte list" where
  "bytes32 w = [ucast w, ucast (drop_bit 8 w), ucast (drop_bit 16 w), ucast (drop_bit 24 w)]"

definition bytes64 :: "u64 \<Rightarrow> byte list" where
  "bytes64 w =
     [ucast w, ucast (drop_bit 8 w), ucast (drop_bit 16 w), ucast (drop_bit 24 w),
      ucast (drop_bit 32 w), ucast (drop_bit 40 w), ucast (drop_bit 48 w), ucast (drop_bit 56 w)]"

text \<open>
  \<open>bpf_htons\<close>, \<open>bpf_ntohs\<close>, \<open>bpf_htonl\<close> and \<open>bpf_ntohl\<close> of \<^verbatim>\<open><bpf/bpf_endian.h>\<close>: byte
  swaps on a little-endian target.
\<close>

definition bpf_htons :: "u16 \<Rightarrow> u16" where
  "bpf_htons w = push_bit 8 w OR drop_bit 8 w"

abbreviation bpf_ntohs :: "u16 \<Rightarrow> u16" where
  "bpf_ntohs \<equiv> bpf_htons"

definition bpf_htonl :: "u32 \<Rightarrow> u32" where
  "bpf_htonl w =
     le32 (ucast (drop_bit 24 w)) (ucast (drop_bit 16 w)) (ucast (drop_bit 8 w)) (ucast w)"

abbreviation bpf_ntohl :: "u32 \<Rightarrow> u32" where
  "bpf_ntohl \<equiv> bpf_htonl"

lemma bit_byte_ge [simp]: "8 \<le> n \<Longrightarrow> \<not> bit (b :: byte) n"
  using bit_imp_le_length by fastforce

lemma length_bytes [simp]:
  "length (bytes16 a) = 2" "length (bytes32 b) = 4" "length (bytes64 c) = 8"
  by (simp_all add: bytes16_def bytes32_def bytes64_def)

lemma le16_bytes16: "le16 (ucast w) (ucast (drop_bit 8 w)) = w"
  unfolding le16_def by (rule bit_word_eqI) (auto simp: bit_simps)

lemma le32_bytes32:
  "le32 (ucast w) (ucast (drop_bit 8 w)) (ucast (drop_bit 16 w)) (ucast (drop_bit 24 w)) = w"
proof (rule bit_word_eqI)
  fix n assume "n < LENGTH(32)"
  then consider "n < 8" | "8 \<le> n \<and> n < 16" | "16 \<le> n \<and> n < 24" | "24 \<le> n \<and> n < 32"
    by fastforce
  then show "bit (le32 (ucast w) (ucast (drop_bit 8 w)) (ucast (drop_bit 16 w))
      (ucast (drop_bit 24 w))) n = bit w n"
    by cases (auto simp: le32_def bit_simps)
qed

lemma bytes16_le16: "bytes16 (le16 a b) = [a, b]"
  unfolding bytes16_def le16_def
  by (auto intro!: bit_word_eqI simp: bit_simps)

lemma bytes32_le32: "bytes32 (le32 a b c d) = [a, b, c, d]"
  unfolding bytes32_def le32_def
  by (auto intro!: bit_word_eqI simp: bit_simps)

lemma bpf_htons_htons [simp]: "bpf_htons (bpf_htons w) = w"
  unfolding bpf_htons_def by (rule bit_word_eqI) (auto simp: bit_simps)

lemma bpf_htons_inject [simp]: "bpf_htons a = bpf_htons b \<longleftrightarrow> a = b"
  by (metis bpf_htons_htons)

lemma bpf_htonl_le32: "bpf_htonl (le32 a b c d) = le32 d c b a"
  using bytes32_le32 [of a b c d] by (simp add: bpf_htonl_def bytes32_def)

lemma bpf_htonl_htonl [simp]: "bpf_htonl (bpf_htonl w) = w"
  by (metis bpf_htonl_le32 le32_bytes32)

lemma bpf_htons_le16: "bpf_htons (le16 a b) = le16 b a"
  unfolding bpf_htons_def le16_def
  by (rule bit_word_eqI) (auto simp: bit_simps)

section \<open>Packet loads\<close>

text \<open>The 16-bit and 32-bit values stored at an offset of the packet.\<close>

definition w16 :: "byte list \<Rightarrow> nat \<Rightarrow> u16" where
  "w16 d off = le16 (d ! off) (d ! (off + 1))"

definition w32 :: "byte list \<Rightarrow> nat \<Rightarrow> u32" where
  "w32 d off = le32 (d ! off) (d ! (off + 1)) (d ! (off + 2)) (d ! (off + 3))"

definition rd8 :: "byte list \<Rightarrow> nat \<Rightarrow> byte option" where
  "rd8 d off = (if off < length d then Some (d ! off) else None)"

definition rd16 :: "byte list \<Rightarrow> nat \<Rightarrow> u16 option" where
  "rd16 d off = (if off + 2 \<le> length d then Some (w16 d off) else None)"

definition rd32 :: "byte list \<Rightarrow> nat \<Rightarrow> u32 option" where
  "rd32 d off = (if off + 4 \<le> length d then Some (w32 d off) else None)"

lemma rd8_Some [load_simps]: "off < length d \<Longrightarrow> rd8 d off = Some (d ! off)"
  by (simp add: rd8_def)

lemma rd16_Some [load_simps]: "off + 2 \<le> length d \<Longrightarrow> rd16 d off = Some (w16 d off)"
  by (simp add: rd16_def)

lemma rd32_Some [load_simps]: "off + 4 \<le> length d \<Longrightarrow> rd32 d off = Some (w32 d off)"
  by (simp add: rd32_def)

section \<open>Byte ranges of a packet\<close>

definition slice_of :: "byte list \<Rightarrow> nat \<Rightarrow> nat \<Rightarrow> byte list" where
  "slice_of bs off n = take n (drop off bs)"

definition overwrite :: "byte list \<Rightarrow> nat \<Rightarrow> byte list \<Rightarrow> byte list" where
  "overwrite bs off xs = take off bs @ xs @ drop (off + length xs) bs"

lemma length_slice_of [simp]:
  "off + n \<le> length bs \<Longrightarrow> length (slice_of bs off n) = n"
  by (simp add: slice_of_def)

lemma length_overwrite [simp]:
  "off + length xs \<le> length bs \<Longrightarrow> length (overwrite bs off xs) = length bs"
  by (simp add: overwrite_def)

lemma nth_overwrite:
  assumes "off + length xs \<le> length bs" and "i < length bs"
  shows "overwrite bs off xs ! i =
    (if off \<le> i \<and> i < off + length xs then xs ! (i - off) else bs ! i)"
  using assms by (auto simp: overwrite_def nth_append min_def)

lemma slice_of_overwrite [simp]:
  "off + length xs \<le> length bs \<Longrightarrow> slice_of (overwrite bs off xs) off (length xs) = xs"
  by (simp add: slice_of_def overwrite_def)

lemma overwrite_slice_of: "off + n \<le> length bs \<Longrightarrow> overwrite bs off (slice_of bs off n) = bs"
  by (simp add: overwrite_def slice_of_def)
     (metis add.commute append_take_drop_id drop_drop)

lemma overwrite_append_left:
  "off + length xs \<le> length as \<Longrightarrow> overwrite (as @ bs) off xs = overwrite as off xs @ bs"
  by (simp add: overwrite_def)

lemma overwrite_append_right:
  "off = length as \<Longrightarrow> overwrite (as @ bs) off xs = as @ overwrite bs 0 xs"
  by (simp add: overwrite_def)

end
