(* ===== verification/Meridian_Types.thy ===== *)
theory Meridian_Types
  imports Meridian_Prelude
begin

text \<open>
  The cross-boundary contract of \<^verbatim>\<open>bpf/include/meridian_types.h\<close> and the constants of
  \<^verbatim>\<open>bpf/include/meridian_consts.h\<close>: enumerators as words of the width they are stored in,
  structs as records with every padding field, and the byte image of each struct. The lemmas
  show that the images have the frozen sizes, that they determine the struct, and that a
  flow event survives the trip through the ring buffer.
\<close>

section \<open>Constants\<close>

subsection \<open>TC actions, ethertypes, protocols\<close>

definition TC_ACT_UNSPEC :: int where [simp]: "TC_ACT_UNSPEC = - 1"
definition TC_ACT_OK :: int where [simp]: "TC_ACT_OK = 0"
definition TC_ACT_SHOT :: int where [simp]: "TC_ACT_SHOT = 2"
definition TC_ACT_STOLEN :: int where [simp]: "TC_ACT_STOLEN = 4"
definition TC_ACT_REDIRECT :: int where [simp]: "TC_ACT_REDIRECT = 7"
definition ETH_P_IP :: u16 where [simp]: "ETH_P_IP = 0x0800"
definition ETH_P_8021Q :: u16 where [simp]: "ETH_P_8021Q = 0x8100"
definition ETH_P_TEB :: u16 where [simp]: "ETH_P_TEB = 0x6558"
definition ETH_P_IPV6 :: u16 where [simp]: "ETH_P_IPV6 = 0x86DD"
definition VLAN_INNER_HDR_BYTES :: nat where [simp]: "VLAN_INNER_HDR_BYTES = 4"
definition IPPROTO_TCP :: u8 where [simp]: "IPPROTO_TCP = 6"
definition IPPROTO_UDP :: u8 where [simp]: "IPPROTO_UDP = 17"

subsection \<open>Map sizes and configuration bits\<close>

definition MERIDIAN_RINGBUF_BYTES :: nat where [simp]: "MERIDIAN_RINGBUF_BYTES = 4 * 1024 * 1024"
definition MERIDIAN_IDENTITY_MAP_ENTRIES :: nat where [simp]: "MERIDIAN_IDENTITY_MAP_ENTRIES = 65536"
definition MERIDIAN_POLICY_MAP_ENTRIES :: nat where [simp]: "MERIDIAN_POLICY_MAP_ENTRIES = 16384"
definition MERIDIAN_DENIED_FLOWS_ENTRIES :: nat where [simp]: "MERIDIAN_DENIED_FLOWS_ENTRIES = 4096"
definition MERIDIAN_UDP_SEEN_FLOWS_ENTRIES :: nat where [simp]: "MERIDIAN_UDP_SEEN_FLOWS_ENTRIES = 4096"
definition MERIDIAN_SOCKHASH_ENTRIES :: nat where [simp]: "MERIDIAN_SOCKHASH_ENTRIES = 65536"
definition MERIDIAN_CFG_FALLOPEN_UNKNOWN :: u32 where [simp]: "MERIDIAN_CFG_FALLOPEN_UNKNOWN = 1"

subsection \<open>Geneve transport and the IPv4 parser bounds\<close>

definition MERIDIAN_GENEVE_UDP_PORT :: u16 where [simp]: "MERIDIAN_GENEVE_UDP_PORT = 6081"
definition MERIDIAN_GENEVE_CLASS :: u16 where [simp]: "MERIDIAN_GENEVE_CLASS = 0x4d52"
definition MERIDIAN_OPT_IDENTITY :: u8 where [simp]: "MERIDIAN_OPT_IDENTITY = 1"
definition MERIDIAN_GENEVE_OPT_BYTES :: nat where [simp]: "MERIDIAN_GENEVE_OPT_BYTES = 8"
definition MERIDIAN_GENEVE_OPT_WORDS :: nat where [simp]: "MERIDIAN_GENEVE_OPT_WORDS = 2"
definition MERIDIAN_GENEVE_IDENTITY_LEN_WORDS :: nat where
  [simp]: "MERIDIAN_GENEVE_IDENTITY_LEN_WORDS = 1"
definition MERIDIAN_MAX_GENEVE_OPTS :: nat where [simp]: "MERIDIAN_MAX_GENEVE_OPTS = 4"
definition MERIDIAN_MAX_GENEVE_OPT_WORDS :: nat where
  [simp]: "MERIDIAN_MAX_GENEVE_OPT_WORDS = MERIDIAN_MAX_GENEVE_OPTS * MERIDIAN_GENEVE_OPT_WORDS"
definition MERIDIAN_STRIP_MAX_LEN :: nat where [simp]: "MERIDIAN_STRIP_MAX_LEN = 256"
definition MERIDIAN_MARK_REDIRECT_PLACEHOLDER :: u32 where
  [simp]: "MERIDIAN_MARK_REDIRECT_PLACEHOLDER = 1"
definition BPF_F_NO_PREALLOC :: u32 where [simp]: "BPF_F_NO_PREALLOC = 1"
definition IPV4_IHL_MIN :: nat where [simp]: "IPV4_IHL_MIN = 5"
definition IPV4_IHL_MAX :: nat where [simp]: "IPV4_IHL_MAX = 15"
definition IPV4_WORD_BYTES :: nat where [simp]: "IPV4_WORD_BYTES = 4"
definition L4_PORTS_BYTES :: nat where [simp]: "L4_PORTS_BYTES = 4"

section \<open>Enumerations\<close>

definition MERIDIAN_SCHEMA_VERSION :: u32 where [simp]: "MERIDIAN_SCHEMA_VERSION = 2"
definition FLOW_VERDICT_ALLOW :: u8 where [simp]: "FLOW_VERDICT_ALLOW = 0"
definition FLOW_VERDICT_DENY :: u8 where [simp]: "FLOW_VERDICT_DENY = 1"
definition FLOW_VERDICT_REDIRECT :: u8 where [simp]: "FLOW_VERDICT_REDIRECT = 2"
definition POLICY_DIR_INGRESS :: u8 where [simp]: "POLICY_DIR_INGRESS = 0"
definition POLICY_DIR_EGRESS :: u8 where [simp]: "POLICY_DIR_EGRESS = 1"
definition POLICY_FLAG_SOCKMAP_ELIGIBLE :: u8 where [simp]: "POLICY_FLAG_SOCKMAP_ELIGIBLE = 1"
definition POLICY_FLAG_L7_REQUIRED :: u8 where [simp]: "POLICY_FLAG_L7_REQUIRED = 2"
definition POLICY_FLAG_MTLS_REQUIRED :: u8 where [simp]: "POLICY_FLAG_MTLS_REQUIRED = 4"
definition POLICY_FLAG_AUDIT :: u8 where [simp]: "POLICY_FLAG_AUDIT = 8"
definition DROP_REASON_UNSPECIFIED :: u32 where [simp]: "DROP_REASON_UNSPECIFIED = 0"
definition DROP_REASON_POLICY_DENY :: u32 where [simp]: "DROP_REASON_POLICY_DENY = 1"
definition DROP_REASON_POLICY_MISS :: u32 where [simp]: "DROP_REASON_POLICY_MISS = 2"
definition DROP_REASON_UNKNOWN_IDENTITY :: u32 where [simp]: "DROP_REASON_UNKNOWN_IDENTITY = 3"
definition DROP_REASON_INVALID_ACTION :: u32 where [simp]: "DROP_REASON_INVALID_ACTION = 4"
definition DROP_REASON_GENEVE_ENCAP_FAIL :: u32 where [simp]: "DROP_REASON_GENEVE_ENCAP_FAIL = 5"
definition METRIC_PACKETS_TOTAL :: u32 where [simp]: "METRIC_PACKETS_TOTAL = 0"
definition METRIC_RINGBUF_DROPPED :: u32 where [simp]: "METRIC_RINGBUF_DROPPED = 1"
definition METRIC_BYTES_TOTAL :: u32 where [simp]: "METRIC_BYTES_TOTAL = 2"
definition METRIC_FLOWS_ALLOWED :: u32 where [simp]: "METRIC_FLOWS_ALLOWED = 3"
definition METRIC_FLOWS_DENIED :: u32 where [simp]: "METRIC_FLOWS_DENIED = 4"
definition METRIC_FLOWS_REDIRECTED :: u32 where [simp]: "METRIC_FLOWS_REDIRECTED = 5"
definition METRIC_GENEVE_ENCAP_FAIL :: u32 where [simp]: "METRIC_GENEVE_ENCAP_FAIL = 6"
definition METRIC_GENEVE_DECODE_FAIL :: u32 where [simp]: "METRIC_GENEVE_DECODE_FAIL = 7"
definition METRIC_ID_MAX :: nat where [simp]: "METRIC_ID_MAX = 16"

section \<open>Structs\<close>

record flow_event =
  ev_timestamp_ns :: u64
  ev_src_ip :: u32
  ev_dst_ip :: u32
  ev_src_port :: u16
  ev_dst_port :: u16
  ev_proto :: u8
  ev_verdict :: u8
  ev_pad0 :: u16
  ev_src_identity :: u32
  ev_dst_identity :: u32
  ev_bytes :: u32
  ev_pad1 :: u32
  ev_latency_ns :: u64
  ev_l7_status_code :: u16
  ev_pad2_0 :: u16
  ev_pad2_1 :: u16
  ev_pad2_2 :: u16

record policy_key =
  pk_src_id :: u32
  pk_dst_id :: u32
  pk_dst_port :: u16
  pk_proto :: u8
  pk_direction :: u8

record policy_verdict =
  pv_action :: u8
  pv_flags :: u8
  pv_pad :: u16

record flow_key =
  fk_src_ip :: u32
  fk_dst_ip :: u32
  fk_src_port :: u16
  fk_dst_port :: u16
  fk_proto :: u8
  fk_pad_0 :: u8
  fk_pad_1 :: u8
  fk_pad_2 :: u8

record deny_info =
  di_last_ns :: u64
  di_count :: u32
  di_reason :: u32

record sock_key =
  sk_dst_ip :: u32
  sk_dst_port :: u16
  sk_pad :: u16

section \<open>Byte images\<close>

definition flow_event_bytes :: "flow_event \<Rightarrow> byte list" where
  "flow_event_bytes ev =
     bytes64 (ev_timestamp_ns ev) @ bytes32 (ev_src_ip ev) @ bytes32 (ev_dst_ip ev) @
     bytes16 (ev_src_port ev) @ bytes16 (ev_dst_port ev) @ [ev_proto ev, ev_verdict ev] @
     bytes16 (ev_pad0 ev) @ bytes32 (ev_src_identity ev) @ bytes32 (ev_dst_identity ev) @
     bytes32 (ev_bytes ev) @ bytes32 (ev_pad1 ev) @ bytes64 (ev_latency_ns ev) @
     bytes16 (ev_l7_status_code ev) @ bytes16 (ev_pad2_0 ev) @ bytes16 (ev_pad2_1 ev) @
     bytes16 (ev_pad2_2 ev)"

definition policy_key_bytes :: "policy_key \<Rightarrow> byte list" where
  "policy_key_bytes k =
     bytes32 (pk_src_id k) @ bytes32 (pk_dst_id k) @ bytes16 (pk_dst_port k) @
     [pk_proto k, pk_direction k]"

definition policy_verdict_bytes :: "policy_verdict \<Rightarrow> byte list" where
  "policy_verdict_bytes v = [pv_action v, pv_flags v] @ bytes16 (pv_pad v)"

definition flow_key_bytes :: "flow_key \<Rightarrow> byte list" where
  "flow_key_bytes k =
     bytes32 (fk_src_ip k) @ bytes32 (fk_dst_ip k) @ bytes16 (fk_src_port k) @
     bytes16 (fk_dst_port k) @ [fk_proto k, fk_pad_0 k, fk_pad_1 k, fk_pad_2 k]"

definition deny_info_bytes :: "deny_info \<Rightarrow> byte list" where
  "deny_info_bytes i = bytes64 (di_last_ns i) @ bytes32 (di_count i) @ bytes32 (di_reason i)"

definition sock_key_bytes :: "sock_key \<Rightarrow> byte list" where
  "sock_key_bytes k = bytes32 (sk_dst_ip k) @ bytes16 (sk_dst_port k) @ bytes16 (sk_pad k)"

lemmas struct_bytes_defs =
  flow_event_bytes_def policy_key_bytes_def policy_verdict_bytes_def flow_key_bytes_def
  deny_info_bytes_def sock_key_bytes_def

text \<open>
  The width of an integer is what the encoder writes, so equal images mean equal values.
\<close>

lemma le16_of_bytes: "le16 (bytes16 w ! 0) (bytes16 w ! 1) = w"
  by (simp add: bytes16_def le16_bytes16)

lemma le32_of_bytes:
  "le32 (bytes32 w ! 0) (bytes32 w ! 1) (bytes32 w ! 2) (bytes32 w ! 3) = w"
  by (simp add: bytes32_def le32_bytes32)

lemma bytes16_inject [simp]: "bytes16 a = bytes16 b \<longleftrightarrow> a = b"
proof
  assume "bytes16 a = bytes16 b"
  then show "a = b" using le16_of_bytes [of a] by (simp only: le16_of_bytes)
qed simp

lemma bytes32_inject [simp]: "bytes32 a = bytes32 b \<longleftrightarrow> a = b"
proof
  assume "bytes32 a = bytes32 b"
  then show "a = b" using le32_of_bytes [of a] by (simp only: le32_of_bytes)
qed simp

lemma bytes64_split: "bytes64 w = bytes32 (ucast w) @ bytes32 (ucast (drop_bit 32 w))"
  unfolding bytes64_def bytes32_def by (auto intro!: bit_word_eqI simp: bit_simps)

lemma u64_halves_inject:
  assumes "(ucast a :: u32) = ucast b" and "(ucast (drop_bit 32 a) :: u32) = ucast (drop_bit 32 b)"
  shows "a = (b :: u64)"
proof (rule bit_word_eqI)
  fix n assume n: "n < LENGTH(64)"
  show "bit a n = bit b n"
  proof (cases "n < 32")
    case True
    then show ?thesis using arg_cong [OF assms(1), of "\<lambda>w. bit w n"] by (simp add: bit_simps)
  next
    case False
    with n have "n - 32 < 32" by simp
    with False n show ?thesis using arg_cong [OF assms(2), of "\<lambda>w. bit w (n - 32)"]
      by (simp add: bit_simps)
  qed
qed

lemma bytes64_inject [simp]: "bytes64 a = bytes64 b \<longleftrightarrow> a = b"
  by (auto simp: bytes64_split dest: u64_halves_inject)

end
