(* ===== verification/Kernel_Helpers.thy ===== *)
theory Kernel_Helpers
  imports Meridian_Types
begin

text \<open>
  The kernel side of the programs. The bodies of the BPF helpers are kernel code that is not in
  the repository, so they are a parameter: a record of functions, one per helper the programs
  call, over an opaque world \<open>'w\<close> that every call may inspect and change. Two calls with the same
  arguments may therefore have different outcomes (memory pressure, a full ring, LRU eviction).

  What the programs rely on is written down as locales: \<open>skb_helpers\<close> is the documented contract
  of the packet helpers whatever they return, \<open>live_skb_helpers\<close> adds that calls inside the packet
  succeed, \<open>lru_helpers\<close> is the contract of an update of an LRU hash, and \<open>sock_helpers\<close> with
  \<open>live_sock_helpers\<close> is the contract of the SOCKHASH helpers. The executable \<open>model_kernel\<close> at
  the end is an instance of all of them.
\<close>

section \<open>Packet buffers\<close>

text \<open>
  The part of \<^verbatim>\<open>struct __sk_buff\<close> (\<^verbatim>\<open>vmlinux.h\<close>) that the programs use: the bytes of the frame
  (\<open>len\<close> of them), how many of them are in the linear area between \<open>data\<close> and \<open>data_end\<close>, and
  the mark.
\<close>

record sk_buff =
  pkt :: "byte list"
  linear :: nat
  mark :: u32

definition skb_len :: "sk_buff \<Rightarrow> u32" where
  "skb_len b = of_nat (length (pkt b))"

definition skb_data :: "sk_buff \<Rightarrow> byte list" where
  "skb_data b = take (linear b) (pkt b)"

text \<open>Frames are far below 2 GiB, so no offset inside a frame wraps.\<close>

definition wf_skb :: "sk_buff \<Rightarrow> bool" where
  "wf_skb b \<longleftrightarrow> linear b \<le> length (pkt b) \<and> length (pkt b) < 2 ^ 31"

lemma unat_of_nat_u32 [simp]: "n < 2 ^ 32 \<Longrightarrow> unat (of_nat n :: u32) = n"
  by (simp add: unat_of_nat take_bit_nat_eq_self)

lemma unat_skb_len: "length (pkt b) < 2 ^ 32 \<Longrightarrow> unat (skb_len b) = length (pkt b)"
  by (simp add: skb_len_def)

section \<open>Sockets\<close>

text \<open>A kernel socket, known to the programs only by reference.\<close>

type_synonym socket = nat

definition BPF_F_RECOMPUTE_CSUM :: u64 where [simp]: "BPF_F_RECOMPUTE_CSUM = 1"
definition BPF_F_INGRESS :: u64 where [simp]: "BPF_F_INGRESS = 1"
definition SK_DROP :: int where [simp]: "SK_DROP = 0"
definition SK_PASS :: int where [simp]: "SK_PASS = 1"

section \<open>The helpers as a parameter\<close>

record 'w kernel =
  k_ktime_get_ns :: "'w \<Rightarrow> u64 \<times> 'w"
  k_skb_pull_data :: "'w \<Rightarrow> sk_buff \<Rightarrow> u32 \<Rightarrow> int \<times> sk_buff \<times> 'w"
  k_skb_load_bytes :: "'w \<Rightarrow> sk_buff \<Rightarrow> u32 \<Rightarrow> nat \<Rightarrow> int \<times> byte list \<times> 'w"
  k_skb_store_bytes :: "'w \<Rightarrow> sk_buff \<Rightarrow> u32 \<Rightarrow> byte list \<Rightarrow> u64 \<Rightarrow> int \<times> sk_buff \<times> 'w"
  k_skb_change_head :: "'w \<Rightarrow> sk_buff \<Rightarrow> u32 \<Rightarrow> u64 \<Rightarrow> int \<times> sk_buff \<times> 'w"
  k_l4_csum_replace ::
    "'w \<Rightarrow> sk_buff \<Rightarrow> u32 \<Rightarrow> u64 \<Rightarrow> u64 \<Rightarrow> u64 \<Rightarrow> int \<times> sk_buff \<times> 'w"
  k_ringbuf_reserve :: "'w \<Rightarrow> flow_event list \<Rightarrow> nat \<Rightarrow> flow_event option \<times> 'w"
  k_denied_update ::
    "'w \<Rightarrow> (flow_key \<rightharpoonup> deny_info) \<Rightarrow> flow_key \<Rightarrow> deny_info \<Rightarrow>
     int \<times> (flow_key \<rightharpoonup> deny_info) \<times> 'w"
  k_seen_update ::
    "'w \<Rightarrow> (flow_key \<rightharpoonup> u8) \<Rightarrow> flow_key \<Rightarrow> u8 \<Rightarrow> int \<times> (flow_key \<rightharpoonup> u8) \<times> 'w"
  k_sock_hash_update ::
    "'w \<Rightarrow> (sock_key \<rightharpoonup> socket) \<Rightarrow> sock_key \<Rightarrow> socket \<Rightarrow>
     int \<times> (sock_key \<rightharpoonup> socket) \<times> 'w"
  k_msg_redirect_hash ::
    "'w \<Rightarrow> (sock_key \<rightharpoonup> socket) \<Rightarrow> sock_key \<Rightarrow> u64 \<Rightarrow> int \<times> socket option \<times> 'w"

section \<open>What the programs rely on\<close>

text \<open>
  \<^item> \<open>bpf_skb_pull_data\<close> never changes the frame; on success the first \<open>n\<close> bytes are linear.
  \<^item> \<open>bpf_skb_load_bytes\<close> returns the bytes of the range on success.
  \<^item> \<open>bpf_skb_store_bytes\<close> overwrites the bytes of the range on success and nothing on failure
    (\<open>BPF_F_RECOMPUTE_CSUM\<close> maintains \<open>skb->csum\<close>, which is not part of the frame).
  \<^item> \<open>bpf_skb_change_head\<close> puts \<open>n\<close> bytes in front of the frame on success.
  \<^item> \<open>bpf_l4_csum_replace\<close> keeps the length of the frame and changes at most the two bytes at the
    offset it is given, where the caller says the checksum is.
\<close>

locale skb_helpers =
  fixes K :: "'w kernel"
  assumes pull_frame:
      "k_skb_pull_data K w b n = (rc, b', w') \<Longrightarrow>
         pkt b' = pkt b \<and> mark b' = mark b \<and> linear b' \<le> length (pkt b')"
    and pull_linear:
      "k_skb_pull_data K w b n = (0, b', w') \<Longrightarrow> unat n \<le> length (pkt b) \<Longrightarrow>
         unat n \<le> linear b'"
    and load_ok:
      "k_skb_load_bytes K w b off l = (0, bs, w') \<Longrightarrow>
         unat off + l \<le> length (pkt b) \<and> bs = slice_of (pkt b) (unat off) l"
    and store_ok:
      "k_skb_store_bytes K w b off bs fl = (0, b', w') \<Longrightarrow>
         unat off + length bs \<le> length (pkt b) \<and> pkt b' = overwrite (pkt b) (unat off) bs"
    and store_fail:
      "k_skb_store_bytes K w b off bs fl = (rc, b', w') \<Longrightarrow> rc \<noteq> 0 \<Longrightarrow> pkt b' = pkt b"
    and store_frame:
      "k_skb_store_bytes K w b off bs fl = (rc, b', w') \<Longrightarrow>
         mark b' = mark b \<and> linear b' \<le> length (pkt b')"
    and head_ok:
      "k_skb_change_head K w b n fl = (0, b', w') \<Longrightarrow>
         \<exists>hd. length hd = unat n \<and> pkt b' = hd @ pkt b"
    and head_fail:
      "k_skb_change_head K w b n fl = (rc, b', w') \<Longrightarrow> rc \<noteq> 0 \<Longrightarrow> pkt b' = pkt b"
    and head_frame:
      "k_skb_change_head K w b n fl = (rc, b', w') \<Longrightarrow>
         mark b' = mark b \<and> linear b' \<le> length (pkt b')"
    and csum_frame:
      "k_l4_csum_replace K w b off old new fl = (rc, b', w') \<Longrightarrow>
         mark b' = mark b \<and> linear b' \<le> length (pkt b') \<and> length (pkt b') = length (pkt b) \<and>
         (\<forall>i < length (pkt b). i \<noteq> unat off \<and> i \<noteq> unat off + 1 \<longrightarrow> pkt b' ! i = pkt b ! i)"

text \<open>The same helpers on a host that never runs out of memory.\<close>

locale live_skb_helpers = skb_helpers +
  assumes pull_live: "\<exists>b' w'. k_skb_pull_data K w b n = (0, b', w')"
    and load_live:
      "unat off + l \<le> length (pkt b) \<Longrightarrow> \<exists>bs w'. k_skb_load_bytes K w b off l = (0, bs, w')"
    and store_live:
      "unat off + length bs \<le> length (pkt b) \<Longrightarrow>
         \<exists>b' w'. k_skb_store_bytes K w b off bs fl = (0, b', w')"
    and head_live: "\<exists>b' w'. k_skb_change_head K w b n fl = (0, b', w')"

text \<open>
  An update of an LRU hash stores the entry on success; any other key keeps its value or is
  evicted, and a failed update stores nothing.
\<close>

locale lru_helpers =
  fixes K :: "'w kernel"
  assumes denied_ok: "k_denied_update K w m k v = (0, m', w') \<Longrightarrow> m' k = Some v"
    and denied_others:
      "k_denied_update K w m k v = (rc, m', w') \<Longrightarrow> k' \<noteq> k \<or> rc \<noteq> 0 \<Longrightarrow>
         m' k' = m k' \<or> m' k' = None"
    and seen_ok: "k_seen_update K w q k u = (0, q', w') \<Longrightarrow> q' k = Some u"
    and seen_others:
      "k_seen_update K w q k u = (rc, q', w') \<Longrightarrow> k' \<noteq> k \<or> rc \<noteq> 0 \<Longrightarrow>
         q' k' = q k' \<or> q' k' = None"

text \<open>
  \<open>bpf_sock_hash_update\<close> stores the socket or leaves the map alone; \<open>bpf_msg_redirect_hash\<close>
  returns \<open>SK_PASS\<close> only after arming a redirect to the socket the key is mapped to, and arms
  nothing otherwise.
\<close>

locale sock_helpers =
  fixes K :: "'w kernel"
  assumes sock_ok: "k_sock_hash_update K w m k t = (0, m', w') \<Longrightarrow> m' = m(k \<mapsto> t)"
    and sock_fail: "k_sock_hash_update K w m k t = (rc, m', w') \<Longrightarrow> rc \<noteq> 0 \<Longrightarrow> m' = m"
    and redirect_pass:
      "k_msg_redirect_hash K w m k fl = (SK_PASS, a, w') \<Longrightarrow> a = m k \<and> m k \<noteq> None"
    and redirect_other:
      "k_msg_redirect_hash K w m k fl = (rc, a, w') \<Longrightarrow> rc \<noteq> SK_PASS \<Longrightarrow> a = None"

locale live_sock_helpers = sock_helpers +
  assumes sock_live: "\<exists>m' w'. k_sock_hash_update K w m k t = (0, m', w')"
    and redirect_live: "m k \<noteq> None \<Longrightarrow> \<exists>a w'. k_msg_redirect_hash K w m k fl = (SK_PASS, a, w')"

section \<open>An executable kernel\<close>

text \<open>
  The world is the monotonic clock. Every frame is linearised, every call inside the frame
  succeeds, the ring never fills and no entry is evicted.
\<close>

definition csum_fold :: "nat \<Rightarrow> nat" where
  "csum_fold n = (let m = n mod 65536 + n div 65536 in m mod 65536 + m div 65536)"

text \<open>
  The incremental update of an internet checksum field \<open>c\<close> when one 16-bit word changes from
  \<open>old\<close> to \<open>new\<close>, on values in network order.
\<close>

definition csum_replace2 :: "u16 \<Rightarrow> u16 \<Rightarrow> u16 \<Rightarrow> u16" where
  "csum_replace2 c old new =
     NOT (of_nat (csum_fold (unat (NOT c) + unat (NOT old) + unat new)))"

definition model_kernel :: "u64 kernel" where
  "model_kernel =
    \<lparr> k_ktime_get_ns = (\<lambda>w. (w, w + 1)),
      k_skb_pull_data = (\<lambda>w b n. (0, b\<lparr>linear := length (pkt b)\<rparr>, w)),
      k_skb_load_bytes = (\<lambda>w b off n.
        if unat off + n \<le> length (pkt b) then (0, slice_of (pkt b) (unat off) n, w)
        else (- 14, replicate n 0, w)),
      k_skb_store_bytes = (\<lambda>w b off bs fl.
        if unat off + length bs \<le> length (pkt b)
        then (0, b\<lparr>pkt := overwrite (pkt b) (unat off) bs, linear := length (pkt b)\<rparr>, w)
        else (- 14, b\<lparr>linear := length (pkt b)\<rparr>, w)),
      k_skb_change_head = (\<lambda>w b n fl.
        (0, b\<lparr>pkt := replicate (unat n) 0 @ pkt b, linear := unat n + length (pkt b)\<rparr>, w)),
      k_l4_csum_replace = (\<lambda>w b off old new fl.
        if unat off + 2 \<le> length (pkt b)
        then (0, b\<lparr>pkt := overwrite (pkt b) (unat off)
                 (bytes16 (csum_replace2 (le16 (pkt b ! unat off) (pkt b ! (unat off + 1)))
                    (ucast old) (ucast new))), linear := length (pkt b)\<rparr>, w)
        else (- 14, b\<lparr>linear := length (pkt b)\<rparr>, w)),
      k_ringbuf_reserve = (\<lambda>w evs n.
        (Some \<lparr> ev_timestamp_ns = - 1, ev_src_ip = - 1, ev_dst_ip = - 1, ev_src_port = - 1,
                ev_dst_port = - 1, ev_proto = - 1, ev_verdict = - 1, ev_pad0 = - 1,
                ev_src_identity = - 1, ev_dst_identity = - 1, ev_bytes = - 1, ev_pad1 = - 1,
                ev_latency_ns = - 1, ev_l7_status_code = - 1, ev_pad2_0 = - 1,
                ev_pad2_1 = - 1, ev_pad2_2 = - 1 \<rparr>, w)),
      k_denied_update = (\<lambda>w m k v. (0, m(k \<mapsto> v), w)),
      k_seen_update = (\<lambda>w m k v. (0, m(k \<mapsto> v), w)),
      k_sock_hash_update = (\<lambda>w m k t. (0, m(k \<mapsto> t), w)),
      k_msg_redirect_hash = (\<lambda>w m k fl.
        case m k of None \<Rightarrow> (SK_DROP, None, w) | Some t \<Rightarrow> (SK_PASS, Some t, w)) \<rparr>"

interpretation mk: live_skb_helpers model_kernel
proof unfold_locales
  fix w :: u64 and b b' :: sk_buff and off :: u32 and old new fl :: u64 and rc w'
  assume "k_l4_csum_replace model_kernel w b off old new fl = (rc, b', w')"
  then show "mark b' = mark b \<and> linear b' \<le> length (pkt b') \<and> length (pkt b') = length (pkt b) \<and>
      (\<forall>i < length (pkt b). i \<noteq> unat off \<and> i \<noteq> unat off + 1 \<longrightarrow> pkt b' ! i = pkt b ! i)"
    by (auto simp: model_kernel_def nth_overwrite split: if_splits)
qed (auto simp: model_kernel_def split: if_splits)

interpretation mk_lru: lru_helpers model_kernel
  by unfold_locales (auto simp: model_kernel_def)

interpretation mk_sock: live_sock_helpers model_kernel
  by unfold_locales (auto simp: model_kernel_def split: option.splits, metis)

end
