(* ===== verification/Meridian_Maps.thy ===== *)
theory Meridian_Maps
  imports Kernel_Helpers
begin

text \<open>
  The state the programs share: the maps of \<^verbatim>\<open>bpf/include/meridian_maps.h\<close> (plus the
  \<open>udp_seen_flows_map\<close> that \<^verbatim>\<open>tc_ingress.c\<close> declares for itself), the packet being processed, the
  CPU the program runs on and the kernel's world. Hash maps are partial functions, array maps are
  lists, the ring buffer is the sequence of submitted records, and the PERCPU array is one list per
  CPU. The helpers of \<open>Kernel_Helpers\<close> are lifted to this state.
\<close>

section \<open>State\<close>

record 'w dp =
  world :: 'w
  cpu :: nat
  skb :: sk_buff
  identity_map :: "u32 \<rightharpoonup> u32"
  policy_map :: "policy_key \<rightharpoonup> policy_verdict"
  runtime_config_map :: "u32 list"
  metrics_map :: "nat \<Rightarrow> u64 list"
  flow_events :: "flow_event list"
  denied_flows_map :: "flow_key \<rightharpoonup> deny_info"
  udp_seen_flows_map :: "flow_key \<rightharpoonup> u8"
  sockhash :: "sock_key \<rightharpoonup> socket"
  schema_sentinel_map :: "u32 list"

text \<open>\<open>bpf_map_lookup_elem\<close> on an array map: \<open>NULL\<close> exactly when the index is out of range.\<close>

definition array_lookup :: "'v list \<Rightarrow> u32 \<Rightarrow> 'v option" where
  "array_lookup xs i = (if unat i < length xs then Some (xs ! unat i) else None)"

definition wf_dp :: "'w dp \<Rightarrow> bool" where
  "wf_dp s \<longleftrightarrow> wf_skb (skb s) \<and> length (runtime_config_map s) = 1 \<and>
     (\<forall>c. length (metrics_map s c) = METRIC_ID_MAX)"

text \<open>What the agent writes and the programs only read.\<close>

definition config_of ::
  "'w dp \<Rightarrow> (u32 \<rightharpoonup> u32) \<times> (policy_key \<rightharpoonup> policy_verdict) \<times> u32 list \<times> u32 list" where
  "config_of s = (identity_map s, policy_map s, runtime_config_map s, schema_sentinel_map s)"

text \<open>The counter that the program running on this CPU sees; \<open>0\<close> for a slot that is not there.\<close>

definition metric :: "'w dp \<Rightarrow> u32 \<Rightarrow> u64" where
  "metric s i = (case array_lookup (metrics_map s (cpu s)) i of None \<Rightarrow> 0 | Some v \<Rightarrow> v)"

section \<open>Lookup keys\<close>

text \<open>The identity of an address, with \<open>0\<close> for an unknown one, and the key of an ingress rule.\<close>

definition known_id :: "(u32 \<rightharpoonup> u32) \<Rightarrow> u32 \<Rightarrow> u32" where
  "known_id ids a = (case ids a of None \<Rightarrow> 0 | Some i \<Rightarrow> i)"

definition ingress_key :: "u32 \<Rightarrow> u32 \<Rightarrow> u16 \<Rightarrow> u8 \<Rightarrow> policy_key" where
  "ingress_key src_id dst_id port proto =
     \<lparr>pk_src_id = src_id, pk_dst_id = dst_id, pk_dst_port = port, pk_proto = proto,
      pk_direction = POLICY_DIR_INGRESS\<rparr>"

section \<open>Helpers on the state\<close>

definition bpf_ktime_get_ns :: "'w kernel \<Rightarrow> 'w dp \<Rightarrow> u64 \<times> 'w dp" where
  "bpf_ktime_get_ns K s =
     (let (t, w) = k_ktime_get_ns K (world s) in (t, s\<lparr>world := w\<rparr>))"

definition bpf_skb_pull_data :: "'w kernel \<Rightarrow> u32 \<Rightarrow> 'w dp \<Rightarrow> int \<times> 'w dp" where
  "bpf_skb_pull_data K n s =
     (let (rc, b, w) = k_skb_pull_data K (world s) (skb s) n in (rc, s\<lparr>skb := b, world := w\<rparr>))"

definition bpf_skb_load_bytes ::
  "'w kernel \<Rightarrow> u32 \<Rightarrow> nat \<Rightarrow> 'w dp \<Rightarrow> int \<times> byte list \<times> 'w dp" where
  "bpf_skb_load_bytes K off n s =
     (let (rc, bs, w) = k_skb_load_bytes K (world s) (skb s) off n in (rc, bs, s\<lparr>world := w\<rparr>))"

definition bpf_skb_store_bytes ::
  "'w kernel \<Rightarrow> u32 \<Rightarrow> byte list \<Rightarrow> u64 \<Rightarrow> 'w dp \<Rightarrow> int \<times> 'w dp" where
  "bpf_skb_store_bytes K off bs fl s =
     (let (rc, b, w) = k_skb_store_bytes K (world s) (skb s) off bs fl
      in (rc, s\<lparr>skb := b, world := w\<rparr>))"

definition bpf_skb_change_head :: "'w kernel \<Rightarrow> u32 \<Rightarrow> u64 \<Rightarrow> 'w dp \<Rightarrow> int \<times> 'w dp" where
  "bpf_skb_change_head K n fl s =
     (let (rc, b, w) = k_skb_change_head K (world s) (skb s) n fl
      in (rc, s\<lparr>skb := b, world := w\<rparr>))"

definition bpf_l4_csum_replace ::
  "'w kernel \<Rightarrow> u32 \<Rightarrow> u64 \<Rightarrow> u64 \<Rightarrow> u64 \<Rightarrow> 'w dp \<Rightarrow> int \<times> 'w dp" where
  "bpf_l4_csum_replace K off old new fl s =
     (let (rc, b, w) = k_l4_csum_replace K (world s) (skb s) off old new fl
      in (rc, s\<lparr>skb := b, world := w\<rparr>))"

definition bpf_ringbuf_reserve :: "'w kernel \<Rightarrow> nat \<Rightarrow> 'w dp \<Rightarrow> flow_event option \<times> 'w dp" where
  "bpf_ringbuf_reserve K n s =
     (let (ev, w) = k_ringbuf_reserve K (world s) (flow_events s) n in (ev, s\<lparr>world := w\<rparr>))"

definition bpf_ringbuf_submit :: "flow_event \<Rightarrow> 'w dp \<Rightarrow> 'w dp" where
  "bpf_ringbuf_submit ev s = s\<lparr>flow_events := flow_events s @ [ev]\<rparr>"

definition denied_flows_update :: "'w kernel \<Rightarrow> flow_key \<Rightarrow> deny_info \<Rightarrow> 'w dp \<Rightarrow> int \<times> 'w dp" where
  "denied_flows_update K k v s =
     (let (rc, m, w) = k_denied_update K (world s) (denied_flows_map s) k v
      in (rc, s\<lparr>denied_flows_map := m, world := w\<rparr>))"

definition udp_seen_flows_update :: "'w kernel \<Rightarrow> flow_key \<Rightarrow> u8 \<Rightarrow> 'w dp \<Rightarrow> int \<times> 'w dp" where
  "udp_seen_flows_update K k v s =
     (let (rc, m, w) = k_seen_update K (world s) (udp_seen_flows_map s) k v
      in (rc, s\<lparr>udp_seen_flows_map := m, world := w\<rparr>))"

lemmas skb_helper_defs =
  bpf_skb_pull_data_def bpf_skb_load_bytes_def bpf_skb_store_bytes_def bpf_skb_change_head_def
  bpf_l4_csum_replace_def

lemmas map_helper_defs =
  bpf_ktime_get_ns_def bpf_ringbuf_reserve_def bpf_ringbuf_submit_def denied_flows_update_def
  udp_seen_flows_update_def

section \<open>The footprint of the packet helpers\<close>

text \<open>A packet helper may change the packet and the world, and nothing else.\<close>

definition skb_only :: "'w dp \<Rightarrow> 'w dp \<Rightarrow> bool" where
  "skb_only s t \<longleftrightarrow> t = s\<lparr>skb := skb t, world := world t\<rparr>"

lemma skb_only_iff: "skb_only s t \<longleftrightarrow> (\<exists>b w. t = s\<lparr>skb := b, world := w\<rparr>)"
  by (auto simp: skb_only_def)

lemma skb_only_refl [simp, intro]: "skb_only s s"
  by (simp add: skb_only_def)

lemma skb_only_trans [trans]:
  assumes "skb_only s t" and "skb_only t u"
  shows "skb_only s u"
proof -
  obtain b w where "t = s\<lparr>skb := b, world := w\<rparr>" using assms(1) by (auto simp: skb_only_iff)
  then have "u = s\<lparr>skb := skb u, world := world u\<rparr>" using assms(2) by (simp add: skb_only_def)
  then show ?thesis unfolding skb_only_def .
qed

lemma skb_onlyD:
  assumes "skb_only s t"
  shows "cpu t = cpu s" "identity_map t = identity_map s" "policy_map t = policy_map s"
    "runtime_config_map t = runtime_config_map s" "metrics_map t = metrics_map s"
    "flow_events t = flow_events s" "denied_flows_map t = denied_flows_map s"
    "udp_seen_flows_map t = udp_seen_flows_map s" "sockhash t = sockhash s"
    "schema_sentinel_map t = schema_sentinel_map s" "config_of t = config_of s"
    "metric t i = metric s i"
proof -
  obtain b w where "t = s\<lparr>skb := b, world := w\<rparr>" using assms by (auto simp: skb_only_iff)
  then show "cpu t = cpu s" "identity_map t = identity_map s" "policy_map t = policy_map s"
    "runtime_config_map t = runtime_config_map s" "metrics_map t = metrics_map s"
    "flow_events t = flow_events s" "denied_flows_map t = denied_flows_map s"
    "udp_seen_flows_map t = udp_seen_flows_map s" "sockhash t = sockhash s"
    "schema_sentinel_map t = schema_sentinel_map s" "config_of t = config_of s"
    "metric t i = metric s i"
    by (simp_all add: config_of_def metric_def)
qed

lemma skb_helper_footprint:
  "bpf_skb_pull_data K n s = (rc, t) \<Longrightarrow> skb_only s t"
  "bpf_skb_load_bytes K off l s = (rc, bs, t) \<Longrightarrow> skb_only s t"
  "bpf_skb_store_bytes K off cs fl s = (rc, t) \<Longrightarrow> skb_only s t"
  "bpf_skb_change_head K n fl s = (rc, t) \<Longrightarrow> skb_only s t"
  "bpf_l4_csum_replace K off old new fl s = (rc, t) \<Longrightarrow> skb_only s t"
  "bpf_skb_load_bytes K off l s = (rc, bs, t) \<Longrightarrow> skb t = skb s"
  by (auto simp: skb_helper_defs skb_only_def split: prod.splits)

section \<open>The packet helpers on the state\<close>

text \<open>The contracts of \<open>Kernel_Helpers\<close>, restated for the lifted operations.\<close>

context skb_helpers
begin

lemma pull_data_dp:
  assumes "bpf_skb_pull_data K (skb_len (skb s)) s = (rc, t)" and "length (pkt (skb s)) < 2 ^ 32"
  shows "pkt (skb t) = pkt (skb s)" "mark (skb t) = mark (skb s)"
    "linear (skb t) \<le> length (pkt (skb t))" "rc = 0 \<Longrightarrow> skb_data (skb t) = pkt (skb s)"
proof -
  obtain b w where e: "k_skb_pull_data K (world s) (skb s) (skb_len (skb s)) = (rc, b, w)"
    and t: "t = s\<lparr>skb := b, world := w\<rparr>"
    using assms(1) by (auto simp: bpf_skb_pull_data_def split: prod.splits)
  show "pkt (skb t) = pkt (skb s)" "mark (skb t) = mark (skb s)"
    "linear (skb t) \<le> length (pkt (skb t))"
    using pull_frame [OF e] by (auto simp: t)
  assume "rc = 0"
  with e have "length (pkt (skb s)) \<le> linear b"
    using pull_linear unat_skb_len [OF assms(2)] by fastforce
  then show "skb_data (skb t) = pkt (skb s)"
    using pull_frame [OF e] by (simp add: t skb_data_def)
qed

lemma load_dp:
  "bpf_skb_load_bytes K off l s = (0, bs, t) \<Longrightarrow>
     unat off + l \<le> length (pkt (skb s)) \<and> bs = slice_of (pkt (skb s)) (unat off) l"
  using load_ok by (auto simp: bpf_skb_load_bytes_def split: prod.splits)

lemma store_dp:
  "bpf_skb_store_bytes K off bs fl s = (0, t) \<Longrightarrow>
     unat off + length bs \<le> length (pkt (skb s)) \<and>
     pkt (skb t) = overwrite (pkt (skb s)) (unat off) bs"
  using store_ok by (auto simp: bpf_skb_store_bytes_def split: prod.splits)

lemma store_frame_dp:
  assumes "bpf_skb_store_bytes K off bs fl s = (rc, t)"
  shows "mark (skb t) = mark (skb s)" "linear (skb t) \<le> length (pkt (skb t))"
    "length (pkt (skb t)) = length (pkt (skb s))"
proof -
  obtain b w where e: "k_skb_store_bytes K (world s) (skb s) off bs fl = (rc, b, w)"
    and t: "t = s\<lparr>skb := b, world := w\<rparr>"
    using assms by (auto simp: bpf_skb_store_bytes_def split: prod.splits)
  show "mark (skb t) = mark (skb s)" "linear (skb t) \<le> length (pkt (skb t))"
    using store_frame [OF e] by (auto simp: t)
  show "length (pkt (skb t)) = length (pkt (skb s))"
  proof (cases "rc = 0")
    case True
    then show ?thesis using e store_ok [of "world s" "skb s" off bs fl b w] by (simp add: t)
  next
    case False
    then show ?thesis using store_fail [OF e] by (simp add: t)
  qed
qed

lemma head_dp:
  "bpf_skb_change_head K n fl s = (0, t) \<Longrightarrow>
     \<exists>hd. length hd = unat n \<and> pkt (skb t) = hd @ pkt (skb s)"
  using head_ok by (auto simp: bpf_skb_change_head_def split: prod.splits)

end

context live_skb_helpers
begin

lemma pull_live_dp: "\<exists>t. bpf_skb_pull_data K n s = (0, t)"
  using pull_live [of "world s" "skb s" n] by (auto simp: bpf_skb_pull_data_def)

lemma load_live_dp:
  "unat off + l \<le> length (pkt (skb s)) \<Longrightarrow> \<exists>bs t. bpf_skb_load_bytes K off l s = (0, bs, t)"
  using load_live [of off l "skb s" "world s"] by (auto simp: bpf_skb_load_bytes_def)

lemma store_live_dp:
  "unat off + length bs \<le> length (pkt (skb s)) \<Longrightarrow> \<exists>t. bpf_skb_store_bytes K off bs fl s = (0, t)"
  using store_live [of off bs "skb s" "world s" fl] by (auto simp: bpf_skb_store_bytes_def)

lemma head_live_dp: "\<exists>t. bpf_skb_change_head K n fl s = (0, t)"
  using head_live [of "world s" "skb s" n fl] by (auto simp: bpf_skb_change_head_def)

end

end
