(* ===== verification/Telemetry.thy ===== *)
theory Telemetry
  imports Meridian_Maps
begin

text \<open>
  The accounting interface of the TC programs. \<open>metric_add\<close>, \<open>emit_flow_event\<close> and
  \<open>denied_flow_upsert\<close> are written out in both \<^verbatim>\<open>tc_ingress.c\<close> and \<^verbatim>\<open>tc_egress.c\<close>; the locale
  \<open>telemetry\<close> says what an enforcement decision may rely on, and the lemmas below hold for
  every instance. Telemetry never touches what a verdict is computed from, and a denial leaves a
  complete trace: a counter, an event (or a counted ring overflow) and a denied-flow entry.
\<close>

section \<open>What a verdict is computed from\<close>

definition enforcement_view ::
  "'w dp \<Rightarrow> sk_buff \<times> (u32 \<rightharpoonup> u32) \<times> (policy_key \<rightharpoonup> policy_verdict) \<times> u32 list \<times>
    (flow_key \<rightharpoonup> u8) \<times> (sock_key \<rightharpoonup> socket) \<times> u32 list \<times> nat" where
  "enforcement_view s =
     (skb s, identity_map s, policy_map s, runtime_config_map s, udp_seen_flows_map s,
      sockhash s, schema_sentinel_map s, cpu s)"

lemma enforcement_viewD:
  assumes "enforcement_view t = enforcement_view s"
  shows "skb t = skb s" "identity_map t = identity_map s" "policy_map t = policy_map s"
    "runtime_config_map t = runtime_config_map s"
    "udp_seen_flows_map t = udp_seen_flows_map s" "sockhash t = sockhash s"
    "schema_sentinel_map t = schema_sentinel_map s" "cpu t = cpu s" "config_of t = config_of s"
  using assms by (simp_all add: enforcement_view_def config_of_def)

section \<open>Records\<close>

text \<open>The event that reports a decision: every padding byte is zero and no L7 data is claimed.\<close>

definition decision_event ::
  "u64 \<Rightarrow> u32 \<Rightarrow> u32 \<Rightarrow> u16 \<Rightarrow> u16 \<Rightarrow> u8 \<Rightarrow> u8 \<Rightarrow> u32 \<Rightarrow> u32 \<Rightarrow> u32 \<Rightarrow> flow_event" where
  "decision_event ts sip dip sp dp pr v sid did n =
     \<lparr> ev_timestamp_ns = ts, ev_src_ip = sip, ev_dst_ip = dip, ev_src_port = sp,
       ev_dst_port = dp, ev_proto = pr, ev_verdict = v, ev_pad0 = 0, ev_src_identity = sid,
       ev_dst_identity = did, ev_bytes = n, ev_pad1 = 0, ev_latency_ns = 0,
       ev_l7_status_code = 0, ev_pad2_0 = 0, ev_pad2_1 = 0, ev_pad2_2 = 0 \<rparr>"

definition next_deny_info :: "deny_info option \<Rightarrow> u32 \<Rightarrow> u64 \<Rightarrow> deny_info" where
  "next_deny_info old reason now =
     \<lparr> di_last_ns = now,
       di_count = (case old of None \<Rightarrow> 1 | Some i \<Rightarrow> di_count i + 1),
       di_reason = reason \<rparr>"

text \<open>One event was offered to the ring: it was submitted, or its loss was counted.\<close>

definition event_offered :: "flow_event \<Rightarrow> 'w dp \<Rightarrow> 'w dp \<Rightarrow> bool" where
  "event_offered ev s t \<longleftrightarrow>
     flow_events t = flow_events s @ [ev] \<and>
       metric t METRIC_RINGBUF_DROPPED = metric s METRIC_RINGBUF_DROPPED \<or>
     flow_events t = flow_events s \<and>
       metric t METRIC_RINGBUF_DROPPED = metric s METRIC_RINGBUF_DROPPED + 1"

text \<open>The trace a denial leaves.\<close>

definition deny_recorded ::
  "'w kernel \<Rightarrow> flow_key \<Rightarrow> u32 \<Rightarrow> u64 \<Rightarrow> flow_event \<Rightarrow> 'w dp \<Rightarrow> 'w dp \<Rightarrow> bool" where
  "deny_recorded K key reason now ev s t \<longleftrightarrow>
     enforcement_view t = enforcement_view s \<and>
     metric t METRIC_FLOWS_DENIED = metric s METRIC_FLOWS_DENIED + 1 \<and>
     event_offered ev s t \<and>
     denied_flows_map t =
       fst (snd (k_denied_update K (world s) (denied_flows_map s) key
         (next_deny_info (denied_flows_map s key) reason now)))"

section \<open>The interface\<close>

definition metrics_ok :: "'w dp \<Rightarrow> bool" where
  "metrics_ok s \<longleftrightarrow> (\<forall>c. length (metrics_map s c) = METRIC_ID_MAX)"

text \<open>The counters alone; \<^verbatim>\<open>sk_msg.c\<close> has only these.\<close>

locale counters =
  fixes metric_add :: "u32 \<Rightarrow> u64 \<Rightarrow> 'w dp \<Rightarrow> 'w dp"
  assumes add_view [simp]: "enforcement_view (metric_add i x s) = enforcement_view s"
    and add_metrics_ok [simp]: "metrics_ok (metric_add i x s) = metrics_ok s"
    and add_hit: "metrics_ok s \<Longrightarrow> i < 16 \<Longrightarrow> metric (metric_add i x s) i = metric s i + x"
    and add_miss [simp]: "j \<noteq> i \<Longrightarrow> metric (metric_add i x s) j = metric s j"
    and add_events [simp]: "flow_events (metric_add i x s) = flow_events s"
    and add_denied [simp]: "denied_flows_map (metric_add i x s) = denied_flows_map s"
    and add_world [simp]: "world (metric_add i x s) = world s"

locale telemetry = counters metric_add
  for metric_add :: "u32 \<Rightarrow> u64 \<Rightarrow> 'w dp \<Rightarrow> 'w dp" +
  fixes emit_flow_event ::
      "'w kernel \<Rightarrow> u64 \<Rightarrow> u32 \<Rightarrow> u32 \<Rightarrow> u16 \<Rightarrow> u16 \<Rightarrow> u8 \<Rightarrow> u8 \<Rightarrow> u32 \<Rightarrow> u32 \<Rightarrow> u32 \<Rightarrow>
       'w dp \<Rightarrow> 'w dp"
    and denied_flow_upsert :: "'w kernel \<Rightarrow> flow_key \<Rightarrow> u32 \<Rightarrow> u64 \<Rightarrow> 'w dp \<Rightarrow> 'w dp"
  assumes emit_view [simp]:
      "enforcement_view (emit_flow_event K ts a b c d e f g h n s) = enforcement_view s"
    and upsert_view [simp]: "enforcement_view (denied_flow_upsert K k r now s) = enforcement_view s"
    and emit_metrics_ok [simp]:
      "metrics_ok (emit_flow_event K ts a b c d e f g h n s) = metrics_ok s"
    and upsert_metrics [simp]: "metrics_map (denied_flow_upsert K k r now s) = metrics_map s"
    and emit_cases:
      "metrics_ok s \<Longrightarrow> t = emit_flow_event K ts a b c d e f g h n s \<Longrightarrow>
         event_offered (decision_event ts a b c d e f g h n) s t \<and>
         (\<forall>j. j \<noteq> METRIC_RINGBUF_DROPPED \<longrightarrow> metric t j = metric s j)"
    and emit_denied [simp]:
      "denied_flows_map (emit_flow_event K ts a b c d e f g h n s) = denied_flows_map s"
    and upsert_events [simp]: "flow_events (denied_flow_upsert K k r now s) = flow_events s"
    and upsert_denied:
      "denied_flows_map (denied_flow_upsert K k r now s) =
         fst (snd (k_denied_update K (world s) (denied_flows_map s) k
           (next_deny_info (denied_flows_map s k) r now)))"
begin

lemma upsert_metric [simp]: "metric (denied_flow_upsert K k r now s) j = metric s j"
  using enforcement_viewD(8) [OF upsert_view [of K k r now s]] by (simp add: metric_def)

lemma upsert_metrics_ok [simp]: "metrics_ok (denied_flow_upsert K k r now s) = metrics_ok s"
  by (simp add: metrics_ok_def)

lemma emit_miss:
  assumes "metrics_ok s" and "j \<noteq> METRIC_RINGBUF_DROPPED"
  shows "metric (emit_flow_event K ts a b c d e f g h n s) j = metric s j"
  using emit_cases [OF assms(1) refl, of ts a b c d e f g h n K] assms(2) by blast

text \<open>The sequence every denying branch performs: upsert, count, emit.\<close>

lemma deny_sequence:
  assumes "metrics_ok s"
  shows "deny_recorded K key reason now (decision_event ts a b c d e f g h n) s
    (emit_flow_event K ts a b c d e f g h n
      (metric_add METRIC_FLOWS_DENIED 1 (denied_flow_upsert K key reason now s)))"
proof -
  let ?u = "metric_add METRIC_FLOWS_DENIED 1 (denied_flow_upsert K key reason now s)"
  let ?t = "emit_flow_event K ts a b c d e f g h n ?u"
  have ok: "metrics_ok ?u" using assms by simp
  note emitted = emit_cases [OF ok refl, where K = K and ts = ts and a = a and b = b and c = c and d = d
      and e = e and f = f and g = g and h = h and n = n]
  have "event_offered (decision_event ts a b c d e f g h n) s ?t"
    using emitted by (simp add: event_offered_def)
  moreover have "metric ?t METRIC_FLOWS_DENIED = metric s METRIC_FLOWS_DENIED + 1"
    using emitted assms by (simp add: add_hit)
  ultimately show ?thesis
    by (simp add: deny_recorded_def upsert_denied)
qed

text \<open>The sequence of a counted decision without a denied-flow entry.\<close>

lemma count_sequence:
  assumes "metrics_ok s" and "i < 16" and "i \<noteq> METRIC_RINGBUF_DROPPED"
    and t: "t = emit_flow_event K ts a b c d e f g h n (metric_add i 1 s)"
  shows "event_offered (decision_event ts a b c d e f g h n) s t"
    and "metric t i = metric s i + 1"
    and "enforcement_view t = enforcement_view s"
    and "denied_flows_map t = denied_flows_map s"
proof -
  have ok: "metrics_ok (metric_add i 1 s)" using assms(1) by simp
  note emitted = emit_cases [OF ok refl, where K = K and ts = ts and a = a and b = b and c = c and d = d
      and e = e and f = f and g = g and h = h and n = n]
  show "event_offered (decision_event ts a b c d e f g h n) s t"
    using emitted assms(3)
    by (simp add: t event_offered_def)
  show "metric t i = metric s i + 1"
    using emitted assms(1-3)
    by (simp add: t add_hit)
qed (simp_all add: t)

end

text \<open>
  A denial that the kernel accepted is visible under its flow key, with one more hit than before.
\<close>

context lru_helpers
begin

lemma deny_recorded_visible:
  assumes "deny_recorded K key reason now ev s t"
    and "fst (k_denied_update K (world s) (denied_flows_map s) key
           (next_deny_info (denied_flows_map s key) reason now)) = 0"
  shows "denied_flows_map t key = Some (next_deny_info (denied_flows_map s key) reason now)"
  using assms denied_ok by (cases "k_denied_update K (world s) (denied_flows_map s) key
           (next_deny_info (denied_flows_map s key) reason now)") (auto simp: deny_recorded_def)

end

end
