(* ===== verification/Meridian_Parse.thy ===== *)
theory Meridian_Parse
  imports Meridian_Types
begin

text \<open>
  The shared L2/L3 parse helpers of \<^verbatim>\<open>bpf/include/meridian_parse.h\<close>. A pointer into the packet is
  an offset from \<open>data\<close>; \<open>d\<close> is the linear packet, so \<open>data_end\<close> is \<open>length d\<close>. Header fields
  are read at the offsets of the \<^verbatim>\<open>vmlinux.h\<close> structs. Each helper is shown total (no load
  outside the packet) by an equation with a pure description of what it finds.
\<close>

section \<open>Header fields\<close>

definition sizeof_ethhdr :: nat where [simp]: "sizeof_ethhdr = 14"
definition sizeof_iphdr :: nat where [simp]: "sizeof_iphdr = 20"
definition sizeof_udphdr :: nat where [simp]: "sizeof_udphdr = 8"

definition eth_h_proto :: "byte list \<Rightarrow> nat \<Rightarrow> u16 option" where
  "eth_h_proto d eth = rd16 d (eth + 12)"

definition ip_version :: "byte list \<Rightarrow> nat \<Rightarrow> u8 option" where
  "ip_version d ip = map_option (drop_bit 4) (rd8 d ip)"

definition ip_ihl :: "byte list \<Rightarrow> nat \<Rightarrow> nat option" where
  "ip_ihl d ip = map_option (\<lambda>b. unat (b AND 15)) (rd8 d ip)"

definition ip_protocol :: "byte list \<Rightarrow> nat \<Rightarrow> u8 option" where
  "ip_protocol d ip = rd8 d (ip + 9)"

definition ip_saddr :: "byte list \<Rightarrow> nat \<Rightarrow> u32 option" where
  "ip_saddr d ip = rd32 d (ip + 12)"

definition ip_daddr :: "byte list \<Rightarrow> nat \<Rightarrow> u32 option" where
  "ip_daddr d ip = rd32 d (ip + 16)"

definition udp_dest :: "byte list \<Rightarrow> nat \<Rightarrow> u16 option" where
  "udp_dest d udp = rd16 d (udp + 2)"

lemmas header_field_defs =
  eth_h_proto_def ip_version_def ip_ihl_def ip_protocol_def ip_saddr_def ip_daddr_def udp_dest_def

section \<open>The helpers\<close>

definition looks_like_ipv4 :: "byte list \<Rightarrow> nat \<Rightarrow> bool option" where
  "looks_like_ipv4 d ip =
     (if ip + sizeof_iphdr > length d then Some False
      else do {
        version \<leftarrow> ip_version d ip;
        ihl \<leftarrow> ip_ihl d ip;
        Some (version = 4 \<and> ihl \<ge> IPV4_IHL_MIN \<and> ihl \<le> IPV4_IHL_MAX)
      })"

definition parse_ipv4_after_eth :: "byte list \<Rightarrow> nat \<Rightarrow> nat option option" where
  "parse_ipv4_after_eth d eth =
     (if eth + sizeof_ethhdr > length d then Some None
      else do {
        h_proto \<leftarrow> eth_h_proto d eth;
        l3 \<leftarrow>
          (if h_proto = bpf_htons ETH_P_IP then Some (Some (eth + sizeof_ethhdr))
           else if h_proto = bpf_htons ETH_P_8021Q then
             (let vlan = eth + sizeof_ethhdr
              in if vlan + VLAN_INNER_HDR_BYTES > length d then Some None
                 else do {
                   inner \<leftarrow> rd16 d (vlan + 2);
                   Some (if inner \<noteq> bpf_htons ETH_P_IP then None
                         else Some (vlan + VLAN_INNER_HDR_BYTES))
                 })
           else Some None);
        (case l3 of
           None \<Rightarrow> Some None
         | Some l3 \<Rightarrow> do {
             ok \<leftarrow> looks_like_ipv4 d l3;
             Some (if ok then Some l3 else None)
           })
      })"

definition parse_ipv4_in_geneve_payload :: "byte list \<Rightarrow> nat \<Rightarrow> (nat \<times> nat) option option" where
  "parse_ipv4_in_geneve_payload d payload = do {
     slot \<leftarrow> looks_like_ipv4 d (payload + MERIDIAN_GENEVE_OPT_BYTES);
     if slot then Some (Some (payload + MERIDIAN_GENEVE_OPT_BYTES, MERIDIAN_GENEVE_OPT_BYTES))
     else do {
       raw \<leftarrow> looks_like_ipv4 d payload;
       if raw then Some (Some (payload, 0))
       else do {
         r \<leftarrow> parse_ipv4_after_eth d payload;
         Some (map_option (\<lambda>ip. (ip, 0)) r)
       }
     }
   }"

section \<open>What they find\<close>

text \<open>A complete IPv4 header without and with options starts at \<open>ip\<close>.\<close>

definition ipv4_at :: "byte list \<Rightarrow> nat \<Rightarrow> bool" where
  "ipv4_at d ip \<longleftrightarrow> ip + 20 \<le> length d \<and> drop_bit 4 (d ! ip) = 4 \<and> 5 \<le> unat (d ! ip AND 15)"

abbreviation ihl_at :: "byte list \<Rightarrow> nat \<Rightarrow> nat" where
  "ihl_at d ip \<equiv> unat (d ! ip AND 15)"

definition ipv4_after_eth :: "byte list \<Rightarrow> nat \<Rightarrow> nat option" where
  "ipv4_after_eth d eth =
     (if w16 d (eth + 12) = 0x0008 \<and> ipv4_at d (eth + 14) then Some (eth + 14)
      else if w16 d (eth + 12) = 0x0081 \<and> w16 d (eth + 16) = 0x0008 \<and> ipv4_at d (eth + 18)
      then Some (eth + 18)
      else None)"

definition ipv4_in_payload :: "byte list \<Rightarrow> nat \<Rightarrow> (nat \<times> nat) option" where
  "ipv4_in_payload d p =
     (if ipv4_at d (p + 8) then Some (p + 8, 8)
      else if ipv4_at d p then Some (p, 0)
      else map_option (\<lambda>ip. (ip, 0)) (ipv4_after_eth d p))"

text \<open>The flow key of a packet: addresses and ports verbatim, padding zero.\<close>

definition packet_flow_key :: "byte list \<Rightarrow> nat \<Rightarrow> u16 \<Rightarrow> u16 \<Rightarrow> flow_key" where
  "packet_flow_key d ip src_port dst_port =
     \<lparr>fk_src_ip = w32 d (ip + 12), fk_dst_ip = w32 d (ip + 16), fk_src_port = src_port,
      fk_dst_port = dst_port, fk_proto = d ! (ip + 9), fk_pad_0 = 0, fk_pad_1 = 0, fk_pad_2 = 0\<rparr>"

lemma ihl_le_15: "unat ((b :: byte) AND 15) \<le> 15"
proof -
  have "unat (b AND 15) \<le> unat (15 :: byte)"
    by (rule word_and_le1 [THEN word_le_nat_alt [THEN iffD1]])
  then show ?thesis by simp
qed

lemma ethertypes_be: "bpf_htons 0x0800 = 0x0008" "bpf_htons 0x8100 = 0x0081"
  by (simp_all add: bpf_htons_def)

lemma looks_like_ipv4_eq [simp]: "looks_like_ipv4 d ip = Some (ipv4_at d ip)"
  using ihl_le_15 [of "d ! ip"]
  by (auto simp: looks_like_ipv4_def ipv4_at_def header_field_defs load_simps)

lemma parse_ipv4_after_eth_eq [simp]:
  "parse_ipv4_after_eth d eth = Some (ipv4_after_eth d eth)"
proof -
  have "ipv4_at d (eth + 14) \<Longrightarrow> eth + 14 \<le> length d"
    "ipv4_at d (eth + 18) \<Longrightarrow> eth + 18 \<le> length d"
    by (simp_all add: ipv4_at_def)
  moreover have "(0x0081 :: u16) \<noteq> 0x0008" by simp
  ultimately show ?thesis
    by (auto simp: parse_ipv4_after_eth_def ipv4_after_eth_def eth_h_proto_def ethertypes_be
        rd16_def Let_def ac_simps)
qed

lemma parse_ipv4_in_geneve_payload_eq [simp]:
  "parse_ipv4_in_geneve_payload d p = Some (ipv4_in_payload d p)"
  by (simp add: parse_ipv4_in_geneve_payload_def ipv4_in_payload_def)

lemma ipv4_after_eth_at: "ipv4_after_eth d eth = Some ip \<Longrightarrow> ipv4_at d ip"
  by (auto simp: ipv4_after_eth_def split: if_splits)

lemma ipv4_after_eth_offset:
  "ipv4_after_eth d eth = Some ip \<Longrightarrow> ip = eth + 14 \<or> ip = eth + 18"
  by (auto simp: ipv4_after_eth_def split: if_splits)

lemma ipv4_in_payload_at: "ipv4_in_payload d p = Some (ip, r) \<Longrightarrow> ipv4_at d ip"
  by (auto simp: ipv4_in_payload_def ipv4_after_eth_at split: if_splits)

lemma ipv4_in_payload_slot: "ipv4_in_payload d p = Some (ip, r) \<Longrightarrow> r = 0 \<or> r = 8 \<and> ip = p + 8"
  by (auto simp: ipv4_in_payload_def split: if_splits)

text \<open>Every fixed field of a found header can be loaded.\<close>

lemma ipv4_at_loads:
  assumes "ipv4_at d ip"
  shows "ip_ihl d ip = Some (ihl_at d ip)" "ip_version d ip = Some 4"
    "ip_protocol d ip = Some (d ! (ip + 9))"
    "ip_saddr d ip = Some (w32 d (ip + 12))" "ip_daddr d ip = Some (w32 d (ip + 16))"
  using assms by (simp_all add: ipv4_at_def header_field_defs load_simps)

lemma ipv4_at_ihl: "ipv4_at d ip \<Longrightarrow> 5 \<le> ihl_at d ip \<and> ihl_at d ip \<le> 15"
  using ihl_le_15 by (simp add: ipv4_at_def)

end
