(* ===== verification/Tc_Ingress.thy ===== *)
theory Tc_Ingress
  imports Telemetry Meridian_Parse
begin

text \<open>
  The ingress program \<^verbatim>\<open>bpf/tc_ingress.c\<close>, function by function. A program returns the TC action
  and the new state; the outer \<open>option\<close> is \<open>None\<close> when the C code would dereference a packet
  pointer outside \<open>[data, data_end)\<close>. Packet pointers are offsets into the linear packet \<open>d\<close>,
  and the scalars the C code computes from helper arguments keep their 32-bit width.

  This theory holds the definitions, the proof that the accounting functions are an instance of
  the \<open>telemetry\<close> interface, and the totality of every parser.
\<close>

section \<open>Posture, ports and Geneve options\<close>

definition failopen_unknown_enabled :: "'w dp \<Rightarrow> bool" where
  "failopen_unknown_enabled s =
     (case array_lookup (runtime_config_map s) 0 of
        None \<Rightarrow> False
      | Some cfg \<Rightarrow> cfg AND MERIDIAN_CFG_FALLOPEN_UNKNOWN \<noteq> 0)"

definition parse_l4_ports :: "byte list \<Rightarrow> nat \<Rightarrow> u16 \<Rightarrow> u16 \<Rightarrow> (u16 \<times> u16) option option" where
  "parse_l4_ports d ip src_port dst_port = do {
     ihl \<leftarrow> ip_ihl d ip;
     if ihl < IPV4_IHL_MIN \<or> ihl > IPV4_IHL_MAX then Some None
     else do {
       let l4 = ip + ihl * IPV4_WORD_BYTES;
       protocol \<leftarrow> ip_protocol d ip;
       if protocol = IPPROTO_TCP \<or> protocol = IPPROTO_UDP then
         if l4 + L4_PORTS_BYTES > length d then Some None
         else do {
           p0 \<leftarrow> rd16 d l4;
           p1 \<leftarrow> rd16 d (l4 + 2);
           Some (Some (p0, p1))
         }
       else Some (Some (src_port, dst_port))
     }
   }"

text \<open>
  The option walk; the counter is the number of iterations left of the loop bound \<open>4\<close>. An
  option is at most \<open>4 + 31 * 4\<close> bytes, so the 32-bit offset of the C code never wraps.
\<close>

fun geneve_identity_walk :: "byte list \<Rightarrow> nat \<Rightarrow> nat \<Rightarrow> nat \<Rightarrow> nat \<Rightarrow> u32 option option" where
  "geneve_identity_walk d opts opt_bytes 0 offset = Some None"
| "geneve_identity_walk d opts opt_bytes (Suc i) offset =
     (if offset \<ge> opt_bytes then Some None
      else if offset > opt_bytes then Some None
      else let opt = opts + offset in
        if opt + 4 > length d then Some None
        else do {
          b3 \<leftarrow> rd8 d (opt + 3);
          let opt_len_words = unat (b3 AND 0x1f);
          let opt_size = 4 + opt_len_words * 4;
          if opt_size < 4 \<or> offset + opt_size > opt_bytes then Some None
          else do {
            class_be \<leftarrow> rd16 d opt;
            opt_type \<leftarrow> rd8 d (opt + 2);
            if class_be = bpf_htons MERIDIAN_GENEVE_CLASS \<and> opt_type = MERIDIAN_OPT_IDENTITY \<and>
               opt_len_words = MERIDIAN_GENEVE_IDENTITY_LEN_WORDS then
              if opt + MERIDIAN_GENEVE_OPT_BYTES > length d then Some None
              else do {
                src_id_be \<leftarrow> rd32 d (opt + 4);
                Some (Some (bpf_ntohl src_id_be))
              }
            else geneve_identity_walk d opts opt_bytes i (offset + opt_size)
          }
        })"

definition parse_geneve_identity :: "byte list \<Rightarrow> nat \<Rightarrow> nat \<Rightarrow> u32 option option" where
  "parse_geneve_identity d opts opt_bytes = geneve_identity_walk d opts opt_bytes 4 0"

text \<open>
  \<open>Some (Some (inner_ip, geneve_src_id, geneve_tlv_found))\<close> when the C function returns 1.
\<close>

definition try_parse_geneve_inner :: "byte list \<Rightarrow> nat \<Rightarrow> (nat \<times> u32 \<times> bool) option option" where
  "try_parse_geneve_inner d outer_ip = do {
     protocol \<leftarrow> ip_protocol d outer_ip;
     if protocol \<noteq> IPPROTO_UDP then Some None
     else do {
       ihl \<leftarrow> ip_ihl d outer_ip;
       let udp = outer_ip + ihl * IPV4_WORD_BYTES;
       if udp + sizeof_udphdr > length d then Some None
       else do {
         dest \<leftarrow> udp_dest d udp;
         if dest \<noteq> bpf_htons MERIDIAN_GENEVE_UDP_PORT then Some None
         else do {
           let geneve = udp + sizeof_udphdr;
           if geneve + 8 > length d then Some None
           else do {
             geneve0 \<leftarrow> rd8 d geneve;
             if drop_bit 6 geneve0 \<noteq> 0 then Some None
             else do {
               let opt_words = unat (geneve0 AND 0x3f);
               let opt_bytes = opt_words * 4;
               if opt_words > MERIDIAN_MAX_GENEVE_OPT_WORDS then Some None
               else do {
                 let opts = geneve + 8;
                 if opts + opt_bytes > length d then Some None
                 else do {
                   let inner_base = opts + opt_bytes;
                   r \<leftarrow> parse_ipv4_in_geneve_payload d inner_base;
                   (case r of
                      None \<Rightarrow> Some None
                    | Some (inner_ip, ignored_tlv) \<Rightarrow> do {
                        found \<leftarrow> parse_geneve_identity d opts opt_bytes;
                        Some (Some (case found of
                                      None \<Rightarrow> (inner_ip, 0, False)
                                    | Some src_id \<Rightarrow> (inner_ip, src_id, True)))
                      })
                 }
               }
             }
           }
         }
       }
     }
   }"

section \<open>Accounting\<close>

definition metric_add :: "u32 \<Rightarrow> u64 \<Rightarrow> 'w dp \<Rightarrow> 'w dp" where
  "metric_add i delta s =
     (case array_lookup (metrics_map s (cpu s)) i of
        None \<Rightarrow> s
      | Some val \<Rightarrow>
          s\<lparr>metrics_map := (metrics_map s)
              (cpu s := (metrics_map s (cpu s))[unat i := val + delta])\<rparr>)"

definition emit_flow_event ::
  "'w kernel \<Rightarrow> u64 \<Rightarrow> u32 \<Rightarrow> u32 \<Rightarrow> u16 \<Rightarrow> u16 \<Rightarrow> u8 \<Rightarrow> u8 \<Rightarrow> u32 \<Rightarrow> u32 \<Rightarrow> u32 \<Rightarrow>
   'w dp \<Rightarrow> 'w dp" where
  "emit_flow_event K timestamp_ns src_ip dst_ip src_port dst_port proto verdict
     src_identity dst_identity bytes s =
     (let (r, s) = bpf_ringbuf_reserve K 56 s
      in case r of
           None \<Rightarrow> metric_add METRIC_RINGBUF_DROPPED 1 s
         | Some ev \<Rightarrow>
             let ev = ev\<lparr>ev_timestamp_ns := timestamp_ns, ev_src_ip := src_ip, ev_dst_ip := dst_ip,
                         ev_src_port := src_port, ev_dst_port := dst_port, ev_proto := proto,
                         ev_verdict := verdict, ev_pad0 := 0, ev_src_identity := src_identity,
                         ev_dst_identity := dst_identity, ev_bytes := bytes, ev_pad1 := 0,
                         ev_latency_ns := 0, ev_l7_status_code := 0, ev_pad2_0 := 0,
                         ev_pad2_1 := 0, ev_pad2_2 := 0\<rparr>
             in bpf_ringbuf_submit ev s)"

definition denied_flow_upsert :: "'w kernel \<Rightarrow> flow_key \<Rightarrow> u32 \<Rightarrow> u64 \<Rightarrow> 'w dp \<Rightarrow> 'w dp" where
  "denied_flow_upsert K key reason now_ns s =
     (let info = \<lparr>di_last_ns = 0, di_count = 0, di_reason = 0\<rparr>;
          info = (case denied_flows_map s key of
                    Some existing \<Rightarrow> info\<lparr>di_count := di_count existing + 1\<rparr>
                  | None \<Rightarrow> info\<lparr>di_count := 1\<rparr>);
          info = info\<lparr>di_last_ns := now_ns\<rparr>;
          info = info\<lparr>di_reason := reason\<rparr>
      in snd (denied_flows_update K key info s))"

section \<open>Flow classification\<close>

definition is_tcp_connection_open :: "byte list \<Rightarrow> nat \<Rightarrow> bool option" where
  "is_tcp_connection_open d ip = do {
     ihl \<leftarrow> ip_ihl d ip;
     if ihl < IPV4_IHL_MIN \<or> ihl > IPV4_IHL_MAX then Some False
     else do {
       let l4 = ip + ihl * IPV4_WORD_BYTES;
       if l4 + 14 > length d then Some False
       else do {
         flags \<leftarrow> rd8 d (l4 + 13);
         Some (flags AND 0x02 \<noteq> 0 \<and> \<not> flags AND 0x10 \<noteq> 0)
       }
     }
   }"

definition is_geneve_tcp_client_syn :: "byte list \<Rightarrow> nat \<Rightarrow> bool option" where
  "is_geneve_tcp_client_syn d ip = is_tcp_connection_open d ip"

definition udp_first_sight :: "'w kernel \<Rightarrow> flow_key \<Rightarrow> 'w dp \<Rightarrow> bool \<times> 'w dp" where
  "udp_first_sight K key s =
     (case udp_seen_flows_map s key of
        Some seen \<Rightarrow> (False, s)
      | None \<Rightarrow> (True, snd (udp_seen_flows_update K key 1 s)))"

section \<open>Enforcement\<close>

text \<open>
  Every branch is written out as in C. The address and protocol fields are loaded once; the C
  code reloads the same bytes.
\<close>

definition enforce_flow ::
  "'w kernel \<Rightarrow> byte list \<Rightarrow> nat \<Rightarrow> u32 \<Rightarrow> u64 \<Rightarrow> u16 \<Rightarrow> u16 \<Rightarrow> u32 \<Rightarrow> u32 \<Rightarrow> int \<Rightarrow>
   'w dp \<Rightarrow> (int \<times> 'w dp) option" where
  "enforce_flow K d ip packet_bytes now_ns src_port dst_port src_id dst_id deny_action s = do {
     saddr \<leftarrow> ip_saddr d ip;
     daddr \<leftarrow> ip_daddr d ip;
     protocol \<leftarrow> ip_protocol d ip;
     let flow_key =
       \<lparr>fk_src_ip = saddr, fk_dst_ip = daddr, fk_src_port = src_port, fk_dst_port = dst_port,
        fk_proto = protocol, fk_pad_0 = 0, fk_pad_1 = 0, fk_pad_2 = 0\<rparr>;
     if src_id = 0 \<or> dst_id = 0 then
       if failopen_unknown_enabled s then Some (TC_ACT_OK, s)
       else do {
         let s = denied_flow_upsert K flow_key DROP_REASON_UNKNOWN_IDENTITY now_ns s;
         let s = metric_add METRIC_FLOWS_DENIED 1 s;
         let s = emit_flow_event K now_ns saddr daddr src_port dst_port protocol
                   FLOW_VERDICT_DENY src_id dst_id packet_bytes s;
         Some (TC_ACT_SHOT, s)
       }
     else do {
       let policy_key =
         \<lparr>pk_src_id = src_id, pk_dst_id = dst_id, pk_dst_port = bpf_ntohs dst_port,
          pk_proto = protocol, pk_direction = POLICY_DIR_INGRESS\<rparr>;
       (case policy_map s policy_key of
          None \<Rightarrow> do {
            let s = denied_flow_upsert K flow_key DROP_REASON_POLICY_MISS now_ns s;
            let s = metric_add METRIC_FLOWS_DENIED 1 s;
            let s = emit_flow_event K now_ns saddr daddr src_port dst_port protocol
                      FLOW_VERDICT_DENY src_id dst_id packet_bytes s;
            Some (TC_ACT_SHOT, s)
          }
        | Some verdict \<Rightarrow>
            if pv_action verdict = FLOW_VERDICT_ALLOW then do {
              tcp_open \<leftarrow> (if protocol = IPPROTO_TCP then is_tcp_connection_open d ip
                           else Some False);
              let (report, s) = (if tcp_open then (True, s)
                                 else if protocol = IPPROTO_UDP then udp_first_sight K flow_key s
                                 else (False, s));
              let s = (if report then
                         let s = metric_add METRIC_FLOWS_ALLOWED 1 s
                         in emit_flow_event K now_ns saddr daddr src_port dst_port protocol
                              FLOW_VERDICT_ALLOW src_id dst_id packet_bytes s
                       else s);
              Some (TC_ACT_OK, s)
            }
            else if pv_action verdict = FLOW_VERDICT_DENY then do {
              let s = denied_flow_upsert K flow_key DROP_REASON_POLICY_DENY now_ns s;
              let s = metric_add METRIC_FLOWS_DENIED 1 s;
              let s = emit_flow_event K now_ns saddr daddr src_port dst_port protocol
                        FLOW_VERDICT_DENY src_id dst_id packet_bytes s;
              Some (deny_action, s)
            }
            else if pv_action verdict = FLOW_VERDICT_REDIRECT then do {
              let s = s\<lparr>skb := (skb s)
                          \<lparr>mark := mark (skb s) OR MERIDIAN_MARK_REDIRECT_PLACEHOLDER\<rparr>\<rparr>;
              let s = metric_add METRIC_FLOWS_REDIRECTED 1 s;
              let s = emit_flow_event K now_ns saddr daddr src_port dst_port protocol
                        FLOW_VERDICT_REDIRECT src_id dst_id packet_bytes s;
              Some (TC_ACT_OK, s)
            }
            else do {
              let s = denied_flow_upsert K flow_key DROP_REASON_INVALID_ACTION now_ns s;
              let s = metric_add METRIC_FLOWS_DENIED 1 s;
              let s = emit_flow_event K now_ns saddr daddr src_port dst_port protocol
                        FLOW_VERDICT_DENY src_id dst_id packet_bytes s;
              Some (TC_ACT_SHOT, s)
            })
     }
   }"

section \<open>Removing the identity option\<close>

text \<open>
  The copy loop moves one byte per iteration; its first counter is the number of iterations left
  of \<open>MERIDIAN_STRIP_MAX_LEN\<close>, its second the C variable \<open>i\<close>.
\<close>

fun strip_shift ::
  "'w kernel \<Rightarrow> u32 \<Rightarrow> u32 \<Rightarrow> nat \<Rightarrow> u32 \<Rightarrow> 'w dp \<Rightarrow> int \<times> 'w dp" where
  "strip_shift K inner_base_off inner_len 0 i s = (0, s)"
| "strip_shift K inner_base_off inner_len (Suc n) i s =
     (if i \<ge> inner_len then (0, s)
      else
        let (rc, b, s) = bpf_skb_load_bytes K (inner_base_off + i) 1 s
        in if rc \<noteq> 0 then (1, s)
           else
             let (rc, s) = bpf_skb_store_bytes K
                   (inner_base_off - of_nat MERIDIAN_GENEVE_OPT_BYTES + i) b 0 s
             in if rc \<noteq> 0 then (1, s)
                else strip_shift K inner_base_off inner_len n (i + 1) s)"

text \<open>One length field is read, reduced by the option size in 16-bit arithmetic, and written.\<close>

definition strip_meridian_tlv ::
  "'w kernel \<Rightarrow> u32 \<Rightarrow> u32 \<Rightarrow> u32 \<Rightarrow> u32 \<Rightarrow> 'w dp \<Rightarrow> int \<times> 'w dp" where
  "strip_meridian_tlv K inner_base_off outer_ip_off udp_off geneve_off s =
     (let (rc, s) = bpf_skb_pull_data K (skb_len (skb s)) s
      in if rc \<noteq> 0 then (1, s)
      else if inner_base_off < of_nat MERIDIAN_GENEVE_OPT_BYTES then (1, s)
      else if inner_base_off > skb_len (skb s) then (1, s)
      else
        let inner_len = skb_len (skb s) - inner_base_off
        in if inner_len > of_nat MERIDIAN_STRIP_MAX_LEN then (1, s)
        else
          let (rc, s) = strip_shift K inner_base_off inner_len MERIDIAN_STRIP_MAX_LEN 0 s
          in if rc \<noteq> 0 then (1, s)
          else
            let (rc, geneve0, s) = bpf_skb_load_bytes K geneve_off 1 s
            in if rc \<noteq> 0 then (1, s)
            else
              let (rc, s) = bpf_skb_store_bytes K geneve_off [geneve0 ! 0 AND 0xc0] 0 s
              in if rc \<noteq> 0 then (1, s)
              else
                let (rc, len_be, s) = bpf_skb_load_bytes K (outer_ip_off + 2) 2 s
                in if rc \<noteq> 0 then (1, s)
                else
                  let len_be = bpf_htons (bpf_ntohs (w16 len_be 0) - of_nat MERIDIAN_GENEVE_OPT_BYTES);
                      (rc, s) = bpf_skb_store_bytes K (outer_ip_off + 2) (bytes16 len_be)
                                  BPF_F_RECOMPUTE_CSUM s
                  in if rc \<noteq> 0 then (1, s)
                  else
                    let (rc, len_be, s) = bpf_skb_load_bytes K (udp_off + 4) 2 s
                    in if rc \<noteq> 0 then (1, s)
                    else
                      let len_be = bpf_htons (bpf_ntohs (w16 len_be 0) -
                                     of_nat MERIDIAN_GENEVE_OPT_BYTES);
                          (rc, s) = bpf_skb_store_bytes K (udp_off + 4) (bytes16 len_be) 0 s
                      in if rc \<noteq> 0 then (1, s) else (0, s))"

section \<open>The program\<close>

definition is_geneve_udp_outer :: "byte list \<Rightarrow> nat \<Rightarrow> bool option" where
  "is_geneve_udp_outer d outer_ip = do {
     protocol \<leftarrow> ip_protocol d outer_ip;
     if protocol \<noteq> IPPROTO_UDP then Some False
     else do {
       ihl \<leftarrow> ip_ihl d outer_ip;
       let udp = outer_ip + ihl * IPV4_WORD_BYTES;
       if udp + sizeof_udphdr > length d then Some False
       else do {
         dest \<leftarrow> udp_dest d udp;
         Some (dest = bpf_htons MERIDIAN_GENEVE_UDP_PORT)
       }
     }
   }"

text \<open>
  The offsets \<open>(outer_ip_off, udp_off, geneve_off, inner_base_off)\<close> of a Geneve frame. The byte
  that the load leaves in \<open>gnv_byte\<close> is \<open>0\<close> if the load fails.
\<close>

definition geneve_strip_offsets ::
  "'w kernel \<Rightarrow> nat \<Rightarrow> nat \<Rightarrow> 'w dp \<Rightarrow> (u32 \<times> u32 \<times> u32 \<times> u32) \<times> 'w dp" where
  "geneve_strip_offsets K outer_ip ihl s =
     (let outer_ip_off = of_nat outer_ip;
          udp_off = outer_ip_off + of_nat (ihl * IPV4_WORD_BYTES);
          geneve_off = udp_off + 8;
          (rc, bs, s) = bpf_skb_load_bytes K geneve_off 1 s;
          gnv_byte = (if rc = 0 then bs ! 0 else 0);
          inner_base_off = geneve_off + 8 + ucast (gnv_byte AND 0x3f) * 4
      in ((outer_ip_off, udp_off, geneve_off, inner_base_off), s))"

text \<open>From the port parse to the end of the program.\<close>

definition ingress_decide ::
  "'w kernel \<Rightarrow> byte list \<Rightarrow> nat \<Rightarrow> u32 \<Rightarrow> u64 \<Rightarrow> bool \<Rightarrow> u32 \<Rightarrow> bool \<Rightarrow>
   u32 \<times> u32 \<times> u32 \<times> u32 \<Rightarrow> 'w dp \<Rightarrow> (int \<times> 'w dp) option" where
  "ingress_decide K d ip packet_bytes now_ns is_geneve geneve_src_id geneve_tlv_found offs s = do {
     let (outer_ip_off, udp_off, geneve_off, inner_base_off) = offs;
     ports \<leftarrow> parse_l4_ports d ip 0 0;
     (case ports of
        None \<Rightarrow> Some (TC_ACT_OK, s)
      | Some (src_port, dst_port) \<Rightarrow> do {
          saddr \<leftarrow> ip_saddr d ip;
          daddr \<leftarrow> ip_daddr d ip;
          protocol \<leftarrow> ip_protocol d ip;
          let mapped_src = identity_map s saddr;
          let mapped_dst = identity_map s daddr;
          let (src_id, s) =
            (if is_geneve \<and> geneve_tlv_found then (geneve_src_id, s)
             else if mapped_src \<noteq> None \<and> the mapped_src \<noteq> 0 then (the mapped_src, s)
             else if is_geneve \<and> \<not> geneve_tlv_found
             then (0, metric_add METRIC_GENEVE_DECODE_FAIL 1 s)
             else (0, s));
          let dst_id = (if mapped_dst \<noteq> None \<and> the mapped_dst \<noteq> 0 then the mapped_dst else 0);
          passthrough \<leftarrow>
            (if is_geneve \<and> protocol = IPPROTO_TCP \<and> src_id \<noteq> 0
             then map_option Not (is_geneve_tcp_client_syn d ip) else Some False);
          if passthrough then
            Some (TC_ACT_OK,
                  if geneve_tlv_found
                  then snd (strip_meridian_tlv K inner_base_off outer_ip_off udp_off geneve_off s)
                  else s)
          else do {
            (verdict, s) \<leftarrow> enforce_flow K d ip packet_bytes now_ns src_port dst_port src_id dst_id
                              (if is_geneve then TC_ACT_STOLEN else TC_ACT_SHOT) s;
            Some (verdict,
                  if is_geneve \<and> geneve_tlv_found \<and> verdict = TC_ACT_OK
                  then snd (strip_meridian_tlv K inner_base_off outer_ip_off udp_off geneve_off s)
                  else s)
          }
        })
   }"

text \<open>From the outer IPv4 header to the port parse.\<close>

definition ingress_ipv4 ::
  "'w kernel \<Rightarrow> byte list \<Rightarrow> nat \<Rightarrow> u32 \<Rightarrow> u64 \<Rightarrow> 'w dp \<Rightarrow> (int \<times> 'w dp) option" where
  "ingress_ipv4 K d outer_ip packet_bytes now_ns s = do {
     ihl \<leftarrow> ip_ihl d outer_ip;
     if ihl < IPV4_IHL_MIN \<or> ihl > IPV4_IHL_MAX then Some (TC_ACT_OK, s)
     else do {
       g \<leftarrow> try_parse_geneve_inner d outer_ip;
       (case g of
          None \<Rightarrow> do {
            undecodable \<leftarrow> is_geneve_udp_outer d outer_ip;
            if undecodable then Some (TC_ACT_OK, s)
            else ingress_decide K d outer_ip packet_bytes now_ns False 0 False (0, 0, 0, 0) s
          }
        | Some (inner_ip, geneve_src_id, geneve_tlv_found) \<Rightarrow> do {
            let (offs, s) = geneve_strip_offsets K outer_ip ihl s;
            ingress_decide K d inner_ip packet_bytes now_ns True geneve_src_id geneve_tlv_found
              offs s
          })
     }
   }"

definition meridian_tc_ingress :: "'w kernel \<Rightarrow> 'w dp \<Rightarrow> (int \<times> 'w dp) option" where
  "meridian_tc_ingress K s = do {
     let packet_bytes = skb_len (skb s);
     let (now_ns, s) = bpf_ktime_get_ns K s;
     let s = metric_add METRIC_PACKETS_TOTAL 1 s;
     let s = metric_add METRIC_BYTES_TOTAL (ucast packet_bytes) s;
     let (rc, s) = bpf_skb_pull_data K (skb_len (skb s)) s;
     if rc \<noteq> 0 then Some (TC_ACT_OK, s)
     else do {
       let d = skb_data (skb s);
       r \<leftarrow> parse_ipv4_after_eth d 0;
       (case r of
          None \<Rightarrow> Some (TC_ACT_OK, s)
        | Some ip \<Rightarrow> ingress_ipv4 K d ip packet_bytes now_ns s)
     }
   }"

section \<open>The accounting functions are an instance of the interface\<close>

lemma metric_add_frame [simp]:
  "world (metric_add i x s) = world s" "cpu (metric_add i x s) = cpu s"
  "skb (metric_add i x s) = skb s" "identity_map (metric_add i x s) = identity_map s"
  "policy_map (metric_add i x s) = policy_map s"
  "runtime_config_map (metric_add i x s) = runtime_config_map s"
  "flow_events (metric_add i x s) = flow_events s"
  "denied_flows_map (metric_add i x s) = denied_flows_map s"
  "udp_seen_flows_map (metric_add i x s) = udp_seen_flows_map s"
  "sockhash (metric_add i x s) = sockhash s"
  "schema_sentinel_map (metric_add i x s) = schema_sentinel_map s"
  "length (metrics_map (metric_add i x s) c) = length (metrics_map s c)"
  by (simp_all add: metric_add_def split: option.splits)

lemma metric_metric_add:
  "metric (metric_add i x s) j =
     (if j = i \<and> unat i < length (metrics_map s (cpu s)) then metric s i + x else metric s j)"
  by (auto simp: metric_def metric_add_def array_lookup_def nth_list_update word_unat_eq_iff
      split: option.splits)

lemma emit_flow_event_cases:
  "emit_flow_event K ts a b c d e f g h n s =
     (let (r, w) = k_ringbuf_reserve K (world s) (flow_events s) 56
      in if r = None then metric_add METRIC_RINGBUF_DROPPED 1 (s\<lparr>world := w\<rparr>)
         else s\<lparr>world := w, flow_events := flow_events s @ [decision_event ts a b c d e f g h n]\<rparr>)"
  by (auto simp: emit_flow_event_def map_helper_defs decision_event_def split: prod.splits)

lemma denied_flow_upsert_eq:
  "denied_flow_upsert K key reason now s =
     (let (rc, m, w) = k_denied_update K (world s) (denied_flows_map s) key
            (next_deny_info (denied_flows_map s key) reason now)
      in s\<lparr>denied_flows_map := m, world := w\<rparr>)"
  by (auto simp: denied_flow_upsert_def denied_flows_update_def next_deny_info_def Let_def
      split: option.splits prod.splits)

lemma metric_upd [simp]:
  "metric (s\<lparr>world := w\<rparr>) = metric s" "metric (s\<lparr>flow_events := evs\<rparr>) = metric s"
  "metric (s\<lparr>skb := b\<rparr>) = metric s" "metric (s\<lparr>denied_flows_map := m\<rparr>) = metric s"
  "metric (s\<lparr>udp_seen_flows_map := q\<rparr>) = metric s"
  by (simp_all add: metric_def fun_eq_iff)

interpretation tcin: telemetry metric_add emit_flow_event denied_flow_upsert
proof unfold_locales
  fix i :: u32 and s :: "'w dp" and x
  assume "metrics_ok s" "i < 16"
  then have "unat i < 16" by (simp add: word_less_nat_alt)
  then show "metric (metric_add i x s) i = metric s i + x"
    using \<open>metrics_ok s\<close> by (simp add: metric_metric_add metrics_ok_def)
next
  fix s t :: "'w dp" and K ts a b c d e f g h n
  assume "metrics_ok s" and t: "t = emit_flow_event K ts a b c d e f g h n s"
  then have "length (metrics_map s (cpu s)) = 16" by (simp add: metrics_ok_def)
  then show "event_offered (decision_event ts a b c d e f g h n) s t \<and>
      (\<forall>j. j \<noteq> METRIC_RINGBUF_DROPPED \<longrightarrow> metric t j = metric s j)"
    by (auto simp: t emit_flow_event_cases event_offered_def metric_metric_add split: prod.splits)
qed (auto simp: enforcement_view_def metrics_ok_def emit_flow_event_cases denied_flow_upsert_eq
      metric_metric_add split: prod.splits)

section \<open>Every parser is total\<close>

definition l4_ports :: "byte list \<Rightarrow> nat \<Rightarrow> (u16 \<times> u16) option" where
  "l4_ports d ip =
     (let l4 = ip + ihl_at d ip * 4
      in if d ! (ip + 9) = 6 \<or> d ! (ip + 9) = 17
         then if l4 + 4 \<le> length d then Some (w16 d l4, w16 d (l4 + 2)) else None
         else Some (0, 0))"

lemma parse_l4_ports_eq [simp]:
  "ipv4_at d ip \<Longrightarrow> parse_l4_ports d ip 0 0 = Some (l4_ports d ip)"
  using ipv4_at_ihl [of d ip]
  by (auto simp: parse_l4_ports_def l4_ports_def ipv4_at_loads load_simps Let_def)

definition tcp_open_at :: "byte list \<Rightarrow> nat \<Rightarrow> bool" where
  "tcp_open_at d ip \<longleftrightarrow>
     (let l4 = ip + ihl_at d ip * 4
      in l4 + 14 \<le> length d \<and> d ! (l4 + 13) AND 2 \<noteq> 0 \<and> d ! (l4 + 13) AND 16 = 0)"

lemma is_tcp_connection_open_eq [simp]:
  "ipv4_at d ip \<Longrightarrow> is_tcp_connection_open d ip = Some (tcp_open_at d ip)"
  using ipv4_at_ihl [of d ip]
  by (auto simp: is_tcp_connection_open_def tcp_open_at_def ipv4_at_loads load_simps Let_def)

lemma is_geneve_tcp_client_syn_eq [simp]:
  "ipv4_at d ip \<Longrightarrow> is_geneve_tcp_client_syn d ip = Some (tcp_open_at d ip)"
  by (simp add: is_geneve_tcp_client_syn_def)

lemma geneve_identity_walk_total: "\<exists>r. geneve_identity_walk d opts n i off = Some r"
  by (induction d opts n i off rule: geneve_identity_walk.induct)
     (auto simp: Let_def load_simps)

lemma parse_geneve_identity_total: "\<exists>r. parse_geneve_identity d opts n = Some r"
  by (simp add: parse_geneve_identity_def geneve_identity_walk_total)

lemma is_geneve_udp_outer_eq:
  "ipv4_at d ip \<Longrightarrow> is_geneve_udp_outer d ip =
     Some (d ! (ip + 9) = 17 \<and> ip + ihl_at d ip * 4 + 8 \<le> length d \<and>
           w16 d (ip + ihl_at d ip * 4 + 2) = bpf_htons 6081)"
  by (auto simp: is_geneve_udp_outer_def ipv4_at_loads udp_dest_def load_simps Let_def)

end
