(* ===== verification/Ingress_Enforcement.thy ===== *)
theory Ingress_Enforcement
  imports Tc_Ingress
begin

text \<open>
  What \<open>enforce_flow\<close> of \<^verbatim>\<open>tc_ingress.c\<close> decides and records. \<open>decide\<close> is the abstract
  policy decision (posture, exact-match lookup, default deny, fail-closed dispatch) on the maps
  alone; \<open>enforced\<close> says which trace each decision leaves. The refinement lemma shows that the
  code makes exactly this decision and leaves exactly this trace, whatever the kernel does with
  the ring and the LRU maps.
\<close>

section \<open>The abstract decision\<close>

datatype decision =
    Pass_Unknown
  | Deny u32
  | Allow
  | Redirect

definition decide ::
  "bool \<Rightarrow> (policy_key \<rightharpoonup> policy_verdict) \<Rightarrow> u32 \<Rightarrow> u32 \<Rightarrow> u16 \<Rightarrow> u8 \<Rightarrow> decision" where
  "decide failopen policies src_id dst_id port proto =
     (if src_id = 0 \<or> dst_id = 0
      then if failopen then Pass_Unknown else Deny DROP_REASON_UNKNOWN_IDENTITY
      else case policies (ingress_key src_id dst_id port proto) of
             None \<Rightarrow> Deny DROP_REASON_POLICY_MISS
           | Some v \<Rightarrow>
               if pv_action v = FLOW_VERDICT_ALLOW then Allow
               else if pv_action v = FLOW_VERDICT_DENY then Deny DROP_REASON_POLICY_DENY
               else if pv_action v = FLOW_VERDICT_REDIRECT then Redirect
               else Deny DROP_REASON_INVALID_ACTION)"

definition action_of :: "int \<Rightarrow> decision \<Rightarrow> int" where
  "action_of deny_action dec =
     (case dec of
        Pass_Unknown \<Rightarrow> TC_ACT_OK
      | Deny r \<Rightarrow> if r = DROP_REASON_POLICY_DENY then deny_action else TC_ACT_SHOT
      | Allow \<Rightarrow> TC_ACT_OK
      | Redirect \<Rightarrow> TC_ACT_OK)"

section \<open>The trace of a decision\<close>

definition packet_event ::
  "byte list \<Rightarrow> nat \<Rightarrow> u64 \<Rightarrow> u16 \<Rightarrow> u16 \<Rightarrow> u8 \<Rightarrow> u32 \<Rightarrow> u32 \<Rightarrow> u32 \<Rightarrow> flow_event" where
  "packet_event d ip now src_port dst_port v src_id dst_id n =
     decision_event now (w32 d (ip + 12)) (w32 d (ip + 16)) src_port dst_port (d ! (ip + 9)) v
       src_id dst_id n"

text \<open>
  An allowed flow is reported at its decision point only: a TCP connection open, or a UDP flow
  key that the seen-flows map does not hold.
\<close>

definition decision_point :: "byte list \<Rightarrow> nat \<Rightarrow> flow_key \<Rightarrow> 'w dp \<Rightarrow> bool" where
  "decision_point d ip key s \<longleftrightarrow>
     d ! (ip + 9) = IPPROTO_TCP \<and> tcp_open_at d ip \<or>
     d ! (ip + 9) = IPPROTO_UDP \<and> udp_seen_flows_map s key = None"

definition same_but_seen :: "'w dp \<Rightarrow> 'w dp \<Rightarrow> bool" where
  "same_but_seen s t \<longleftrightarrow>
     skb t = skb s \<and> config_of t = config_of s \<and> sockhash t = sockhash s \<and> cpu t = cpu s \<and>
     denied_flows_map t = denied_flows_map s"

definition enforced ::
  "'w kernel \<Rightarrow> byte list \<Rightarrow> nat \<Rightarrow> u32 \<Rightarrow> u64 \<Rightarrow> u16 \<Rightarrow> u16 \<Rightarrow> u32 \<Rightarrow> u32 \<Rightarrow> decision \<Rightarrow>
   'w dp \<Rightarrow> 'w dp \<Rightarrow> bool" where
  "enforced K d ip n now src_port dst_port src_id dst_id dec s t \<longleftrightarrow>
     (let key = packet_flow_key d ip src_port dst_port;
          ev = (\<lambda>v. packet_event d ip now src_port dst_port v src_id dst_id n)
      in case dec of
           Pass_Unknown \<Rightarrow> t = s
         | Deny r \<Rightarrow> deny_recorded K key r now (ev FLOW_VERDICT_DENY) s t
         | Allow \<Rightarrow>
             same_but_seen s t \<and>
             (if decision_point d ip key s
              then event_offered (ev FLOW_VERDICT_ALLOW) s t \<and>
                   metric t METRIC_FLOWS_ALLOWED = metric s METRIC_FLOWS_ALLOWED + 1
              else t = s)
         | Redirect \<Rightarrow>
             event_offered (ev FLOW_VERDICT_REDIRECT) s t \<and>
             metric t METRIC_FLOWS_REDIRECTED = metric s METRIC_FLOWS_REDIRECTED + 1 \<and>
             skb t = (skb s)\<lparr>mark := mark (skb s) OR MERIDIAN_MARK_REDIRECT_PLACEHOLDER\<rparr> \<and>
             config_of t = config_of s \<and> sockhash t = sockhash s \<and>
             denied_flows_map t = denied_flows_map s)"

section \<open>The code implements the decision\<close>

lemma udp_first_sight_eq:
  "udp_first_sight K key s =
     (udp_seen_flows_map s key = None,
      if udp_seen_flows_map s key = None
      then (let (rc, m, w) = k_seen_update K (world s) (udp_seen_flows_map s) key 1
            in s\<lparr>udp_seen_flows_map := m, world := w\<rparr>)
      else s)"
  by (auto simp: udp_first_sight_def udp_seen_flows_update_def split: option.splits prod.splits)

lemma metrics_ok_upd [simp]:
  "metrics_ok (s\<lparr>skb := b\<rparr>) = metrics_ok s" "metrics_ok (s\<lparr>world := w\<rparr>) = metrics_ok s"
  "metrics_ok (s\<lparr>udp_seen_flows_map := q\<rparr>) = metrics_ok s"
  by (simp_all add: metrics_ok_def)

lemma allow_reported:
  assumes "metrics_ok s"
    and u: "flow_events u = flow_events s" "metric u = metric s" "same_but_seen s u" "metrics_ok u"
  shows "same_but_seen s (emit_flow_event K ts a b c d e f g h n
           (metric_add METRIC_FLOWS_ALLOWED 1 u)) \<and>
    event_offered (decision_event ts a b c d e f g h n) s (emit_flow_event K ts a b c d e f g h n
           (metric_add METRIC_FLOWS_ALLOWED 1 u)) \<and>
    metric (emit_flow_event K ts a b c d e f g h n
           (metric_add METRIC_FLOWS_ALLOWED 1 u)) METRIC_FLOWS_ALLOWED =
      metric s METRIC_FLOWS_ALLOWED + 1"
proof -
  let ?t = "emit_flow_event K ts a b c d e f g h n (metric_add METRIC_FLOWS_ALLOWED 1 u)"
  have lt: "METRIC_FLOWS_ALLOWED < 16" "METRIC_FLOWS_ALLOWED \<noteq> METRIC_RINGBUF_DROPPED" by simp_all
  note seq = tcin.count_sequence [OF u(4) lt refl, where K = K and ts = ts and a = a and b = b
      and c = c and d = d and e = e and f = f and g = g and h = h and n = n]
  have "event_offered (decision_event ts a b c d e f g h n) s ?t"
    using seq(1) u(1,2) by (simp only: event_offered_def)
  moreover have "metric ?t METRIC_FLOWS_ALLOWED = metric s METRIC_FLOWS_ALLOWED + 1"
    using seq(2) u(2) by (simp only:)
  moreover have "same_but_seen s ?t"
    using seq(4) u(3) enforcement_viewD [OF seq(3)] by (simp only: same_but_seen_def simp_thms)
  ultimately show ?thesis by blast
qed

text \<open>Inversion of a decision: which condition of the code led to it.\<close>

lemma decide_DenyE:
  assumes "decide fo P src_id dst_id port proto = Deny r"
  obtains (unknown) "src_id = 0 \<or> dst_id = 0" "\<not> fo" "r = DROP_REASON_UNKNOWN_IDENTITY"
  | (miss) "src_id \<noteq> 0" "dst_id \<noteq> 0" "P (ingress_key src_id dst_id port proto) = None"
      "r = DROP_REASON_POLICY_MISS"
  | (deny) v where "src_id \<noteq> 0" "dst_id \<noteq> 0" "P (ingress_key src_id dst_id port proto) = Some v"
      "pv_action v = 1" "r = DROP_REASON_POLICY_DENY"
  | (invalid) v where "src_id \<noteq> 0" "dst_id \<noteq> 0"
      "P (ingress_key src_id dst_id port proto) = Some v"
      "pv_action v \<noteq> 0" "pv_action v \<noteq> 1" "pv_action v \<noteq> 2" "r = DROP_REASON_INVALID_ACTION"
  using assms by (auto simp: decide_def split: if_splits option.splits)

lemma decide_AllowE:
  assumes "decide fo P src_id dst_id port proto = Allow"
  obtains v where "src_id \<noteq> 0" "dst_id \<noteq> 0" "P (ingress_key src_id dst_id port proto) = Some v"
    "pv_action v = 0"
  using assms by (auto simp: decide_def split: if_splits option.splits)

lemma decide_RedirectE:
  assumes "decide fo P src_id dst_id port proto = Redirect"
  obtains v where "src_id \<noteq> 0" "dst_id \<noteq> 0" "P (ingress_key src_id dst_id port proto) = Some v"
    "pv_action v = 2"
  using assms by (auto simp: decide_def split: if_splits option.splits)

text \<open>The state each decision leads to, as the code computes it.\<close>

definition enforce_result ::
  "'w kernel \<Rightarrow> byte list \<Rightarrow> nat \<Rightarrow> u32 \<Rightarrow> u64 \<Rightarrow> u16 \<Rightarrow> u16 \<Rightarrow> u32 \<Rightarrow> u32 \<Rightarrow> decision \<Rightarrow>
   'w dp \<Rightarrow> 'w dp" where
  "enforce_result K d ip n now sp dp src_id dst_id dec s =
     (let key = packet_flow_key d ip sp dp;
          emit = (\<lambda>v. emit_flow_event K now (w32 d (ip + 12)) (w32 d (ip + 16)) sp dp
                    (d ! (ip + 9)) v src_id dst_id n)
      in case dec of
           Pass_Unknown \<Rightarrow> s
         | Deny r \<Rightarrow>
             emit FLOW_VERDICT_DENY
               (metric_add METRIC_FLOWS_DENIED 1 (denied_flow_upsert K key r now s))
         | Allow \<Rightarrow>
             if decision_point d ip key s
             then emit FLOW_VERDICT_ALLOW (metric_add METRIC_FLOWS_ALLOWED 1
                    (if d ! (ip + 9) = IPPROTO_UDP then snd (udp_first_sight K key s) else s))
             else s
         | Redirect \<Rightarrow>
             emit FLOW_VERDICT_REDIRECT (metric_add METRIC_FLOWS_REDIRECTED 1
               (s\<lparr>skb := (skb s)\<lparr>mark := mark (skb s) OR MERIDIAN_MARK_REDIRECT_PLACEHOLDER\<rparr>\<rparr>)))"

lemma enforce_flow_eq:
  assumes ip: "ipv4_at d ip"
    and dec: "dec = decide (failopen_unknown_enabled s) (policy_map s) src_id dst_id (bpf_ntohs dp)
      (d ! (ip + 9))"
  shows "enforce_flow K d ip n now sp dp src_id dst_id da s =
    Some (action_of da dec, enforce_result K d ip n now sp dp src_id dst_id dec s)"
proof (cases dec)
  case Pass_Unknown
  then have "(src_id = 0 \<or> dst_id = 0) \<and> failopen_unknown_enabled s"
    using dec by (auto simp: decide_def split: if_splits option.splits)
  then show ?thesis using Pass_Unknown
    by (simp add: enforce_flow_def ipv4_at_loads [OF ip] action_of_def enforce_result_def Let_def)
next
  case (Deny r)
  with dec have "decide (failopen_unknown_enabled s) (policy_map s) src_id dst_id (bpf_ntohs dp)
    (d ! (ip + 9)) = Deny r" by simp
  then show ?thesis using Deny
    by (cases rule: decide_DenyE)
       (simp_all add: enforce_flow_def ipv4_at_loads [OF ip] ingress_key_def action_of_def
          packet_flow_key_def enforce_result_def Let_def)
next
  case Allow
  with dec have "decide (failopen_unknown_enabled s) (policy_map s) src_id dst_id (bpf_ntohs dp)
    (d ! (ip + 9)) = Allow" by simp
  then show ?thesis using Allow
    by (cases rule: decide_AllowE)
       (simp add: enforce_flow_def ipv4_at_loads [OF ip] ingress_key_def packet_flow_key_def
          is_tcp_connection_open_eq [OF ip] decision_point_def udp_first_sight_eq action_of_def
          enforce_result_def Let_def)
next
  case Redirect
  with dec have "decide (failopen_unknown_enabled s) (policy_map s) src_id dst_id (bpf_ntohs dp)
    (d ! (ip + 9)) = Redirect" by simp
  then show ?thesis using Redirect
    by (cases rule: decide_RedirectE)
       (simp add: enforce_flow_def ipv4_at_loads [OF ip] ingress_key_def action_of_def
          enforce_result_def Let_def)
qed

lemma enforced_result:
  assumes "metrics_ok s"
  shows "enforced K d ip n now sp dp src_id dst_id dec s
    (enforce_result K d ip n now sp dp src_id dst_id dec s)"
proof (cases dec)
  case Pass_Unknown
  then show ?thesis by (simp add: enforced_def enforce_result_def)
next
  case (Deny r)
  then show ?thesis using tcin.deny_sequence [OF assms]
    by (simp add: enforced_def enforce_result_def packet_event_def Let_def)
next
  case Allow
  let ?u = "if d ! (ip + 9) = IPPROTO_UDP
    then snd (udp_first_sight K (packet_flow_key d ip sp dp) s) else s"
  have u: "flow_events ?u = flow_events s" "metric ?u = metric s" "same_but_seen s ?u"
    "metrics_ok ?u"
    using assms by (auto simp: udp_first_sight_eq same_but_seen_def config_of_def split: prod.splits)
  show ?thesis using Allow allow_reported [OF assms u]
    by (simp add: enforced_def enforce_result_def packet_event_def same_but_seen_def Let_def)
next
  case Redirect
  let ?u = "s\<lparr>skb := (skb s)\<lparr>mark := mark (skb s) OR MERIDIAN_MARK_REDIRECT_PLACEHOLDER\<rparr>\<rparr>"
  have u: "metrics_ok ?u" using assms by simp
  have lt: "METRIC_FLOWS_REDIRECTED < 16" "METRIC_FLOWS_REDIRECTED \<noteq> METRIC_RINGBUF_DROPPED"
    by simp_all
  note seq = tcin.count_sequence [OF u lt refl, where K = K and ts = now
      and a = "w32 d (ip + 12)" and b = "w32 d (ip + 16)" and c = sp and d = dp
      and e = "d ! (ip + 9)" and f = FLOW_VERDICT_REDIRECT and g = src_id and h = dst_id
      and n = n]
  show ?thesis using Redirect seq(1,2,4) enforcement_viewD [OF seq(3)]
    by (simp add: enforced_def enforce_result_def packet_event_def event_offered_def
        config_of_def Let_def)
qed

lemma accounting_frame [simp]:
  "config_of (emit_flow_event K ts a b c d e f g h n s) = config_of s"
  "sockhash (emit_flow_event K ts a b c d e f g h n s) = sockhash s"
  "skb (emit_flow_event K ts a b c d e f g h n s) = skb s"
  "cpu (emit_flow_event K ts a b c d e f g h n s) = cpu s"
  "config_of (denied_flow_upsert K key r now s) = config_of s"
  "sockhash (denied_flow_upsert K key r now s) = sockhash s"
  "skb (denied_flow_upsert K key r now s) = skb s"
  "cpu (denied_flow_upsert K key r now s) = cpu s"
  "config_of (metric_add i x s) = config_of s"
  using enforcement_viewD [OF tcin.emit_view, of K ts a b c d e f g h n s]
    enforcement_viewD [OF tcin.upsert_view, of K key r now s]
    enforcement_viewD [OF tcin.add_view, of i x s] by simp_all

lemma udp_first_sight_frame [simp]:
  "config_of (snd (udp_first_sight K key s)) = config_of s"
  "sockhash (snd (udp_first_sight K key s)) = sockhash s"
  "skb (snd (udp_first_sight K key s)) = skb s"
  "cpu (snd (udp_first_sight K key s)) = cpu s"
  by (simp_all add: udp_first_sight_eq config_of_def split: prod.splits)

lemma config_of_skb [simp]: "config_of (s\<lparr>skb := b\<rparr>) = config_of s"
  by (simp add: config_of_def)

lemma enforce_result_frame:
  "config_of (enforce_result K d ip n now sp dp src_id dst_id dec s) = config_of s"
  "sockhash (enforce_result K d ip n now sp dp src_id dst_id dec s) = sockhash s"
  "pkt (skb (enforce_result K d ip n now sp dp src_id dst_id dec s)) = pkt (skb s)"
  "linear (skb (enforce_result K d ip n now sp dp src_id dst_id dec s)) = linear (skb s)"
  "cpu (enforce_result K d ip n now sp dp src_id dst_id dec s) = cpu s"
  by (cases dec; simp add: enforce_result_def Let_def)+

end
