(* ===== verification/Geneve_Options.thy ===== *)
theory Geneve_Options
  imports Tc_Ingress
begin

text \<open>
  A reference reading of a Geneve option area as a list of options, and the proof that the bounded
  pointer walk of \<open>parse_geneve_identity\<close> in \<^verbatim>\<open>tc_ingress.c\<close> returns the body of the first
  Meridian identity option among the first four. The description of a complete Geneve frame that
  the ingress parser accepts is at the end.
\<close>

section \<open>Options as a list\<close>

record geneve_option =
  opt_class :: u16
  opt_type :: u8
  opt_body :: "byte list"

text \<open>At most \<open>n\<close> options from the front of the area; the reading stops at a truncated option.\<close>

fun geneve_options :: "nat \<Rightarrow> byte list \<Rightarrow> geneve_option list" where
  "geneve_options 0 area = []"
| "geneve_options (Suc n) area =
     (let body = 4 * unat (area ! 3 AND 0x1f)
      in if length area < 4 \<or> length area < 4 + body then []
         else \<lparr>opt_class = bpf_ntohs (w16 area 0), opt_type = area ! 2,
               opt_body = slice_of area 4 body\<rparr> # geneve_options n (drop (4 + body) area))"

definition is_identity_option :: "geneve_option \<Rightarrow> bool" where
  "is_identity_option opt \<longleftrightarrow>
     opt_class opt = MERIDIAN_GENEVE_CLASS \<and> opt_type opt = MERIDIAN_OPT_IDENTITY \<and>
     length (opt_body opt) = 4"

text \<open>The identity that the first identity option carries, in network order.\<close>

definition identity_in :: "geneve_option list \<Rightarrow> u32 option" where
  "identity_in opts = map_option (\<lambda>opt. bpf_ntohl (w32 (opt_body opt) 0)) (find is_identity_option opts)"

section \<open>The walk reads the same options\<close>

lemma class_eq: "(w = bpf_htons c) = (bpf_ntohs w = c)"
  by (metis bpf_htons_htons)

text \<open>A complete option at \<open>off\<close>: both readings look at it and move on by its size.\<close>

lemma walk_step:
  assumes "opts + n \<le> length d" and W: "W = unat (d ! (opts + off + 3) AND 0x1f)"
    and "off + 4 + W * 4 \<le> n"
  shows "geneve_identity_walk d opts n (Suc i) off =
    (if w16 d (opts + off) = bpf_htons MERIDIAN_GENEVE_CLASS \<and> d ! (opts + off + 2) = 1 \<and> W = 1
     then Some (Some (bpf_ntohl (w32 d (opts + off + 4))))
     else geneve_identity_walk d opts n i (off + (4 + W * 4)))"
proof -
  have "off < n" "opts + off + 4 \<le> length d" "W = 1 \<Longrightarrow> opts + off + 8 \<le> length d"
    using assms by simp_all
  then show ?thesis using assms(3) by (auto simp: load_simps Let_def W [symmetric])
qed

lemma walk_stop:
  assumes "opts + n \<le> length d"
    and "n < off + (4 + unat (d ! (opts + off + 3) AND 0x1f) * 4)"
  shows "geneve_identity_walk d opts n (Suc i) off = Some None"
proof (cases "opts + off + 4 \<le> length d")
  case True
  then show ?thesis using assms(2) by (simp add: load_simps Let_def)
qed (simp add: Let_def)

lemma options_step:
  assumes "W = unat (area ! 3 AND 0x1f)" and "4 + W * 4 \<le> length area"
  shows "identity_in (geneve_options (Suc i) area) =
    (if bpf_ntohs (w16 area 0) = MERIDIAN_GENEVE_CLASS \<and> area ! 2 = 1 \<and> W = 1
     then Some (bpf_ntohl (w32 (slice_of area 4 4) 0))
     else identity_in (geneve_options i (drop (4 + W * 4) area)))"
  using assms(2)
  by (simp add: assms(1) [symmetric] identity_in_def is_identity_option_def Let_def mult.commute)

lemma geneve_identity_walk_eq:
  assumes d: "opts + n \<le> length d"
  shows "off \<le> n \<Longrightarrow> geneve_identity_walk d opts n i off =
    Some (identity_in (geneve_options i (drop off (take n (drop opts d)))))"
proof (induction i arbitrary: off)
  case 0
  then show ?case by (simp add: identity_in_def)
next
  case (Suc i)
  let ?area = "drop off (take n (drop opts d))"
  define W where "W = unat (d ! (opts + off + 3) AND 0x1f)"
  have len: "length ?area = n - off" using d by simp
  show ?case
  proof (cases "off + 4 + W * 4 \<le> n")
    case True
    have nth: "?area ! 3 = d ! (opts + off + 3)" "?area ! 2 = d ! (opts + off + 2)"
      "w16 ?area 0 = w16 d (opts + off)"
      using d True by (simp_all add: w16_def add.assoc)
    have body: "W = 1 \<Longrightarrow> w32 (slice_of ?area 4 4) 0 = w32 d (opts + off + 4)"
      using d True by (simp add: slice_of_def w32_def ac_simps)
    have rest: "drop (4 + W * 4) ?area = drop (off + (4 + W * 4)) (take n (drop opts d))"
      by (simp add: ac_simps)
    have "identity_in (geneve_options (Suc i) ?area) =
      (if bpf_ntohs (w16 ?area 0) = MERIDIAN_GENEVE_CLASS \<and> ?area ! 2 = 1 \<and> W = 1
       then Some (bpf_ntohl (w32 (slice_of ?area 4 4) 0))
       else identity_in (geneve_options i (drop (4 + W * 4) ?area)))"
    proof (rule options_step)
      show "W = unat (?area ! 3 AND 0x1f)" by (simp only: nth W_def)
      show "4 + W * 4 \<le> length ?area" using True len by simp
    qed
    also have "Some \<dots> = geneve_identity_walk d opts n (Suc i) off"
      unfolding walk_step [OF d W_def True] rest nth class_eq
      using Suc.IH [of "off + (4 + W * 4)"] True body by simp
    finally show ?thesis by simp
  next
    case False
    have "geneve_options (Suc i) ?area = []"
    proof (cases "4 \<le> n - off")
      case True
      then have "?area ! 3 = d ! (opts + off + 3)" using d by (simp add: add.assoc)
      moreover have "n - off < 4 + 4 * W" using False by linarith
      ultimately show ?thesis using len by (simp add: W_def Let_def)
    qed (use len in simp)
    moreover have "geneve_identity_walk d opts n (Suc i) off = Some None"
      using False by (intro walk_stop [OF d]) (simp add: W_def)
    ultimately show ?thesis by (simp only: identity_in_def find.simps option.map)
  qed
qed

lemma parse_geneve_identity_eq:
  "opts + opt_bytes \<le> length d \<Longrightarrow>
     parse_geneve_identity d opts opt_bytes =
     Some (identity_in (geneve_options 4 (slice_of d opts opt_bytes)))"
  using geneve_identity_walk_eq [of opts opt_bytes d 0 4]
  by (simp add: parse_geneve_identity_def slice_of_def)

section \<open>Geneve frames\<close>

text \<open>
  \<open>geneve_off_at\<close> is the offset of the Geneve base header behind the outer IPv4 header at \<open>outer\<close>
  and its UDP header; \<open>geneve_payload_at\<close> is where the option area ends.
\<close>

definition geneve_off_at :: "byte list \<Rightarrow> nat \<Rightarrow> nat" where
  "geneve_off_at d outer = outer + ihl_at d outer * 4 + 8"

definition opt_bytes_at :: "byte list \<Rightarrow> nat \<Rightarrow> nat" where
  "opt_bytes_at d g = unat (d ! g AND 0x3f) * 4"

definition geneve_payload_at :: "byte list \<Rightarrow> nat \<Rightarrow> nat" where
  "geneve_payload_at d outer =
     geneve_off_at d outer + 8 + opt_bytes_at d (geneve_off_at d outer)"

definition geneve_udp :: "byte list \<Rightarrow> nat \<Rightarrow> bool" where
  "geneve_udp d outer \<longleftrightarrow>
     d ! (outer + 9) = 17 \<and> geneve_off_at d outer \<le> length d \<and>
     w16 d (outer + ihl_at d outer * 4 + 2) = bpf_htons 6081"

definition geneve_frame :: "byte list \<Rightarrow> nat \<Rightarrow> bool" where
  "geneve_frame d outer \<longleftrightarrow>
     geneve_udp d outer \<and> geneve_payload_at d outer \<le> length d \<and>
     drop_bit 6 (d ! geneve_off_at d outer) = 0 \<and> opt_bytes_at d (geneve_off_at d outer) \<le> 32"

definition frame_identity :: "byte list \<Rightarrow> nat \<Rightarrow> u32 option" where
  "frame_identity d outer =
     identity_in (geneve_options 4
       (slice_of d (geneve_off_at d outer + 8) (opt_bytes_at d (geneve_off_at d outer))))"

definition geneve_inner :: "byte list \<Rightarrow> nat \<Rightarrow> (nat \<times> u32 \<times> bool) option" where
  "geneve_inner d outer =
     (if geneve_frame d outer
      then map_option (\<lambda>(ip, slot).
             case frame_identity d outer of
               None \<Rightarrow> (ip, 0, False)
             | Some src_id \<Rightarrow> (ip, src_id, True))
           (ipv4_in_payload d (geneve_payload_at d outer))
      else None)"

lemma is_geneve_udp_outer_iff [simp]:
  "ipv4_at d outer \<Longrightarrow> is_geneve_udp_outer d outer = Some (geneve_udp d outer)"
  by (simp add: is_geneve_udp_outer_eq geneve_udp_def geneve_off_at_def)

lemma try_parse_geneve_inner_eq [simp]:
  assumes "ipv4_at d outer"
  shows "try_parse_geneve_inner d outer = Some (geneve_inner d outer)"
proof (cases "geneve_udp d outer \<and> geneve_off_at d outer + 8 \<le> length d")
  case False
  then show ?thesis
    by (auto simp: try_parse_geneve_inner_def ipv4_at_loads [OF assms] geneve_inner_def
        geneve_frame_def geneve_udp_def geneve_off_at_def geneve_payload_at_def udp_dest_def
        load_simps Let_def)
next
  case True
  let ?g = "geneve_off_at d outer"
  have parse: "?g + 8 + opt_bytes_at d ?g \<le> length d \<Longrightarrow>
      parse_geneve_identity d (?g + 8) (opt_bytes_at d ?g) = Some (frame_identity d outer)"
    by (simp add: parse_geneve_identity_eq frame_identity_def)
  have udp: "outer + ihl_at d outer * 4 + 8 = ?g" by (simp add: geneve_off_at_def)
  have dest: "udp_dest d (outer + ihl_at d outer * 4) = Some (bpf_htons 6081)"
    using True by (simp add: udp_dest_def geneve_udp_def geneve_off_at_def load_simps)
  show ?thesis
    using True parse
    by (auto simp: try_parse_geneve_inner_def ipv4_at_loads [OF assms] geneve_inner_def
        geneve_frame_def geneve_udp_def geneve_payload_at_def dest udp opt_bytes_at_def
        load_simps Let_def split: option.splits)
qed

lemma geneve_inner_at: "geneve_inner d outer = Some (ip, i, f) \<Longrightarrow> ipv4_at d ip"
  by (auto simp: geneve_inner_def ipv4_in_payload_at split: if_splits option.splits)

end
