(* ===== verification/Demo_Frames.thy ===== *)
theory Demo_Frames
  imports Meridian_Maps
begin

text \<open>
  Concrete frames and states on which the witnesses evaluate: a TCP SYN from pod 10.0.0.1 to port
  8080 of pod 10.0.0.2, a UDP datagram between the same pods, and a Geneve frame that carries the
  SYN between two nodes. The state maps the pods to the identities 7 and 9.
\<close>

definition demo_eth :: "byte list" where
  "demo_eth = [2, 0, 0, 0, 0, 2, 2, 0, 0, 0, 0, 1, 8, 0]"

definition demo_ip :: "byte \<Rightarrow> byte \<Rightarrow> byte list" where
  "demo_ip proto len = [0x45, 0, 0, len, 0, 1, 0, 0, 64, proto, 0, 0, 10, 0, 0, 1, 10, 0, 0, 2]"

definition demo_tcp :: "byte \<Rightarrow> byte list" where
  "demo_tcp flags = [0x9c, 0x40, 0x1f, 0x90, 0, 0, 0, 1, 0, 0, 0, 0, 0x50, flags, 0xff, 0xff, 0, 0, 0, 0]"

definition demo_udp :: "byte list" where
  "demo_udp = [0x9c, 0x40, 0x1f, 0x90, 0, 8, 0, 0]"

definition tcp_frame :: "byte \<Rightarrow> byte list" where
  "tcp_frame flags = demo_eth @ demo_ip 6 40 @ demo_tcp flags"

definition udp_frame :: "byte list" where
  "udp_frame = demo_eth @ demo_ip 17 28 @ demo_udp"

text \<open>A Geneve frame between two nodes, with the given option area and inner Ethernet frame.\<close>

definition tunnel_frame :: "byte list \<Rightarrow> byte list \<Rightarrow> byte list" where
  "tunnel_frame opts inner =
     (let n = length opts + length inner
      in demo_eth @
         [0x45, 0, 0, of_nat (36 + n), 0, 1, 0, 0, 64, 17, 0, 0, 192, 168, 0, 1, 192, 168, 0, 2] @
         [0xc0, 0, 0x17, 0xc1, 0, of_nat (16 + n), 0, 0] @
         [of_nat (length opts div 4), 0, 0x65, 0x58, 0, 0, 1, 0] @ opts @ inner)"

definition demo_ids :: "u32 \<rightharpoonup> u32" where
  "demo_ids = [0x0100000a \<mapsto> 7, 0x0200000a \<mapsto> 9]"

definition demo_pol :: "byte \<Rightarrow> u8 \<Rightarrow> u8 \<Rightarrow> policy_key \<rightharpoonup> policy_verdict" where
  "demo_pol proto action flags =
     [\<lparr>pk_src_id = 7, pk_dst_id = 9, pk_dst_port = 8080, pk_proto = proto, pk_direction = 0\<rparr> \<mapsto>
      \<lparr>pv_action = action, pv_flags = flags, pv_pad = 0\<rparr>]"

definition demo_dp :: "byte list \<Rightarrow> u32 \<Rightarrow> (policy_key \<rightharpoonup> policy_verdict) \<Rightarrow> u64 dp" where
  "demo_dp frame cfg pol =
     \<lparr>world = 1000, cpu = 0, skb = \<lparr>pkt = frame, linear = 0, mark = 0\<rparr>,
      identity_map = demo_ids, policy_map = pol, runtime_config_map = [cfg],
      metrics_map = (\<lambda>c. replicate 16 0), flow_events = [], denied_flows_map = Map.empty,
      udp_seen_flows_map = Map.empty, sockhash = Map.empty, schema_sentinel_map = [2]\<rparr>"

lemma demo_dp_simps [simp]:
  "world (demo_dp f c p) = 1000" "cpu (demo_dp f c p) = 0" "pkt (skb (demo_dp f c p)) = f"
  "identity_map (demo_dp f c p) = demo_ids" "policy_map (demo_dp f c p) = p"
  "runtime_config_map (demo_dp f c p) = [c]" "flow_events (demo_dp f c p) = []"
  "denied_flows_map (demo_dp f c p) = Map.empty" "udp_seen_flows_map (demo_dp f c p) = Map.empty"
  "sockhash (demo_dp f c p) = Map.empty" "mark (skb (demo_dp f c p)) = 0"
  "config_of (demo_dp f c p) = (demo_ids, p, [c], [2])"
  by (simp_all add: demo_dp_def config_of_def)

lemma demo_frame_lengths [simp]: "length (tcp_frame f) = 54" "length udp_frame = 42"
  "length (tunnel_frame o' i) = 50 + length o' + length i"
  by (simp_all add: tcp_frame_def udp_frame_def demo_eth_def demo_ip_def demo_tcp_def demo_udp_def
      tunnel_frame_def Let_def)

lemma metrics_ok_demo [simp]: "length (metrics_map (demo_dp f c p) i) = 16"
  by (simp add: demo_dp_def)

end
