(* ===== verification/Tc_Interface.thy ===== *)
theory Tc_Interface
  imports Telemetry
begin

text \<open>
  The contract every TC program of the repository keeps, whatever the packet, the maps and the
  kernel do: it returns one of the three actions, it stays inside the packet, and it leaves what
  the agent and the socket layer own alone. \<open>run_packets\<close> feeds a sequence of packets through a
  program, as the hook does.
\<close>

fun run_packets ::
  "('w dp \<Rightarrow> (int \<times> 'w dp) option) \<Rightarrow> sk_buff list \<Rightarrow> 'w dp \<Rightarrow> (int list \<times> 'w dp) option" where
  "run_packets prog [] s = Some ([], s)"
| "run_packets prog (b # bs) s =
     (case prog (s\<lparr>skb := b\<rparr>) of
        None \<Rightarrow> None
      | Some (act, t) \<Rightarrow> map_option (\<lambda>(acts, u). (act # acts, u)) (run_packets prog bs t))"

locale tc_program =
  fixes prog :: "'w kernel \<Rightarrow> 'w dp \<Rightarrow> (int \<times> 'w dp) option"
  assumes returns: "\<exists>act t. prog K s = Some (act, t) \<and> act \<in> {TC_ACT_OK, TC_ACT_SHOT, TC_ACT_STOLEN} \<and>
      config_of t = config_of s \<and> sockhash t = sockhash s"
begin

lemma keeps:
  assumes "prog K s = Some (act, t)"
  shows "config_of t = config_of s" "sockhash t = sockhash s" "act \<in> {TC_ACT_OK, TC_ACT_SHOT, TC_ACT_STOLEN}"
  using assms returns [of K s] by auto

lemma packets_total:
  "\<exists>acts t. run_packets (prog K) bs s = Some (acts, t) \<and> length acts = length bs \<and>
     set acts \<subseteq> {TC_ACT_OK, TC_ACT_SHOT, TC_ACT_STOLEN} \<and>
     config_of t = config_of s \<and> sockhash t = sockhash s"
proof (induction bs arbitrary: s)
  case (Cons b bs)
  obtain act t where t: "prog K (s\<lparr>skb := b\<rparr>) = Some (act, t)"
    using returns by blast
  note keeps [OF t] Cons.IH [of t]
  then show ?case using t by (auto simp: config_of_def)
qed simp

end

end
