(* ===== verification/Ingress_Program.thy ===== *)
theory Ingress_Program
  imports Ingress_Enforcement Geneve_Options Demo_Frames Tc_Interface
begin

text \<open>
  The whole of \<open>meridian_tc_ingress\<close>. \<open>ingress_spec\<close> is the verdict as a function of the frame and
  of the maps the agent writes; the program returns it for every kernel that keeps the contract of
  the packet helpers, so no ring buffer, LRU or per-CPU state can influence a verdict.
\<close>

section \<open>The verdict as a function of frame and configuration\<close>

text \<open>
  A tunnelled TCP segment of an identified sender is only enforced when it opens a connection.
\<close>

definition ingress_flow_action ::
  "bool \<Rightarrow> (u32 \<rightharpoonup> u32) \<Rightarrow> (policy_key \<rightharpoonup> policy_verdict) \<Rightarrow> byte list \<Rightarrow> nat \<Rightarrow>
   bool \<Rightarrow> u32 \<Rightarrow> bool \<Rightarrow> int" where
  "ingress_flow_action failopen ids pol p ip is_geneve tlv_id tlv_found =
     (case l4_ports p ip of
        None \<Rightarrow> TC_ACT_OK
      | Some (src_port, dst_port) \<Rightarrow>
          let src = (if is_geneve \<and> tlv_found then tlv_id else known_id ids (w32 p (ip + 12)));
              dst = known_id ids (w32 p (ip + 16))
          in if is_geneve \<and> p ! (ip + 9) = IPPROTO_TCP \<and> src \<noteq> 0 \<and> \<not> tcp_open_at p ip
             then TC_ACT_OK
             else action_of (if is_geneve then TC_ACT_STOLEN else TC_ACT_SHOT)
                    (decide failopen pol src dst (bpf_ntohs dst_port) (p ! (ip + 9))))"

definition ingress_spec ::
  "bool \<Rightarrow> (u32 \<rightharpoonup> u32) \<Rightarrow> (policy_key \<rightharpoonup> policy_verdict) \<Rightarrow> byte list \<Rightarrow> int" where
  "ingress_spec failopen ids pol p =
     (case ipv4_after_eth p 0 of
        None \<Rightarrow> TC_ACT_OK
      | Some outer \<Rightarrow>
          (case geneve_inner p outer of
             None \<Rightarrow>
               if geneve_udp p outer then TC_ACT_OK
               else ingress_flow_action failopen ids pol p outer False 0 False
           | Some (ip, tlv_id, tlv_found) \<Rightarrow>
               ingress_flow_action failopen ids pol p ip True tlv_id tlv_found))"

section \<open>Footprints\<close>

lemma strip_shift_footprint: "strip_shift K base len n i s = (rc, t) \<Longrightarrow> skb_only s t"
proof (induction n arbitrary: i s)
  case (Suc n)
  then show ?case
    by (auto simp: Let_def split: if_splits prod.splits dest!: skb_helper_footprint(1-5) Suc.IH)
       (meson skb_only_trans)+
qed simp

lemma strip_footprint: "strip_meridian_tlv K a b c d s = (rc, t) \<Longrightarrow> skb_only s t"
  unfolding strip_meridian_tlv_def Let_def
  by (auto split: if_splits prod.splits dest!: skb_helper_footprint(1-5) strip_shift_footprint)
     (meson skb_only_trans)+

lemma strip_snd_footprint: "skb_only s (snd (strip_meridian_tlv K a b c d s))"
  using strip_footprint by (metis prod.collapse)

section \<open>From the flow to the verdict\<close>

lemma bind_case_option:
  "Option.bind x (\<lambda>(a, b). f a b) = (case x of None \<Rightarrow> None | Some (a, b) \<Rightarrow> f a b)"
  by (cases x) auto

lemma failopen_cong: "runtime_config_map t = runtime_config_map s \<Longrightarrow>
    failopen_unknown_enabled t = failopen_unknown_enabled s"
  by (simp add: failopen_unknown_enabled_def)

text \<open>
  The state in which \<open>ingress_decide\<close> enforces: a tunnelled frame whose sender is neither in the
  option nor in the map counts as a decode failure.
\<close>

definition decode_counted :: "byte list \<Rightarrow> nat \<Rightarrow> bool \<Rightarrow> bool \<Rightarrow> 'w dp \<Rightarrow> 'w dp" where
  "decode_counted d ip is_geneve found s =
     (if is_geneve \<and> \<not> found \<and> known_id (identity_map s) (w32 d (ip + 12)) = 0
      then metric_add METRIC_GENEVE_DECODE_FAIL 1 s else s)"

lemma decode_counted_frame [simp]:
  "config_of (decode_counted d ip g f s) = config_of s"
  "identity_map (decode_counted d ip g f s) = identity_map s"
  "policy_map (decode_counted d ip g f s) = policy_map s"
  "runtime_config_map (decode_counted d ip g f s) = runtime_config_map s"
  "sockhash (decode_counted d ip g f s) = sockhash s"
  "skb (decode_counted d ip g f s) = skb s"
  "cpu (decode_counted d ip g f s) = cpu s"
  by (simp_all add: decode_counted_def config_of_def)

lemma ingress_decide_eq:
  assumes ip: "ipv4_at d ip" and ports: "l4_ports d ip = Some (sp, dp)"
    and src: "src = (if g \<and> f then tlv else known_id (identity_map s) (w32 d (ip + 12)))"
    and dst: "dst = known_id (identity_map s) (w32 d (ip + 16))"
    and u: "u = decode_counted d ip g f s"
  shows "ingress_decide K d ip n now g tlv f (oi, ud, ge, ba) s =
    (if g \<and> d ! (ip + 9) = IPPROTO_TCP \<and> src \<noteq> 0 \<and> \<not> tcp_open_at d ip
     then Some (TC_ACT_OK, if f then snd (strip_meridian_tlv K ba oi ud ge u) else u)
     else case enforce_flow K d ip n now sp dp src dst (if g then TC_ACT_STOLEN else TC_ACT_SHOT) u of
            None \<Rightarrow> None
          | Some (v, t) \<Rightarrow>
              Some (v, if g \<and> f \<and> v = TC_ACT_OK
                       then snd (strip_meridian_tlv K ba oi ud ge t) else t))"
proof -
  have sel: "(if g \<and> f then (tlv, s)
      else if identity_map s (w32 d (ip + 12)) \<noteq> None \<and> the (identity_map s (w32 d (ip + 12))) \<noteq> 0
      then (the (identity_map s (w32 d (ip + 12))), s)
      else if g \<and> \<not> f then (0, metric_add METRIC_GENEVE_DECODE_FAIL 1 s) else (0, s)) = (src, u)"
    by (auto simp: src u decode_counted_def known_id_def split: option.splits)
  have dsel: "(if identity_map s (w32 d (ip + 16)) \<noteq> None \<and> the (identity_map s (w32 d (ip + 16))) \<noteq> 0
      then the (identity_map s (w32 d (ip + 16))) else 0) = dst"
    by (simp add: dst known_id_def split: option.splits)
  have "ingress_decide K d ip n now g tlv f (oi, ud, ge, ba) s =
    (if g \<and> d ! (ip + 9) = IPPROTO_TCP \<and> src \<noteq> 0 \<and> \<not> tcp_open_at d ip
     then Some (TC_ACT_OK, if f then snd (strip_meridian_tlv K ba oi ud ge u) else u)
     else do {
       (v, t) \<leftarrow> enforce_flow K d ip n now sp dp src dst (if g then TC_ACT_STOLEN else TC_ACT_SHOT) u;
       Some (v, if g \<and> f \<and> v = TC_ACT_OK then snd (strip_meridian_tlv K ba oi ud ge t) else t)
     })"
    by (simp add: ingress_decide_def ip ports ipv4_at_loads [OF ip] sel dsel Let_def
        del: not_None_eq)
  then show ?thesis by (simp only: bind_case_option)
qed

text \<open>
  The verdict of the flow, and what the program may have changed: the packet, the accounting and
  the UDP seen-flows map, but never the configuration or the socket map.
\<close>

lemma ingress_decide_action:
  assumes ip: "ipv4_at d ip"
  shows "\<exists>t. ingress_decide K d ip n now g tlv f offs s =
      Some (ingress_flow_action (failopen_unknown_enabled s) (identity_map s) (policy_map s) d ip
        g tlv f, t) \<and> config_of t = config_of s \<and> sockhash t = sockhash s"
proof (cases "l4_ports d ip")
  case None
  then show ?thesis
    by (cases offs) (simp add: ingress_decide_def ip ingress_flow_action_def Let_def)
next
  case (Some ports)
  obtain sp dp where sp: "ports = (sp, dp)" by (cases ports)
  obtain oi ud ge ba where offs: "offs = (oi, ud, ge, ba)" by (cases offs)
  define src where "src = (if g \<and> f then tlv else known_id (identity_map s) (w32 d (ip + 12)))"
  define dst where "dst = known_id (identity_map s) (w32 d (ip + 16))"
  define u where "u = decode_counted d ip g f s"
  define dec where "dec = decide (failopen_unknown_enabled u) (policy_map u) src dst (bpf_ntohs dp)
    (d ! (ip + 9))"
  have fo: "failopen_unknown_enabled u = failopen_unknown_enabled s"
    by (rule failopen_cong) (simp add: u_def)
  note eq = ingress_decide_eq [OF ip Some [unfolded sp] src_def dst_def u_def, of K n now oi ud ge ba]
    enforce_flow_eq [OF ip dec_def, of K n now sp "if g then TC_ACT_STOLEN else TC_ACT_SHOT"]
  have strip: "config_of (snd (strip_meridian_tlv K ba oi ud ge v)) = config_of v"
    "sockhash (snd (strip_meridian_tlv K ba oi ud ge v)) = sockhash v" for v :: "'a dp"
    using skb_onlyD(9,11) [OF strip_snd_footprint] by blast+
  show ?thesis
    unfolding offs eq
    by (auto simp: ingress_flow_action_def Some sp src_def [symmetric] dst_def [symmetric] Let_def
        dec_def fo strip enforce_result_frame, simp_all add: u_def)
qed

definition ingress_ipv4_action ::
  "bool \<Rightarrow> (u32 \<rightharpoonup> u32) \<Rightarrow> (policy_key \<rightharpoonup> policy_verdict) \<Rightarrow> byte list \<Rightarrow> nat \<Rightarrow> int" where
  "ingress_ipv4_action failopen ids pol p outer =
     (case geneve_inner p outer of
        None \<Rightarrow>
          if geneve_udp p outer then TC_ACT_OK
          else ingress_flow_action failopen ids pol p outer False 0 False
      | Some (ip, tlv_id, tlv_found) \<Rightarrow>
          ingress_flow_action failopen ids pol p ip True tlv_id tlv_found)"

lemma ingress_spec_eq:
  "ingress_spec failopen ids pol p =
     (case ipv4_after_eth p 0 of
        None \<Rightarrow> TC_ACT_OK | Some outer \<Rightarrow> ingress_ipv4_action failopen ids pol p outer)"
  by (simp add: ingress_spec_def ingress_ipv4_action_def split: option.splits)

lemma strip_offsets_footprint: "geneve_strip_offsets K outer ihl s = (offs, t) \<Longrightarrow> skb_only s t"
  by (auto simp: geneve_strip_offsets_def Let_def split: prod.splits dest: skb_helper_footprint)

lemma ingress_ipv4_returns:
  assumes ip: "ipv4_at d outer"
  shows "\<exists>t. ingress_ipv4 K d outer n now s =
      Some (ingress_ipv4_action (failopen_unknown_enabled s) (identity_map s) (policy_map s) d outer, t)
      \<and> config_of t = config_of s \<and> sockhash t = sockhash s"
proof (cases "geneve_inner d outer")
  case None
  then show ?thesis
    using ipv4_at_ihl [OF ip] ingress_decide_action [OF ip, of K n now False 0 False "(0, 0, 0, 0)" s]
    by (auto simp: ingress_ipv4_def ipv4_at_loads [OF ip] ip ingress_ipv4_action_def)
next
  case (Some r)
  obtain inner tlv found where r: "r = (inner, tlv, found)" by (cases r)
  obtain offs u where offs: "geneve_strip_offsets K outer (ihl_at d outer) s = (offs, u)"
    by (cases "geneve_strip_offsets K outer (ihl_at d outer) s")
  note u = skb_onlyD [OF strip_offsets_footprint [OF offs]]
  have inner: "ipv4_at d inner" using Some r geneve_inner_at by simp
  have fo: "failopen_unknown_enabled u = failopen_unknown_enabled s"
    by (rule failopen_cong) (rule u(4))
  obtain t where "ingress_decide K d inner n now True tlv found offs u =
      Some (ingress_flow_action (failopen_unknown_enabled s) (identity_map s) (policy_map s) d inner
        True tlv found, t) \<and> config_of t = config_of u \<and> sockhash t = sockhash u"
    using ingress_decide_action [OF inner, of K n now True tlv found offs u] by (auto simp: fo u)
  then show ?thesis
    using ipv4_at_ihl [OF ip] Some r
    by (auto simp: ingress_ipv4_def ipv4_at_loads [OF ip] ip ingress_ipv4_action_def offs u)
qed

text \<open>The state of the program when it starts to parse, after the clock, the counters and the pull.\<close>

definition ingress_start :: "'w kernel \<Rightarrow> 'w dp \<Rightarrow> int \<times> 'w dp" where
  "ingress_start K s =
     (let (now_ns, s) = bpf_ktime_get_ns K s;
          s = metric_add METRIC_PACKETS_TOTAL 1 s;
          s = metric_add METRIC_BYTES_TOTAL (ucast (skb_len (skb s))) s
      in bpf_skb_pull_data K (skb_len (skb s)) s)"

lemma ingress_start_frame:
  assumes "ingress_start K s = (rc, t)"
  shows "identity_map t = identity_map s" "policy_map t = policy_map s"
    "runtime_config_map t = runtime_config_map s" "config_of t = config_of s"
    "sockhash t = sockhash s" "failopen_unknown_enabled t = failopen_unknown_enabled s"
proof -
  obtain u where u: "skb_only u t" and
    f: "identity_map u = identity_map s" "policy_map u = policy_map s"
    "runtime_config_map u = runtime_config_map s" "config_of u = config_of s"
    "sockhash u = sockhash s"
    using assms
    by (auto simp: ingress_start_def bpf_ktime_get_ns_def config_of_def Let_def split: prod.splits
        dest!: skb_helper_footprint(1))
  show "identity_map t = identity_map s" "policy_map t = policy_map s"
    "runtime_config_map t = runtime_config_map s" "config_of t = config_of s"
    "sockhash t = sockhash s"
    using skb_onlyD [OF u] f by simp_all
  then show "failopen_unknown_enabled t = failopen_unknown_enabled s"
    by (simp add: failopen_unknown_enabled_def)
qed

lemma ingress_eq:
  assumes "ingress_start K s = (rc, u)"
  shows "meridian_tc_ingress K s =
    (if rc \<noteq> 0 then Some (TC_ACT_OK, u)
     else case ipv4_after_eth (skb_data (skb u)) 0 of
            None \<Rightarrow> Some (TC_ACT_OK, u)
          | Some ip \<Rightarrow> ingress_ipv4 K (skb_data (skb u)) ip (skb_len (skb s))
              (fst (k_ktime_get_ns K (world s))) u)"
  using assms
  by (auto simp: meridian_tc_ingress_def ingress_start_def bpf_ktime_get_ns_def Let_def
      split: prod.splits option.splits)

lemma ingress_returns:
  assumes "ingress_start K s = (rc, u)"
  shows "\<exists>t. meridian_tc_ingress K s =
      Some (if rc \<noteq> 0 then TC_ACT_OK
            else ingress_spec (failopen_unknown_enabled s) (identity_map s) (policy_map s)
                   (skb_data (skb u)), t) \<and>
      config_of t = config_of s \<and> sockhash t = sockhash s"
proof -
  note u = ingress_start_frame [OF assms]
  let ?now = "fst (k_ktime_get_ns K (world s))"
  note prog = ingress_eq [OF assms]
  show ?thesis
  proof (cases "rc = 0 \<and> ipv4_after_eth (skb_data (skb u)) 0 \<noteq> None")
    case True
    then obtain outer where o: "ipv4_after_eth (skb_data (skb u)) 0 = Some outer" by auto
    then show ?thesis
      using True ingress_ipv4_returns [OF ipv4_after_eth_at [OF o], of K "skb_len (skb s)" ?now u]
      by (auto simp: prog ingress_spec_eq u)
  qed (auto simp: prog ingress_spec_eq u)
qed

lemma ingress_start_pkt:
  assumes "skb_helpers K" and "length (pkt (skb s)) < 2 ^ 32" and "ingress_start K s = (rc, u)"
  shows "rc = 0 \<Longrightarrow> skb_data (skb u) = pkt (skb s)" "pkt (skb u) = pkt (skb s)"
    "mark (skb u) = mark (skb s)"
proof -
  obtain v where v: "bpf_skb_pull_data K (skb_len (skb v)) v = (rc, u)" "skb v = skb s"
    using assms(3) by (auto simp: ingress_start_def bpf_ktime_get_ns_def Let_def split: prod.splits)
  note pull = skb_helpers.pull_data_dp [OF assms(1) v(1)]
  show "rc = 0 \<Longrightarrow> skb_data (skb u) = pkt (skb s)" "pkt (skb u) = pkt (skb s)"
    "mark (skb u) = mark (skb s)"
    using pull assms(2) v(2) by simp_all
qed

section \<open>Properties of the program\<close>

lemma action_of_range: "action_of a dec \<in> {TC_ACT_OK, TC_ACT_SHOT, a}"
  by (cases dec) (simp_all add: action_of_def)

lemma ingress_flow_action_range:
  "ingress_flow_action fo ids pol p ip g tlv f \<in> {TC_ACT_OK, TC_ACT_SHOT, TC_ACT_STOLEN}"
  using action_of_range [of TC_ACT_STOLEN] action_of_range [of TC_ACT_SHOT]
  by (auto simp: ingress_flow_action_def Let_def split: option.splits)

lemma ingress_spec_range: "ingress_spec fo ids pol p \<in> {TC_ACT_OK, TC_ACT_SHOT, TC_ACT_STOLEN}"
  using ingress_flow_action_range
  by (auto simp: ingress_spec_def split: option.splits)

interpretation ingress_tc: tc_program meridian_tc_ingress
proof unfold_locales
  fix K :: "'w kernel" and s
  obtain rc u where st: "ingress_start K s = (rc, u)" by (cases "ingress_start K s")
  show "\<exists>act t. meridian_tc_ingress K s = Some (act, t) \<and> act \<in> {TC_ACT_OK, TC_ACT_SHOT, TC_ACT_STOLEN} \<and>
      config_of t = config_of s \<and> sockhash t = sockhash s"
    using ingress_returns [OF st] ingress_spec_range by (cases "rc = 0") (fastforce, auto)
qed

text \<open>
  C3. Memory safety and totality of the ingress program: for every frame, every map content and
  every kernel behaviour the program performs no packet access outside \<open>[data, data_end)\<close>,
  returns, and returns one of the three TC actions it is meant to return.
\<close>

theorem ingress_memory_safe:
  "\<exists>act t. meridian_tc_ingress K s = Some (act, t) \<and>
     act \<in> {TC_ACT_OK, TC_ACT_SHOT, TC_ACT_STOLEN}"
  using ingress_tc.returns by blast



text \<open>
  The ingress program never writes what the agent and the socket layer own: the identity,
  policy, configuration and schema maps and the socket map are the same after every run.
\<close>

theorem ingress_config_frame:
  assumes "meridian_tc_ingress K s = Some (act, t)"
  shows "config_of t = config_of s \<and> sockhash t = sockhash s"
  using ingress_tc.keeps [OF assms] by simp

theorem ingress_config_frame_witness:
  "config_of (snd (the (meridian_tc_ingress model_kernel (demo_dp (tcp_frame 2) 0 (demo_pol 6 0 0))))) =
     (demo_ids, demo_pol 6 0 0, [0], [2])"
proof -
  have "map_option fst (meridian_tc_ingress model_kernel (demo_dp (tcp_frame 2) 0 (demo_pol 6 0 0))) =
      Some 0" by code_simp
  then obtain t where
    t: "meridian_tc_ingress model_kernel (demo_dp (tcp_frame 2) 0 (demo_pol 6 0 0)) = Some (0, t)"
    by auto
  show ?thesis using ingress_config_frame [OF t] by (simp add: t)
qed

end
