(* ===== verification/Tc_Egress.thy ===== *)
theory Tc_Egress
  imports Tc_Ingress
begin

text \<open>
  The egress program \<^verbatim>\<open>bpf/tc_egress.c\<close>, function by function, with the conventions of
  \<open>Tc_Ingress\<close>: offsets for packet pointers, \<open>None\<close> for a load outside the packet, 32-bit words
  for the scalars passed to helpers. The file carries its own copies of the posture, port and
  accounting functions; they are defined again here and shown equal to the ingress copies, which
  makes the egress accounting an instance of the \<open>telemetry\<close> interface as well.
\<close>

section \<open>The copies of the shared functions\<close>

definition failopen_unknown_enabled :: "'w dp \<Rightarrow> bool" where
  "failopen_unknown_enabled s =
     (case array_lookup (runtime_config_map s) 0 of
        None \<Rightarrow> False
      | Some cfg \<Rightarrow> cfg AND MERIDIAN_CFG_FALLOPEN_UNKNOWN \<noteq> 0)"

definition metric_add :: "u32 \<Rightarrow> u64 \<Rightarrow> 'w dp \<Rightarrow> 'w dp" where
  "metric_add i delta s =
     (case array_lookup (metrics_map s (cpu s)) i of
        None \<Rightarrow> s
      | Some val \<Rightarrow>
          s\<lparr>metrics_map := (metrics_map s)
              (cpu s := (metrics_map s (cpu s))[unat i := val + delta])\<rparr>)"

definition emit_flow_event ::
  "'w kernel \<Rightarrow> u64 \<Rightarrow> u32 \<Rightarrow> u32 \<Rightarrow> u16 \<Rightarrow> u16 \<Rightarrow> u8 \<Rightarrow> u8 \<Rightarrow> u32 \<Rightarrow> u32 \<Rightarrow> u32 \<Rightarrow>
   'w dp \<Rightarrow> 'w dp" where
  "emit_flow_event K timestamp_ns src_ip dst_ip src_port dst_port proto verdict
     src_identity dst_identity bytes s =
     (let (r, s) = bpf_ringbuf_reserve K 56 s
      in case r of
           None \<Rightarrow> metric_add METRIC_RINGBUF_DROPPED 1 s
         | Some ev \<Rightarrow>
             let ev = ev\<lparr>ev_timestamp_ns := timestamp_ns, ev_src_ip := src_ip, ev_dst_ip := dst_ip,
                         ev_src_port := src_port, ev_dst_port := dst_port, ev_proto := proto,
                         ev_verdict := verdict, ev_pad0 := 0, ev_src_identity := src_identity,
                         ev_dst_identity := dst_identity, ev_bytes := bytes, ev_pad1 := 0,
                         ev_latency_ns := 0, ev_l7_status_code := 0, ev_pad2_0 := 0,
                         ev_pad2_1 := 0, ev_pad2_2 := 0\<rparr>
             in bpf_ringbuf_submit ev s)"

definition denied_flow_upsert :: "'w kernel \<Rightarrow> flow_key \<Rightarrow> u32 \<Rightarrow> u64 \<Rightarrow> 'w dp \<Rightarrow> 'w dp" where
  "denied_flow_upsert K key reason now_ns s =
     (let info = \<lparr>di_last_ns = 0, di_count = 0, di_reason = 0\<rparr>;
          info = (case denied_flows_map s key of
                    Some existing \<Rightarrow> info\<lparr>di_count := di_count existing + 1\<rparr>
                  | None \<Rightarrow> info\<lparr>di_count := 1\<rparr>);
          info = info\<lparr>di_last_ns := now_ns\<rparr>;
          info = info\<lparr>di_reason := reason\<rparr>
      in snd (denied_flows_update K key info s))"

definition parse_l4_ports :: "byte list \<Rightarrow> nat \<Rightarrow> u16 \<Rightarrow> u16 \<Rightarrow> (u16 \<times> u16) option option" where
  "parse_l4_ports d ip src_port dst_port = do {
     ihl \<leftarrow> ip_ihl d ip;
     if ihl < IPV4_IHL_MIN \<or> ihl > IPV4_IHL_MAX then Some None
     else do {
       let l4 = ip + ihl * IPV4_WORD_BYTES;
       protocol \<leftarrow> ip_protocol d ip;
       if protocol = IPPROTO_TCP \<or> protocol = IPPROTO_UDP then
         if l4 + L4_PORTS_BYTES > length d then Some None
         else do {
           p0 \<leftarrow> rd16 d l4;
           p1 \<leftarrow> rd16 d (l4 + 2);
           Some (Some (p0, p1))
         }
       else Some (Some (src_port, dst_port))
     }
   }"

section \<open>Counting the options of a frame\<close>

text \<open>
  The loop of \<open>parse_geneve_option_count\<close>; the counter is the number of iterations left of the
  loop bound \<open>4\<close>. When it is used up, the options must have ended exactly at \<open>opt_bytes\<close>.
\<close>

fun geneve_count_walk :: "byte list \<Rightarrow> nat \<Rightarrow> nat \<Rightarrow> nat \<Rightarrow> nat \<Rightarrow> nat \<Rightarrow> nat option option" where
  "geneve_count_walk d opts opt_bytes 0 offset count =
     Some (if offset \<noteq> opt_bytes then None else Some count)"
| "geneve_count_walk d opts opt_bytes (Suc i) offset count =
     (if offset = opt_bytes then Some (Some count)
      else if offset > opt_bytes then Some None
      else let opt = opts + offset in
        if opt + 4 > length d then Some None
        else do {
          b3 \<leftarrow> rd8 d (opt + 3);
          let opt_len_words = unat (b3 AND 0x1f);
          let opt_size = 4 + opt_len_words * 4;
          if opt_size < 4 then Some None
          else geneve_count_walk d opts opt_bytes i (offset + opt_size) (count + 1)
        })"

definition parse_geneve_option_count :: "byte list \<Rightarrow> nat \<Rightarrow> nat \<Rightarrow> nat option option" where
  "parse_geneve_option_count d opts opt_bytes = geneve_count_walk d opts opt_bytes 4 0 0"

section \<open>Making room and stamping\<close>

text \<open>
  The unrolled copy loop: byte \<open>8 + i\<close> moves to \<open>i\<close> while \<open>i < room_off\<close>. The first counter is
  the number of iterations left of the 80, the second the C variable \<open>i\<close>.
\<close>

fun head_shift :: "'w kernel \<Rightarrow> u32 \<Rightarrow> nat \<Rightarrow> u32 \<Rightarrow> 'w dp \<Rightarrow> int \<times> 'w dp" where
  "head_shift K room_off 0 i s = (0, s)"
| "head_shift K room_off (Suc n) i s =
     (if i < room_off then
        let src_off = of_nat MERIDIAN_GENEVE_OPT_BYTES + i;
            dst_off = i;
            (rc, b, s) = bpf_skb_load_bytes K src_off 1 s
        in if rc \<noteq> 0 then (1, s)
           else
             let (rc, s) = bpf_skb_store_bytes K dst_off b 0 s
             in if rc \<noteq> 0 then (1, s) else head_shift K room_off n (i + 1) s
      else head_shift K room_off n (i + 1) s)"

definition insert_inner_tlv_room ::
  "'w kernel \<Rightarrow> u32 \<Rightarrow> u32 \<Rightarrow> u32 \<Rightarrow> nat \<Rightarrow> 'w dp \<Rightarrow> int \<times> 'w dp" where
  "insert_inner_tlv_room K room_off outer_ip_off udp_off opt_bytes s =
     (let (rc, s) = bpf_skb_pull_data K (skb_len (skb s)) s
      in if rc \<noteq> 0 then (1, s)
      else if room_off = 0 \<or> room_off \<ge> skb_len (skb s) \<or> outer_ip_off \<ge> room_off then (1, s)
      else
        let shift_bytes = room_off - outer_ip_off
        in if shift_bytes > 64 then (1, s)
        else if room_off > 80 then (1, s)
        else
          let (rc, s) = bpf_skb_change_head K (of_nat MERIDIAN_GENEVE_OPT_BYTES) 0 s
          in if rc \<noteq> 0 then (1, s)
          else
            let (rc, s) = bpf_skb_pull_data K (skb_len (skb s)) s
            in if rc \<noteq> 0 then (1, s) else head_shift K room_off 80 0 s)"

definition bump_udp_geneve_lengths :: "'w kernel \<Rightarrow> u32 \<Rightarrow> u32 \<Rightarrow> 'w dp \<Rightarrow> int \<times> 'w dp" where
  "bump_udp_geneve_lengths K outer_ip_off udp_off s =
     (let (rc, s) = bpf_skb_pull_data K (skb_len (skb s)) s
      in if rc \<noteq> 0 then (1, s)
      else
        let new_ip_len_be = bpf_htons (ucast (skb_len (skb s) - outer_ip_off));
            (rc, old_ip_len_be, s) = bpf_skb_load_bytes K (outer_ip_off + 2) 2 s
        in if rc \<noteq> 0 then (1, s)
        else
          let (rc, s) = bpf_skb_store_bytes K (outer_ip_off + 2) (bytes16 new_ip_len_be)
                          BPF_F_RECOMPUTE_CSUM s
          in if rc \<noteq> 0 then (1, s)
          else
            let new_udp_len_be = bpf_htons (ucast (skb_len (skb s) - udp_off));
                (rc, old_udp_len_be, s) = bpf_skb_load_bytes K (udp_off + 4) 2 s
            in if rc \<noteq> 0 then (1, s)
            else
              let (rc, s) = bpf_skb_store_bytes K (udp_off + 4) (bytes16 new_udp_len_be) 0 s
              in if rc \<noteq> 0 then (1, s)
              else
                let (rc, udp_check_be, s) = bpf_skb_load_bytes K (udp_off + 6) 2 s
                in if rc \<noteq> 0 then (1, s)
                else if w16 udp_check_be 0 \<noteq> 0 then
                  let (rc, s) = bpf_l4_csum_replace K udp_off (ucast (w16 old_udp_len_be 0))
                                  (ucast new_udp_len_be) 2 s
                  in if rc \<noteq> 0 then (1, s) else (0, s)
                else (0, s))"

definition stamp_identity_tlv ::
  "'w kernel \<Rightarrow> u32 \<Rightarrow> u32 \<Rightarrow> nat \<Rightarrow> u32 \<Rightarrow> 'w dp \<Rightarrow> int \<times> 'w dp" where
  "stamp_identity_tlv K stamp_off geneve_off opt_words src_id s =
     (let class_be = bpf_htons MERIDIAN_GENEVE_CLASS;
          src_id_be = bpf_htonl src_id;
          tlv = bytes16 class_be @
            [MERIDIAN_OPT_IDENTITY, of_nat MERIDIAN_GENEVE_IDENTITY_LEN_WORDS] @ bytes32 src_id_be;
          (rc, s) = bpf_skb_store_bytes K stamp_off tlv 0 s
      in if rc \<noteq> 0 then (1, s)
      else
        let (rc, geneve0, s) = bpf_skb_load_bytes K geneve_off 1 s
        in if rc \<noteq> 0 then (1, s)
        else
          let geneve0 = (geneve0 ! 0 AND 0xc0) OR of_nat (opt_words + MERIDIAN_GENEVE_OPT_WORDS);
              (rc, s) = bpf_skb_store_bytes K geneve_off [geneve0] 0 s
          in if rc \<noteq> 0 then (1, s) else (0, s))"

section \<open>The program\<close>

text \<open>The label \<open>encap_fail\<close>; \<open>flow\<close> is \<open>None\<close> while \<open>has_flow\<close> is 0.\<close>

definition encap_fail ::
  "'w kernel \<Rightarrow> u64 \<Rightarrow> u32 \<Rightarrow> flow_key option \<Rightarrow> u32 \<Rightarrow> u32 \<Rightarrow> 'w dp \<Rightarrow> int \<times> 'w dp" where
  "encap_fail K now_ns packet_bytes flow event_src_id event_dst_id s =
     (let s = metric_add METRIC_GENEVE_ENCAP_FAIL 1 s
      in if failopen_unknown_enabled s then (TC_ACT_OK, s)
      else case flow of
             None \<Rightarrow> (TC_ACT_SHOT, s)
           | Some flow \<Rightarrow>
               let s = denied_flow_upsert K flow DROP_REASON_GENEVE_ENCAP_FAIL now_ns s;
                   s = metric_add METRIC_FLOWS_DENIED 1 s;
                   s = emit_flow_event K now_ns (fk_src_ip flow) (fk_dst_ip flow) (fk_src_port flow)
                         (fk_dst_port flow) (fk_proto flow) FLOW_VERDICT_DENY event_src_id
                         event_dst_id packet_bytes s
               in (TC_ACT_SHOT, s))"

definition zero_flow :: flow_key where
  "zero_flow =
     \<lparr>fk_src_ip = 0, fk_dst_ip = 0, fk_src_port = 0, fk_dst_port = 0, fk_proto = 0, fk_pad_0 = 0,
      fk_pad_1 = 0, fk_pad_2 = 0\<rparr>"

text \<open>
  The branch for frames that are not Geneve. When the ports cannot be parsed, the flow key stays
  zero and the lookup uses port 0.
\<close>

definition egress_local ::
  "'w kernel \<Rightarrow> byte list \<Rightarrow> nat \<Rightarrow> u32 \<Rightarrow> u64 \<Rightarrow> 'w dp \<Rightarrow> (int \<times> 'w dp) option" where
  "egress_local K d outer_ip packet_bytes now_ns s = do {
     src_key \<leftarrow> ip_saddr d outer_ip;
     dst_key \<leftarrow> ip_daddr d outer_ip;
     protocol \<leftarrow> ip_protocol d outer_ip;
     let src_identity = identity_map s src_key;
     let dst_identity = identity_map s dst_key;
     ports \<leftarrow> parse_l4_ports d outer_ip 0 0;
     let (flow, dst_port) =
       (case ports of
          None \<Rightarrow> (zero_flow, 0)
        | Some (src_port, dst_port) \<Rightarrow>
            (\<lparr>fk_src_ip = src_key, fk_dst_ip = dst_key, fk_src_port = src_port,
              fk_dst_port = dst_port, fk_proto = protocol, fk_pad_0 = 0, fk_pad_1 = 0,
              fk_pad_2 = 0\<rparr>, dst_port));
     let event_dst_id = (case dst_identity of None \<Rightarrow> 0 | Some i \<Rightarrow> i);
     if src_identity = None \<or> the src_identity = 0 then Some (TC_ACT_OK, s)
     else do {
       let event_src_id = the src_identity;
       if dst_identity \<noteq> None \<and> the dst_identity \<noteq> 0 then do {
         let policy_key =
           \<lparr>pk_src_id = event_src_id, pk_dst_id = the dst_identity,
            pk_dst_port = bpf_ntohs dst_port, pk_proto = protocol,
            pk_direction = POLICY_DIR_INGRESS\<rparr>;
         let verdict = policy_map s policy_key;
         if verdict \<noteq> None \<and> pv_action (the verdict) = FLOW_VERDICT_DENY then do {
           let s = denied_flow_upsert K flow DROP_REASON_POLICY_DENY now_ns s;
           let s = metric_add METRIC_FLOWS_DENIED 1 s;
           let s = emit_flow_event K now_ns (fk_src_ip flow) (fk_dst_ip flow) (fk_src_port flow)
                     (fk_dst_port flow) (fk_proto flow) FLOW_VERDICT_DENY event_src_id
                     event_dst_id packet_bytes s;
           Some (TC_ACT_STOLEN, s)
         }
         else Some (TC_ACT_OK, s)
       }
       else Some (TC_ACT_OK, s)
     }
   }"

text \<open>
  From the option limit to the end: reserve or insert the slot, then write the option. The result
  is 0 when the frame was stamped, and 1 where the C code jumps to \<open>encap_fail\<close>.
\<close>

definition egress_stamp ::
  "'w kernel \<Rightarrow> nat \<Rightarrow> nat \<Rightarrow> nat \<Rightarrow> nat \<Rightarrow> nat \<Rightarrow> nat \<Rightarrow> nat \<Rightarrow> u32 \<Rightarrow> 'w dp \<Rightarrow> int \<times> 'w dp" where
  "egress_stamp K outer_ip udp geneve inner_base opt_words option_count reserved_headroom
     event_src_id s =
     (if option_count \<ge> MERIDIAN_MAX_GENEVE_OPTS then (1, s)
      else
        let geneve_off = of_nat geneve
        in if reserved_headroom = MERIDIAN_GENEVE_OPT_BYTES then
             stamp_identity_tlv K (of_nat inner_base) geneve_off opt_words event_src_id s
           else if reserved_headroom = 0 then
             let room_off = of_nat inner_base;
                 outer_ip_off = of_nat outer_ip;
                 udp_off = of_nat udp;
                 (rc, s) = insert_inner_tlv_room K room_off outer_ip_off udp_off (opt_words * 4) s
             in if rc \<noteq> 0 then (1, s)
                else
                  let (rc, s) = bump_udp_geneve_lengths K outer_ip_off udp_off s
                  in stamp_identity_tlv K room_off geneve_off opt_words event_src_id s
           else (1, s))"

text \<open>From the inner IPv4 header to the end.\<close>

definition egress_flow ::
  "'w kernel \<Rightarrow> byte list \<Rightarrow> nat \<Rightarrow> nat \<Rightarrow> nat \<Rightarrow> nat \<Rightarrow> nat \<Rightarrow> nat \<Rightarrow> nat \<Rightarrow> nat \<Rightarrow> u32 \<Rightarrow> u64 \<Rightarrow>
   'w dp \<Rightarrow> (int \<times> 'w dp) option" where
  "egress_flow K d outer_ip udp geneve inner_base opt_words option_count inner_ip
     reserved_headroom packet_bytes now_ns s = do {
     ports \<leftarrow> parse_l4_ports d inner_ip 0 0;
     (case ports of
        None \<Rightarrow> Some (encap_fail K now_ns packet_bytes None 0 0 s)
      | Some (src_port, dst_port) \<Rightarrow> do {
          src_key \<leftarrow> ip_saddr d inner_ip;
          dst_key \<leftarrow> ip_daddr d inner_ip;
          protocol \<leftarrow> ip_protocol d inner_ip;
          let flow =
            \<lparr>fk_src_ip = src_key, fk_dst_ip = dst_key, fk_src_port = src_port,
             fk_dst_port = dst_port, fk_proto = protocol, fk_pad_0 = 0, fk_pad_1 = 0,
             fk_pad_2 = 0\<rparr>;
          let src_identity = identity_map s src_key;
          let dst_identity = identity_map s dst_key;
          let event_dst_id = (case dst_identity of None \<Rightarrow> 0 | Some i \<Rightarrow> i);
          if src_identity = None \<or> the src_identity = 0
          then Some (encap_fail K now_ns packet_bytes (Some flow) 0 event_dst_id s)
          else do {
            let event_src_id = the src_identity;
            let policy_key =
              \<lparr>pk_src_id = event_src_id, pk_dst_id = event_dst_id,
               pk_dst_port = bpf_ntohs dst_port, pk_proto = protocol,
               pk_direction = POLICY_DIR_INGRESS\<rparr>;
            let verdict = (if dst_identity \<noteq> None \<and> the dst_identity \<noteq> 0
                           then policy_map s policy_key else None);
            if verdict \<noteq> None \<and> pv_action (the verdict) = FLOW_VERDICT_DENY then do {
              let s = denied_flow_upsert K flow DROP_REASON_POLICY_DENY now_ns s;
              let s = metric_add METRIC_FLOWS_DENIED 1 s;
              let s = emit_flow_event K now_ns (fk_src_ip flow) (fk_dst_ip flow)
                        (fk_src_port flow) (fk_dst_port flow) (fk_proto flow) FLOW_VERDICT_DENY
                        event_src_id event_dst_id packet_bytes s;
              Some (TC_ACT_STOLEN, s)
            }
            else do {
              let (rc, s) = egress_stamp K outer_ip udp geneve inner_base opt_words option_count
                              reserved_headroom event_src_id s;
              Some (if rc \<noteq> 0
                    then encap_fail K now_ns packet_bytes (Some flow) event_src_id event_dst_id s
                    else (TC_ACT_OK, s))
            }
          }
        })
   }"

text \<open>From the Geneve base header to the inner IPv4 header.\<close>

definition egress_geneve ::
  "'w kernel \<Rightarrow> byte list \<Rightarrow> nat \<Rightarrow> nat \<Rightarrow> u32 \<Rightarrow> u64 \<Rightarrow> 'w dp \<Rightarrow> (int \<times> 'w dp) option" where
  "egress_geneve K d outer_ip udp packet_bytes now_ns s = do {
     let fail = encap_fail K now_ns packet_bytes None 0 0 s;
     let geneve = udp + sizeof_udphdr;
     if geneve + 8 > length d then Some fail
     else do {
       geneve0 \<leftarrow> rd8 d geneve;
       if drop_bit 6 geneve0 \<noteq> 0 then Some fail
       else do {
         let opt_words = unat (geneve0 AND 0x3f);
         let opt_bytes = opt_words * 4;
         if opt_words > MERIDIAN_MAX_GENEVE_OPT_WORDS then Some fail
         else do {
           let opts = geneve + 8;
           if opts + opt_bytes > length d then Some fail
           else do {
             cnt \<leftarrow> parse_geneve_option_count d opts opt_bytes;
             (case cnt of
                None \<Rightarrow> Some fail
              | Some option_count \<Rightarrow> do {
                  let inner_base = opts + opt_bytes;
                  r \<leftarrow> parse_ipv4_in_geneve_payload d inner_base;
                  (case r of
                     None \<Rightarrow> Some (TC_ACT_OK, s)
                   | Some (inner_ip, reserved_headroom) \<Rightarrow>
                       egress_flow K d outer_ip udp geneve inner_base opt_words option_count
                         inner_ip reserved_headroom packet_bytes now_ns s)
                })
           }
         }
       }
     }
   }"

definition meridian_tc_egress :: "'w kernel \<Rightarrow> 'w dp \<Rightarrow> (int \<times> 'w dp) option" where
  "meridian_tc_egress K s = do {
     let packet_bytes = skb_len (skb s);
     let (now_ns, s) = bpf_ktime_get_ns K s;
     let (rc, s) = bpf_skb_pull_data K (skb_len (skb s)) s;
     if rc \<noteq> 0 then Some (TC_ACT_OK, s)
     else do {
       let d = skb_data (skb s);
       r \<leftarrow> parse_ipv4_after_eth d 0;
       (case r of
          None \<Rightarrow> Some (TC_ACT_OK, s)
        | Some outer_ip \<Rightarrow> do {
            version \<leftarrow> ip_version d outer_ip;
            ihl \<leftarrow> ip_ihl d outer_ip;
            if version \<noteq> 4 \<or> ihl < IPV4_IHL_MIN \<or> ihl > IPV4_IHL_MAX then Some (TC_ACT_OK, s)
            else do {
              let udp = outer_ip + ihl * IPV4_WORD_BYTES;
              protocol \<leftarrow> ip_protocol d outer_ip;
              not_geneve \<leftarrow>
                (if protocol \<noteq> IPPROTO_UDP \<or> udp + sizeof_udphdr > length d then Some True
                 else map_option (\<lambda>dest. dest \<noteq> bpf_htons MERIDIAN_GENEVE_UDP_PORT)
                        (udp_dest d udp));
              if not_geneve then egress_local K d outer_ip packet_bytes now_ns s
              else egress_geneve K d outer_ip udp packet_bytes now_ns s
            }
          })
     }
   }"

section \<open>The copies agree with the ingress program\<close>

lemma egress_copies:
  "failopen_unknown_enabled = Tc_Ingress.failopen_unknown_enabled"
  "metric_add = Tc_Ingress.metric_add"
  "emit_flow_event = Tc_Ingress.emit_flow_event"
  "denied_flow_upsert = Tc_Ingress.denied_flow_upsert"
  "parse_l4_ports = Tc_Ingress.parse_l4_ports"
proof -
  show add: "metric_add = Tc_Ingress.metric_add"
    by (intro ext) (simp only: metric_add_def Tc_Ingress.metric_add_def)
  show "emit_flow_event = Tc_Ingress.emit_flow_event"
    by (intro ext) (simp only: emit_flow_event_def Tc_Ingress.emit_flow_event_def add)
qed (intro ext, simp only: failopen_unknown_enabled_def Tc_Ingress.failopen_unknown_enabled_def
      denied_flow_upsert_def Tc_Ingress.denied_flow_upsert_def parse_l4_ports_def
      Tc_Ingress.parse_l4_ports_def)+

interpretation tceg: telemetry metric_add emit_flow_event denied_flow_upsert
  unfolding egress_copies by unfold_locales

lemmas egress_accounting_eq =
  metric_add_frame [folded egress_copies(2)] metric_metric_add [folded egress_copies(2)]
  emit_flow_event_cases [folded egress_copies(2,3)] denied_flow_upsert_eq [folded egress_copies(4)]

lemma egress_ports_eq [simp]: "ipv4_at d ip \<Longrightarrow> parse_l4_ports d ip 0 0 = Some (l4_ports d ip)"
  by (simp add: egress_copies)

lemma geneve_count_walk_total: "\<exists>r. geneve_count_walk d opts n i off c = Some r"
  by (induction d opts n i off c rule: geneve_count_walk.induct) (auto simp: Let_def load_simps)

end
