(* ===== verification/Egress_Options.thy ===== *)
theory Egress_Options
  imports Tc_Egress Geneve_Options
begin

text \<open>
  The option count of \<open>tc_egress.c\<close> against the list reading of \<open>Geneve_Options\<close>: the walk
  succeeds exactly when the option area is a sequence of at most four complete options, and
  returns their number. An identity option appended to such an area is the next option that the
  ingress walk sees.
\<close>

section \<open>Complete option areas\<close>

fun complete_options :: "nat \<Rightarrow> byte list \<Rightarrow> geneve_option list option" where
  "complete_options 0 area = (if area = [] then Some [] else None)"
| "complete_options (Suc n) area =
     (if area = [] then Some []
      else let body = 4 * unat (area ! 3 AND 0x1f)
           in if length area < 4 \<or> length area < 4 + body then None
              else map_option
                     (Cons \<lparr>opt_class = bpf_ntohs (w16 area 0), opt_type = area ! 2,
                            opt_body = slice_of area 4 body\<rparr>)
                     (complete_options n (drop (4 + body) area)))"

lemma count_walk_past: "n < off \<Longrightarrow> geneve_count_walk d opts n i off c = Some None"
  by (cases i) auto

lemma count_walk_step:
  assumes "opts + n \<le> length d" and "off < n" and W: "W = unat (d ! (opts + off + 3) AND 0x1f)"
    and "off + 4 + W * 4 \<le> n"
  shows "geneve_count_walk d opts n (Suc i) off c = geneve_count_walk d opts n i (off + (4 + W * 4)) (c + 1)"
  using assms by (simp add: load_simps Let_def)

lemma count_walk_stop:
  assumes "opts + n \<le> length d" and "off < n"
    and "n < off + (4 + unat (d ! (opts + off + 3) AND 0x1f) * 4)"
  shows "geneve_count_walk d opts n (Suc i) off c = Some None"
proof (cases "opts + off + 4 \<le> length d")
  case True
  then show ?thesis using assms(2,3) by (simp add: load_simps Let_def count_walk_past)
qed (use assms(2) in \<open>simp add: Let_def\<close>)

lemma geneve_count_walk_eq:
  assumes d: "opts + n \<le> length d"
  shows "off \<le> n \<Longrightarrow> geneve_count_walk d opts n i off c =
    Some (map_option (\<lambda>l. c + length l) (complete_options i (drop off (take n (drop opts d)))))"
proof (induction i arbitrary: off c)
  case 0
  then show ?case using d by auto
next
  case (Suc i)
  let ?area = "drop off (take n (drop opts d))"
  define W where "W = unat (d ! (opts + off + 3) AND 0x1f)"
  have len: "length ?area = n - off" using d by simp
  consider (end_of_area) "off = n" | (whole) "off < n" "off + 4 + W * 4 \<le> n"
    | (cut) "off < n" "n < off + (4 + W * 4)" using Suc.prems by linarith
  then show ?case
  proof cases
    case end_of_area
    then show ?thesis by simp
  next
    case whole
    have nth: "?area ! 3 = d ! (opts + off + 3)" using d whole by (simp add: add.assoc)
    have ne: "?area \<noteq> []" using whole(1) d by simp
    have fits: "\<not> (length ?area < 4 \<or> length ?area < 4 + 4 * W)" using whole(2) len by linarith
    have "drop (4 + W * 4) ?area = drop (off + (4 + W * 4)) (take n (drop opts d))"
      by (simp add: ac_simps)
    then have step: "complete_options (Suc i) ?area =
        map_option (Cons \<lparr>opt_class = bpf_ntohs (w16 ?area 0), opt_type = ?area ! 2,
            opt_body = slice_of ?area 4 (4 * W)\<rparr>)
          (complete_options i (drop (off + (4 + W * 4)) (take n (drop opts d))))"
      using ne fits unfolding complete_options.simps Let_def nth W_def [symmetric]
      by (simp only: mult.commute [of 4 W] if_False if_cancel)
    show ?thesis
      unfolding count_walk_step [OF d whole(1) W_def whole(2)] step
      using Suc.IH [of "off + (4 + W * 4)" "c + 1"] whole(2)
      by (simp add: option.map_comp comp_def)
  next
    case cut
    have ne: "?area \<noteq> []" using cut(1) d by simp
    have "complete_options (Suc i) ?area = None"
    proof (cases "4 \<le> n - off")
      case True
      then have "?area ! 3 = d ! (opts + off + 3)" using d by (simp add: add.assoc)
      moreover have "n - off < 4 + 4 * W" using cut by linarith
      ultimately show ?thesis using len ne by (simp add: W_def Let_def)
    qed (use len ne in \<open>simp add: Let_def\<close>)
    moreover have "geneve_count_walk d opts n (Suc i) off c = Some None"
      using cut by (intro count_walk_stop [OF d]) (simp_all add: W_def)
    ultimately show ?thesis by (simp only: option.map)
  qed
qed

lemma parse_geneve_option_count_eq:
  "opts + n \<le> length d \<Longrightarrow>
     parse_geneve_option_count d opts n =
     Some (map_option length (complete_options 4 (slice_of d opts n)))"
  using geneve_count_walk_eq [of opts n d 0 4 0]
  by (simp add: parse_geneve_option_count_def slice_of_def)

section \<open>Appending an option\<close>

lemma complete_options_append:
  "complete_options k a = Some l \<Longrightarrow>
     geneve_options (length l + m) (a @ b) = l @ geneve_options m b"
proof (induction k a arbitrary: l rule: complete_options.induct)
  case (1 a)
  then show ?case by (simp split: if_splits)
next
  case (2 n a)
  show ?case
  proof (cases "a = []")
    case True
    then show ?thesis using 2(2) by simp
  next
    case False
    let ?body = "4 * unat (a ! 3 AND 0x1f)"
    let ?opt = "\<lparr>opt_class = bpf_ntohs (w16 a 0), opt_type = a ! 2, opt_body = slice_of a 4 ?body\<rparr>"
    have fits: "4 + ?body \<le> length a"
      using 2(2) False by (auto simp: Let_def split: if_splits)
    then obtain l' where l': "complete_options n (drop (4 + ?body) a) = Some l'" "l = ?opt # l'"
      using 2(2) False by (auto simp: Let_def split: if_splits)
    have IH: "geneve_options (length l' + m) (drop (4 + ?body) a @ b) = l' @ geneve_options m b"
      using 2(1) [OF False refl _ l'(1)] fits by simp
    have "(a @ b) ! 3 = a ! 3" "(a @ b) ! 2 = a ! 2" "w16 (a @ b) 0 = w16 a 0"
      "slice_of (a @ b) 4 ?body = slice_of a 4 ?body"
      using fits False by (simp_all add: nth_append w16_def slice_of_def)
    then show ?thesis using IH fits l'(2) by (simp add: Let_def)
  qed
qed

text \<open>The option that \<open>stamp_identity_tlv\<close> writes.\<close>

definition identity_tlv :: "u32 \<Rightarrow> byte list" where
  "identity_tlv src_id =
     bytes16 (bpf_htons MERIDIAN_GENEVE_CLASS) @ [MERIDIAN_OPT_IDENTITY, 1] @
     bytes32 (bpf_htonl src_id)"

lemma length_identity_tlv [simp]: "length (identity_tlv i) = 8"
  by (simp add: identity_tlv_def)

lemma identity_tlv_option:
  "geneve_options (Suc m) (identity_tlv i) =
     \<lparr>opt_class = MERIDIAN_GENEVE_CLASS, opt_type = 1, opt_body = bytes32 (bpf_htonl i)\<rparr> #
     geneve_options m []"
proof -
  let ?t = "identity_tlv i"
  have "w16 ?t 0 = bpf_htons 0x4d52" "?t ! 3 = 1" "?t ! 2 = 1"
    "slice_of ?t 4 4 = bytes32 (bpf_htonl i)" "drop 8 ?t = []"
    by (simp_all add: identity_tlv_def w16_def bytes16_def le16_bytes16 slice_of_def nth_append)
  then show ?thesis by (simp add: Let_def)
qed

lemma geneve_options_Nil [simp]: "geneve_options m [] = []"
  by (cases m) (simp_all add: Let_def)

lemma w32_bytes32: "w32 (bytes32 w) 0 = w"
  using le32_of_bytes [of w] by (simp add: w32_def numeral_2_eq_2)

text \<open>
  Stamping behind at most three complete options: the identity read back is the first identity
  among the options that were there, or else the stamped one.
\<close>

lemma identity_in_append:
  "identity_in (xs @ ys) = (case identity_in xs of None \<Rightarrow> identity_in ys | Some i \<Rightarrow> Some i)"
proof (induction xs)
  case (Cons x xs)
  then show ?case by (cases "is_identity_option x") (simp_all add: identity_in_def)
qed (simp add: identity_in_def)

lemma stamped_identity:
  assumes "complete_options 4 a = Some l" and "length l < 4"
  shows "identity_in (geneve_options 4 (a @ identity_tlv i)) =
    (case identity_in (geneve_options 4 a) of None \<Rightarrow> Some i | Some j \<Rightarrow> Some j)"
proof -
  obtain m where m: "4 = length l + Suc m" using assms(2) by (metis less_iff_Suc_add add_Suc_right)
  have "geneve_options 4 (a @ identity_tlv i) = l @ geneve_options (Suc m) (identity_tlv i)"
    unfolding m by (rule complete_options_append [OF assms(1)])
  moreover have "geneve_options 4 (a @ []) = l @ geneve_options (Suc m) []"
    unfolding m by (rule complete_options_append [OF assms(1)])
  moreover have "identity_in (geneve_options (Suc m) (identity_tlv i)) = Some i"
    unfolding identity_tlv_option by (simp add: identity_in_def is_identity_option_def w32_bytes32)
  ultimately show ?thesis
    by (simp only: identity_in_append append_Nil2 geneve_options_Nil)
qed

end
