(* ===== verification/Tlv_Editing.thy ===== *)
theory Tlv_Editing
  imports Egress_Options
begin

text \<open>
  What the byte-moving functions of the TC programs do to a frame: \<open>insert_inner_tlv_room\<close>,
  \<open>bump_udp_geneve_lengths\<close> and \<open>stamp_identity_tlv\<close> of \<^verbatim>\<open>tc_egress.c\<close>, and
  \<open>strip_meridian_tlv\<close> of \<^verbatim>\<open>tc_ingress.c\<close>. Both copy loops move bytes eight places towards the
  head, one load and one store per byte; \<open>shift_down\<close> is what they compute. The results hold for
  every kernel with the \<open>skb_helpers\<close> contract whenever the function reports success, and under
  \<open>live_skb_helpers\<close> the functions do report success.
\<close>

section \<open>Moving bytes towards the head\<close>

definition shift_down :: "byte list \<Rightarrow> nat \<Rightarrow> nat \<Rightarrow> byte list" where
  "shift_down p lo hi = take lo p @ slice_of p (lo + 8) (hi - lo) @ drop hi p"

lemma length_shift_down [simp]:
  "lo \<le> hi \<Longrightarrow> hi + 8 \<le> length p \<Longrightarrow> length (shift_down p lo hi) = length p"
  by (simp add: shift_down_def)

lemma nth_shift_down:
  assumes "lo \<le> hi" and "hi + 8 \<le> length p" and "j < length p"
  shows "shift_down p lo hi ! j = (if lo \<le> j \<and> j < hi then p ! (j + 8) else p ! j)"
proof -
  have "length (slice_of p (lo + 8) (hi - lo)) = hi - lo"
    "lo \<le> j \<Longrightarrow> j < hi \<Longrightarrow> slice_of p (lo + 8) (hi - lo) ! (j - lo) = p ! (lo + 8 + (j - lo))"
    using assms by (simp_all add: slice_of_def)
  then show ?thesis using assms by (auto simp: shift_down_def nth_append ac_simps)
qed

lemma shift_down_refl [simp]: "shift_down p lo lo = p"
  by (simp add: shift_down_def slice_of_def)

lemma shift_down_step:
  assumes "lo < hi" and "hi + 8 \<le> length p"
  shows "shift_down (overwrite p lo (slice_of p (lo + 8) 1)) (Suc lo) hi = shift_down p lo hi"
    (is "shift_down ?q _ _ = _")
proof (rule nth_equalityI)
  have len: "length (slice_of p (lo + 8) 1) = 1" "length ?q = length p"
    using assms by simp_all
  then show "length (shift_down ?q (Suc lo) hi) = length (shift_down p lo hi)"
    using assms by simp
  fix j assume "j < length (shift_down ?q (Suc lo) hi)"
  then have j: "j < length p" using assms len by simp
  have q: "?q ! k = (if k = lo then p ! (lo + 8) else p ! k)" if "k < length p" for k
    using that assms len by (auto simp: nth_overwrite slice_of_def)
  show "shift_down ?q (Suc lo) hi ! j = shift_down p lo hi ! j"
    using assms j len q [of j] q [of "j + 8"] by (auto simp: nth_shift_down)
qed

section \<open>Offsets as machine words\<close>

lemma u32_offsets:
  "(of_nat a + of_nat b :: u32) = of_nat (a + b)"
  "8 \<le> a \<Longrightarrow> (of_nat a - 8 + of_nat b :: u32) = of_nat (a - 8 + b)"
  "(of_nat a + 1 :: u32) = of_nat (Suc a)"
  "(8 + of_nat a :: u32) = of_nat (8 + a)"
  "(of_nat a + 2 :: u32) = of_nat (a + 2)"
  "(of_nat a + 4 :: u32) = of_nat (a + 4)"
  "(of_nat a + 6 :: u32) = of_nat (a + 6)"
  by (simp_all add: of_nat_diff)

lemma u32_less: "a < 2 ^ 32 \<Longrightarrow> b < 2 ^ 32 \<Longrightarrow> (of_nat a < (of_nat b :: u32)) = (a < b)"
  by (simp add: word_less_nat_alt)

lemma u32_le: "a < 2 ^ 32 \<Longrightarrow> b < 2 ^ 32 \<Longrightarrow> (of_nat a \<le> (of_nat b :: u32)) = (a \<le> b)"
  by (simp add: word_le_nat_alt)

lemma unat_u32_add: "unat (a :: u32) + numeral k < 2 ^ 32 \<Longrightarrow> unat (a + numeral k) = unat a + numeral k"
proof -
  assume a: "unat (a :: u32) + numeral k < 2 ^ 32"
  have "a + numeral k = of_nat (unat a + numeral k)" by simp
  then show ?thesis using a by (metis unat_of_nat_u32)
qed

section \<open>The copy loops\<close>

context skb_helpers
begin

lemma load_at:
  assumes "bpf_skb_load_bytes K (of_nat off) l s = (0, bs, t)" and "off < 2 ^ 32"
  shows "off + l \<le> length (pkt (skb s))" "bs = slice_of (pkt (skb s)) off l" "skb t = skb s"
  using load_dp [OF assms(1)] skb_helper_footprint(6) [OF assms(1)] assms(2) by simp_all

lemma store_at:
  assumes "bpf_skb_store_bytes K (of_nat off) bs fl s = (0, t)" and "off < 2 ^ 32"
  shows "off + length bs \<le> length (pkt (skb s))" "pkt (skb t) = overwrite (pkt (skb s)) off bs"
    "mark (skb t) = mark (skb s)"
  using store_dp [OF assms(1)] store_frame_dp(1) [OF assms(1)] assms(2) by simp_all

lemma strip_shift_ok:
  assumes "strip_shift K (of_nat base) (of_nat len) n (of_nat i) s = (0, t)"
    and "8 \<le> base" and "base + len \<le> length (pkt (skb s))" and "length (pkt (skb s)) < 2 ^ 32"
    and "i \<le> len" and "len \<le> i + n"
  shows "pkt (skb t) = shift_down (pkt (skb s)) (base - 8 + i) (base - 8 + len) \<and>
    mark (skb t) = mark (skb s)"
  using assms
proof (induction n arbitrary: i s)
  case 0
  then show ?case by auto
next
  case (Suc n)
  let ?p = "pkt (skb s)"
  show ?case
  proof (cases "i = len")
    case True
    then show ?thesis using Suc.prems by auto
  next
    case False
    then have i: "i < len" "\<not> (of_nat len \<le> (of_nat i :: u32))"
      using Suc.prems by (simp_all add: u32_le)
    obtain rc b u rc' v where ld: "bpf_skb_load_bytes K (of_nat (base + i)) 1 s = (rc, b, u)"
      and sto: "bpf_skb_store_bytes K (of_nat (base - 8 + i)) b 0 u = (rc', v)"
      by (metis prod_cases3 prod.exhaust)
    have step: "(if rc \<noteq> 0 then (1, u) else if rc' \<noteq> 0 then (1, v)
        else strip_shift K (of_nat base) (of_nat len) n (of_nat (Suc i)) v) = (0, t)"
      using Suc.prems(1) i(2)
      by (simp only: strip_shift.simps MERIDIAN_GENEVE_OPT_BYTES_def of_nat_numeral
          u32_offsets(1,3) u32_offsets(2) [OF Suc.prems(2)] ld sto Let_def prod.case if_False)
    then have rc: "rc = 0" "rc' = 0" by (simp_all split: if_splits)
    note load = ld [unfolded rc] and store = sto [unfolded rc]
    have loop: "strip_shift K (of_nat base) (of_nat len) n (of_nat (Suc i)) v = (0, t)"
      using step rc by simp
    have off: "base + i < 2 ^ 32" "base - 8 + i < 2 ^ 32" using Suc.prems(3,4) i by simp_all
    note b = load_at(2) [OF load off(1)] and u = load_at(3) [OF load off(1)]
    have v: "pkt (skb v) = overwrite ?p (base - 8 + i) b" "mark (skb v) = mark (skb s)"
      using store_at(2,3) [OF store off(2)] u by simp_all
    have len_b: "length b = 1" using b Suc.prems(3) i by simp
    have "pkt (skb t) = shift_down (pkt (skb v)) (base - 8 + Suc i) (base - 8 + len) \<and>
        mark (skb t) = mark (skb v)"
      using Suc.IH [OF loop Suc.prems(2)] v Suc.prems(2-6) i len_b by simp
    moreover have "shift_down (pkt (skb v)) (base - 8 + Suc i) (base - 8 + len) =
        shift_down ?p (base - 8 + i) (base - 8 + len)"
      using shift_down_step [of "base - 8 + i" "base - 8 + len" ?p] Suc.prems(2-3) i b v(1)
      by (simp add: ac_simps)
    ultimately show ?thesis using v(2) by simp
  qed
qed

lemma head_shift_done:
  "room \<le> i \<Longrightarrow> i + n < 2 ^ 32 \<Longrightarrow> head_shift K (of_nat room) n (of_nat i) s = (0, s)"
proof (induction n arbitrary: i)
  case (Suc n)
  then have "\<not> (of_nat i < (of_nat room :: u32))" by (simp add: u32_less)
  then show ?case using Suc.IH [of "Suc i"] Suc.prems by (simp add: u32_offsets(3))
qed simp

lemma head_shift_ok:
  assumes "head_shift K (of_nat room) n (of_nat i) s = (0, t)"
    and "room + 8 \<le> length (pkt (skb s))" and "length (pkt (skb s)) < 2 ^ 32"
    and "i \<le> room" and "room \<le> i + n" and "i + n < 2 ^ 32"
  shows "pkt (skb t) = shift_down (pkt (skb s)) i room \<and> mark (skb t) = mark (skb s)"
  using assms
proof (induction n arbitrary: i s)
  case 0
  then show ?case by auto
next
  case (Suc n)
  let ?p = "pkt (skb s)"
  show ?case
  proof (cases "i = room")
    case True
    then show ?thesis using Suc.prems head_shift_done [of room i "Suc n" s] by simp
  next
    case False
    then have i: "i < room" "of_nat i < (of_nat room :: u32)"
      using Suc.prems by (simp_all add: u32_less)
    obtain rc b u rc' v where ld: "bpf_skb_load_bytes K (of_nat (8 + i)) 1 s = (rc, b, u)"
      and sto: "bpf_skb_store_bytes K (of_nat i) b 0 u = (rc', v)"
      by (metis prod_cases3 prod.exhaust)
    have step: "(if rc \<noteq> 0 then (1, u) else if rc' \<noteq> 0 then (1, v)
        else head_shift K (of_nat room) n (of_nat (Suc i)) v) = (0, t)"
      using Suc.prems(1) i(2)
      by (simp only: head_shift.simps MERIDIAN_GENEVE_OPT_BYTES_def of_nat_numeral
          u32_offsets(3,4) ld sto Let_def prod.case if_True)
    then have rc: "rc = 0" "rc' = 0" by (simp_all split: if_splits)
    note load = ld [unfolded rc] and store = sto [unfolded rc]
    have loop: "head_shift K (of_nat room) n (of_nat (Suc i)) v = (0, t)"
      using step rc by simp
    have off: "8 + i < 2 ^ 32" "i < 2 ^ 32" using Suc.prems(2,3) i by simp_all
    note b = load_at(2) [OF load off(1)] and u = load_at(3) [OF load off(1)]
    have v: "pkt (skb v) = overwrite ?p i b" "mark (skb v) = mark (skb s)"
      using store_at(2,3) [OF store off(2)] u by simp_all
    have len_b: "length b = 1" using b Suc.prems(2) i by simp
    have "pkt (skb t) = shift_down (pkt (skb v)) (Suc i) room \<and> mark (skb t) = mark (skb v)"
      using Suc.IH [OF loop] v Suc.prems(2-6) i len_b by simp
    then show ?thesis
      using shift_down_step [of i room ?p] Suc.prems(2) i b v by (simp add: add.commute)
  qed
qed

end

section \<open>Successful runs, step by step\<close>

lemma strip_zeroE:
  assumes "strip_meridian_tlv K ba oi ud ge s = (0, t)"
  obtains s0 s1 s2 s3 s4 s5 s6 g l1 l2 where "bpf_skb_pull_data K (skb_len (skb s)) s = (0, s0)"
    "8 \<le> ba" "ba \<le> skb_len (skb s0)" "skb_len (skb s0) - ba \<le> 256"
    "strip_shift K ba (skb_len (skb s0) - ba) 256 0 s0 = (0, s1)"
    "bpf_skb_load_bytes K ge 1 s1 = (0, g, s2)"
    "bpf_skb_store_bytes K ge [g ! 0 AND 0xc0] 0 s2 = (0, s3)"
    "bpf_skb_load_bytes K (oi + 2) 2 s3 = (0, l1, s4)"
    "bpf_skb_store_bytes K (oi + 2) (bytes16 (bpf_htons (bpf_ntohs (w16 l1 0) - 8)))
       BPF_F_RECOMPUTE_CSUM s4 = (0, s5)"
    "bpf_skb_load_bytes K (ud + 4) 2 s5 = (0, l2, s6)"
    "bpf_skb_store_bytes K (ud + 4) (bytes16 (bpf_htons (bpf_ntohs (w16 l2 0) - 8))) 0 s6 = (0, t)"
  using assms that
  by (auto simp: strip_meridian_tlv_def Let_def not_less split: prod.splits if_splits)

lemma insert_zeroE:
  assumes "insert_inner_tlv_room K room oi ud ob s = (0, t)"
  obtains s0 s1 s2 where "bpf_skb_pull_data K (skb_len (skb s)) s = (0, s0)"
    "room < skb_len (skb s0)" "oi < room" "room \<le> 80"
    "bpf_skb_change_head K 8 0 s0 = (0, s1)"
    "bpf_skb_pull_data K (skb_len (skb s1)) s1 = (0, s2)"
    "head_shift K room 80 0 s2 = (0, t)"
  using assms that
  by (auto simp: insert_inner_tlv_room_def Let_def not_less not_le split: prod.splits if_splits)

lemma stamp_zeroE:
  assumes "stamp_identity_tlv K so ge ow i s = (0, t)"
  obtains s0 s1 g where "bpf_skb_store_bytes K so (identity_tlv i) 0 s = (0, s0)"
    "bpf_skb_load_bytes K ge 1 s0 = (0, g, s1)"
    "bpf_skb_store_bytes K ge [(g ! 0 AND 0xc0) OR of_nat (ow + 2)] 0 s1 = (0, t)"
  using assms that
  by (auto simp: stamp_identity_tlv_def identity_tlv_def Let_def split: prod.splits if_splits)

lemma bump_zeroE:
  assumes "bump_udp_geneve_lengths K oi ud s = (0, t)"
  obtains s0 s1 s2 s3 s4 s5 l1 l2 c where "bpf_skb_pull_data K (skb_len (skb s)) s = (0, s0)"
    "bpf_skb_load_bytes K (oi + 2) 2 s0 = (0, l1, s1)"
    "bpf_skb_store_bytes K (oi + 2) (bytes16 (bpf_htons (ucast (skb_len (skb s0) - oi))))
       BPF_F_RECOMPUTE_CSUM s1 = (0, s2)"
    "bpf_skb_load_bytes K (ud + 4) 2 s2 = (0, l2, s3)"
    "bpf_skb_store_bytes K (ud + 4) (bytes16 (bpf_htons (ucast (skb_len (skb s2) - ud)))) 0 s3 = (0, s4)"
    "bpf_skb_load_bytes K (ud + 6) 2 s4 = (0, c, s5)" "w16 c 0 = 0 \<Longrightarrow> t = s5"
  using assms that
  by (auto simp: bump_udp_geneve_lengths_def Let_def split: prod.splits if_splits)

section \<open>What the functions do to the frame\<close>

text \<open>The frame keeps its length, its mark and every byte outside \<open>A\<close>.\<close>

definition frame_same :: "nat set \<Rightarrow> 'w dp \<Rightarrow> 'w dp \<Rightarrow> bool" where
  "frame_same A s t \<longleftrightarrow>
     mark (skb t) = mark (skb s) \<and> length (pkt (skb t)) = length (pkt (skb s)) \<and>
     (\<forall>i < length (pkt (skb s)). i \<notin> A \<longrightarrow> pkt (skb t) ! i = pkt (skb s) ! i)"

lemma frame_same_trans [trans]: "frame_same A s t \<Longrightarrow> frame_same A t u \<Longrightarrow> frame_same A s u"
  by (simp add: frame_same_def)

lemma frame_same_refl [simp]: "frame_same A s s"
  by (simp add: frame_same_def)

definition strip_frame :: "byte list \<Rightarrow> nat \<Rightarrow> nat \<Rightarrow> nat \<Rightarrow> nat \<Rightarrow> byte list" where
  "strip_frame p outer udp geneve base =
     (let q = shift_down p (base - 8) (length p - 8);
          q = overwrite q geneve [q ! geneve AND 0xc0];
          q = overwrite q (outer + 2) (bytes16 (bpf_htons (bpf_ntohs (w16 q (outer + 2)) - 8)))
      in overwrite q (udp + 4) (bytes16 (bpf_htons (bpf_ntohs (w16 q (udp + 4)) - 8))))"

lemma w16_slice: "off + 2 \<le> length p \<Longrightarrow> w16 (slice_of p off 2) 0 = w16 p off"
  by (simp add: w16_def slice_of_def)

lemma nth_slice1: "off + 1 \<le> length p \<Longrightarrow> slice_of p off 1 ! 0 = p ! off"
  by (simp add: slice_of_def)

context skb_helpers
begin

lemma pull_same: "bpf_skb_pull_data K n s = (rc, t) \<Longrightarrow> frame_same A s t"
  using pull_frame by (fastforce simp: bpf_skb_pull_data_def frame_same_def split: prod.splits)

lemma load_same: "bpf_skb_load_bytes K off l s = (rc, bs, t) \<Longrightarrow> frame_same A s t"
  using skb_helper_footprint(6) by (fastforce simp: frame_same_def)

lemma store_same:
  assumes "bpf_skb_store_bytes K off bs fl s = (rc, t)"
    and "{unat off ..< unat off + length bs} \<subseteq> A"
  shows "frame_same A s t"
proof (cases "rc = 0")
  case True
  then show ?thesis
    using assms store_dp [of off bs fl s t] store_frame_dp(1) [OF assms(1)]
    by (auto simp: frame_same_def nth_overwrite subset_iff)
next
  case False
  then show ?thesis
    using assms(1) store_fail store_frame_dp(1) [OF assms(1)]
    by (fastforce simp: frame_same_def bpf_skb_store_bytes_def split: prod.splits)
qed

lemma csum_same:
  assumes "bpf_l4_csum_replace K off old new fl s = (rc, t)" and "{unat off, unat off + 1} \<subseteq> A"
  shows "frame_same A s t"
proof -
  obtain b w where "k_l4_csum_replace K (world s) (skb s) off old new fl = (rc, b, w)"
    "t = s\<lparr>skb := b, world := w\<rparr>"
    using assms(1) by (auto simp: bpf_l4_csum_replace_def split: prod.splits)
  then show ?thesis using csum_frame [of "world s" "skb s" off old new fl rc b w] assms(2)
    by (auto simp: frame_same_def)
qed

lemma pull_pkt: "bpf_skb_pull_data K n s = (rc, t) \<Longrightarrow> pkt (skb t) = pkt (skb s) \<and> mark (skb t) = mark (skb s)"
  using pull_frame by (fastforce simp: bpf_skb_pull_data_def split: prod.splits)

lemma load_pkt:
  assumes "bpf_skb_load_bytes K off l s = (0, bs, t)"
  shows "unat off + l \<le> length (pkt (skb s))" "bs = slice_of (pkt (skb s)) (unat off) l"
    "skb t = skb s"
  using load_dp [OF assms] skb_helper_footprint(6) [OF assms] by simp_all

lemma store_pkt:
  assumes "bpf_skb_store_bytes K off bs fl s = (0, t)"
  shows "unat off + length bs \<le> length (pkt (skb s))"
    "pkt (skb t) = overwrite (pkt (skb s)) (unat off) bs" "mark (skb t) = mark (skb s)"
    "length (pkt (skb t)) = length (pkt (skb s))"
  using store_dp [OF assms] store_frame_dp(1,3) [OF assms] by simp_all

end

context skb_helpers
begin

lemma strip_ok:
  assumes "strip_meridian_tlv K ba oi ud ge s = (0, t)" and len: "length (pkt (skb s)) < 2 ^ 31"
    and "unat oi + 2 < 2 ^ 32" and "unat ud + 4 < 2 ^ 32"
  shows "pkt (skb t) = strip_frame (pkt (skb s)) (unat oi) (unat ud) (unat ge) (unat ba)"
    "mark (skb t) = mark (skb s)"
    "8 \<le> unat ba" "unat ba \<le> length (pkt (skb s))"
proof -
  let ?p = "pkt (skb s)"
  from assms(1) obtain s0 s1 s2 s3 s4 s5 s6 g l1 l2 where
    st: "bpf_skb_pull_data K (skb_len (skb s)) s = (0, s0)"
    "8 \<le> ba" "ba \<le> skb_len (skb s0)"
    "strip_shift K ba (skb_len (skb s0) - ba) 256 0 s0 = (0, s1)"
    "bpf_skb_load_bytes K ge 1 s1 = (0, g, s2)"
    "bpf_skb_store_bytes K ge [g ! 0 AND 0xc0] 0 s2 = (0, s3)"
    "bpf_skb_load_bytes K (oi + 2) 2 s3 = (0, l1, s4)"
    "bpf_skb_store_bytes K (oi + 2) (bytes16 (bpf_htons (bpf_ntohs (w16 l1 0) - 8)))
       BPF_F_RECOMPUTE_CSUM s4 = (0, s5)"
    "bpf_skb_load_bytes K (ud + 4) 2 s5 = (0, l2, s6)"
    "bpf_skb_store_bytes K (ud + 4) (bytes16 (bpf_htons (bpf_ntohs (w16 l2 0) - 8))) 0 s6 = (0, t)"
    and lim: "skb_len (skb s0) - ba \<le> 256"
    by (rule strip_zeroE)
  have p0: "pkt (skb s0) = ?p" "mark (skb s0) = mark (skb s)" using pull_pkt [OF st(1)] by simp_all
  have slen: "unat (skb_len (skb s0)) = length ?p" using len by (simp add: unat_skb_len p0)
  show ba: "8 \<le> unat ba" "unat ba \<le> length ?p"
    using st(2,3) slen by (simp_all add: word_le_nat_alt)
  have dl: "unat (skb_len (skb s0) - ba) = length ?p - unat ba"
    using st(3) slen by (simp add: unat_sub word_le_nat_alt)
  have "length ?p - unat ba \<le> 256" using lim dl by (simp add: word_le_nat_alt)
  moreover have "strip_shift K (of_nat (unat ba)) (of_nat (length ?p - unat ba)) 256 (of_nat 0) s0 = (0, s1)"
    using st(4) by (simp add: dl [symmetric])
  ultimately have p1: "pkt (skb s1) = shift_down ?p (unat ba - 8) (length ?p - 8)"
    "mark (skb s1) = mark (skb s)"
    using strip_shift_ok [of "unat ba" "length ?p - unat ba" 256 0 s0 s1] ba len p0 by simp_all
  let ?q = "shift_down ?p (unat ba - 8) (length ?p - 8)"
  have lq: "length ?q = length ?p" using ba by simp
  note g = load_pkt [OF st(5)] and p3 = store_pkt [OF st(6)] and l1 = load_pkt [OF st(7)]
    and p5 = store_pkt [OF st(8)] and l2 = load_pkt [OF st(9)] and pt = store_pkt [OF st(10)]
  have off: "unat (oi + 2) = unat oi + 2" "unat (ud + 4) = unat ud + 4"
    using assms(3,4) unat_u32_add by blast+
  define q1 where "q1 = overwrite ?q (unat ge) [?q ! unat ge AND 0xc0]"
  have q1: "pkt (skb s3) = q1" using p3(2) g p1 by (simp add: q1_def nth_slice1 slice_of_def)
  define q2 where "q2 = overwrite q1 (unat oi + 2) (bytes16 (bpf_htons (bpf_ntohs (w16 q1 (unat oi + 2)) - 8)))"
  have q2: "pkt (skb s5) = q2"
    using p5(2) l1 off by (simp add: q2_def q1 w16_slice)
  have "pkt (skb t) = overwrite q2 (unat ud + 4) (bytes16 (bpf_htons (bpf_ntohs (w16 q2 (unat ud + 4)) - 8)))"
    using pt(2) l2 off by (simp add: q2 w16_slice)
  then show "pkt (skb t) = strip_frame ?p (unat oi) (unat ud) (unat ge) (unat ba)"
    by (simp add: strip_frame_def q2_def q1_def Let_def)
  show "mark (skb t) = mark (skb s)"
    using pt(3) l2(3) p5(3) l1(3) p3(3) g(3) p1(2) by simp
qed

lemma stamp_ok:
  assumes "stamp_identity_tlv K so ge ow i s = (0, t)"
    and q: "q = overwrite (pkt (skb s)) (unat so) (identity_tlv i)"
  shows "pkt (skb t) = overwrite q (unat ge) [(q ! unat ge AND 0xc0) OR of_nat (ow + 2)]"
    "mark (skb t) = mark (skb s)" "unat so + 8 \<le> length (pkt (skb s))"
    "unat ge < length (pkt (skb s))"
proof -
  from assms(1) obtain s0 s1 g where
    st: "bpf_skb_store_bytes K so (identity_tlv i) 0 s = (0, s0)"
    "bpf_skb_load_bytes K ge 1 s0 = (0, g, s1)"
    "bpf_skb_store_bytes K ge [(g ! 0 AND 0xc0) OR of_nat (ow + 2)] 0 s1 = (0, t)"
    by (rule stamp_zeroE)
  note p0 = store_pkt [OF st(1)] and g = load_pkt [OF st(2)] and pt = store_pkt [OF st(3)]
  show "unat so + 8 \<le> length (pkt (skb s))" "unat ge < length (pkt (skb s))"
    "mark (skb t) = mark (skb s)"
    using p0 g pt by simp_all
  show "pkt (skb t) = overwrite q (unat ge) [(q ! unat ge AND 0xc0) OR of_nat (ow + 2)]"
    using pt(2) g p0(2) by (simp add: q nth_slice1 slice_of_def)
qed

lemma insert_ok:
  assumes "insert_inner_tlv_room K room oi ud ob s = (0, t)" and len: "length (pkt (skb s)) < 2 ^ 31"
  shows "\<exists>x. length x = 8 \<and>
      pkt (skb t) = take (unat room) (pkt (skb s)) @ x @ drop (unat room) (pkt (skb s))"
    "mark (skb t) = mark (skb s)" "unat room < length (pkt (skb s))" "unat room \<le> 80"
proof -
  let ?p = "pkt (skb s)"
  from assms(1) obtain s0 s1 s2 where st: "bpf_skb_pull_data K (skb_len (skb s)) s = (0, s0)"
    "room < skb_len (skb s0)" "room \<le> 80"
    "bpf_skb_change_head K 8 0 s0 = (0, s1)"
    "bpf_skb_pull_data K (skb_len (skb s1)) s1 = (0, s2)"
    "head_shift K room 80 0 s2 = (0, t)" by (rule insert_zeroE)
  have p0: "pkt (skb s0) = ?p" "mark (skb s0) = mark (skb s)" using pull_pkt [OF st(1)] by simp_all
  show room: "unat room < length ?p" "unat room \<le> 80"
    using st(2,3) len by (simp_all add: word_less_nat_alt word_le_nat_alt unat_skb_len p0)
  obtain hd where hd: "length hd = 8" "pkt (skb s1) = hd @ ?p" using head_dp [OF st(4)] p0 by auto
  have m1: "mark (skb s1) = mark (skb s)"
    using st(4) head_frame p0(2) by (fastforce simp: bpf_skb_change_head_def split: prod.splits)
  have p2: "pkt (skb s2) = hd @ ?p" "mark (skb s2) = mark (skb s)"
    using pull_pkt [OF st(5)] hd(2) m1 by simp_all
  have "head_shift K (of_nat (unat room)) 80 (of_nat 0) s2 = (0, t)" using st(6) by simp
  then have pt: "pkt (skb t) = shift_down (hd @ ?p) 0 (unat room)" "mark (skb t) = mark (skb s)"
    using head_shift_ok [of "unat room" 80 0 s2 t] room hd(1) len p2 by simp_all
  show "mark (skb t) = mark (skb s)" by (rule pt(2))
  let ?x = "take 8 (drop (unat room) (hd @ ?p))"
  have "drop (8 + unat room) (hd @ ?p) = drop (unat room) ?p" using hd(1) by simp
  then have "drop 8 (drop (unat room) (hd @ ?p)) = drop (unat room) ?p" by (simp only: drop_drop)
  then have "drop (unat room) (hd @ ?p) = ?x @ drop (unat room) ?p"
    using append_take_drop_id [of 8 "drop (unat room) (hd @ ?p)"] by metis
  then have "pkt (skb t) = take (unat room) ?p @ ?x @ drop (unat room) ?p"
    using pt(1) hd(1) room by (simp add: shift_down_def slice_of_def)
  moreover have "length ?x = 8" using hd(1) room by simp
  ultimately show "\<exists>x. length x = 8 \<and>
      pkt (skb t) = take (unat room) ?p @ x @ drop (unat room) ?p" by blast
qed

lemma bump_same:
  assumes "bump_udp_geneve_lengths K oi ud s = (rc, t)" and "unat oi + 2 < 2 ^ 32" "unat ud + 4 < 2 ^ 32"
  shows "frame_same {unat oi + 2, unat oi + 3, unat ud, unat ud + 1, unat ud + 4, unat ud + 5} s t"
    (is "frame_same ?A s t")
proof -
  have off: "unat (oi + 2) = unat oi + 2" "unat (ud + 4) = unat ud + 4"
    using assms(2,3) unat_u32_add by blast+
  have A: "{unat (oi + 2) ..< unat (oi + 2) + length (bytes16 x)} \<subseteq> ?A"
    "{unat (ud + 4) ..< unat (ud + 4) + length (bytes16 x)} \<subseteq> ?A" "{unat ud, unat ud + 1} \<subseteq> ?A" for x
    by (auto simp: off)
  show ?thesis
    using assms(1) unfolding bump_udp_geneve_lengths_def Let_def
    by (auto split: if_splits prod.splits
        dest!: pull_same [where A = ?A] load_same [where A = ?A] store_same [OF _ A(1)]
          store_same [OF _ A(2)] csum_same [OF _ A(3)])
       (meson frame_same_trans)+
qed
end

end
