(* ===== verification/Egress_Program.thy ===== *)
theory Egress_Program
  imports Tlv_Editing Demo_Frames Tc_Interface
begin

text \<open>
  The whole of \<open>meridian_tc_egress\<close>. \<open>egress_plan\<close> is what the program intends to do with a
  frame, as a function of the frame and the identity and policy maps alone; \<open>egress_run\<close> carries
  the plan out. The program is shown to compute exactly this, without a load outside the packet.
\<close>

section \<open>The plan for a frame\<close>

datatype egress_plan =
    Forward
  | Refuse flow_key u32 u32
  | Abort "flow_key option" u32 u32
  | Stamp flow_key u32 u32 nat nat nat

text \<open>The egress program only refuses a flow that has an explicit deny rule.\<close>

definition explicit_deny ::
  "(policy_key \<rightharpoonup> policy_verdict) \<Rightarrow> u32 \<Rightarrow> u32 \<Rightarrow> u16 \<Rightarrow> u8 \<Rightarrow> bool" where
  "explicit_deny pol src dst port proto \<longleftrightarrow>
     dst \<noteq> 0 \<and>
     (case pol (ingress_key src dst port proto) of
        None \<Rightarrow> False | Some v \<Rightarrow> pv_action v = FLOW_VERDICT_DENY)"

definition plan_local ::
  "(u32 \<rightharpoonup> u32) \<Rightarrow> (policy_key \<rightharpoonup> policy_verdict) \<Rightarrow> byte list \<Rightarrow> nat \<Rightarrow> egress_plan" where
  "plan_local ids pol p ip =
     (let src = known_id ids (w32 p (ip + 12));
          dst = known_id ids (w32 p (ip + 16));
          (flow, port) = (case l4_ports p ip of
             None \<Rightarrow> (zero_flow, 0) | Some (sp, dp) \<Rightarrow> (packet_flow_key p ip sp dp, dp))
      in if src \<noteq> 0 \<and> explicit_deny pol src dst (bpf_ntohs port) (p ! (ip + 9))
         then Refuse flow src dst else Forward)"

definition plan_inner ::
  "(u32 \<rightharpoonup> u32) \<Rightarrow> (policy_key \<rightharpoonup> policy_verdict) \<Rightarrow> byte list \<Rightarrow> nat \<Rightarrow> nat \<Rightarrow> nat \<Rightarrow> nat \<Rightarrow>
   egress_plan" where
  "plan_inner ids pol p outer count ip room =
     (case l4_ports p ip of
        None \<Rightarrow> Abort None 0 0
      | Some (sp, dp) \<Rightarrow>
          let src = known_id ids (w32 p (ip + 12));
              dst = known_id ids (w32 p (ip + 16));
              flow = packet_flow_key p ip sp dp
          in if src = 0 then Abort (Some flow) 0 dst
             else if explicit_deny pol src dst (bpf_ntohs dp) (p ! (ip + 9)) then Refuse flow src dst
             else Stamp flow src dst outer count room)"

definition plan_geneve ::
  "(u32 \<rightharpoonup> u32) \<Rightarrow> (policy_key \<rightharpoonup> policy_verdict) \<Rightarrow> byte list \<Rightarrow> nat \<Rightarrow> egress_plan" where
  "plan_geneve ids pol p outer =
     (if \<not> geneve_frame p outer then Abort None 0 0
      else case complete_options 4 (slice_of p (geneve_off_at p outer + 8)
                  (opt_bytes_at p (geneve_off_at p outer))) of
             None \<Rightarrow> Abort None 0 0
           | Some opts \<Rightarrow>
               (case ipv4_in_payload p (geneve_payload_at p outer) of
                  None \<Rightarrow> Forward
                | Some (ip, room) \<Rightarrow> plan_inner ids pol p outer (length opts) ip room))"

definition plan_frame ::
  "(u32 \<rightharpoonup> u32) \<Rightarrow> (policy_key \<rightharpoonup> policy_verdict) \<Rightarrow> byte list \<Rightarrow> egress_plan" where
  "plan_frame ids pol p =
     (case ipv4_after_eth p 0 of
        None \<Rightarrow> Forward
      | Some outer \<Rightarrow>
          if geneve_udp p outer then plan_geneve ids pol p outer else plan_local ids pol p outer)"

definition refuse_trace ::
  "'w kernel \<Rightarrow> u64 \<Rightarrow> u32 \<Rightarrow> flow_key \<Rightarrow> u32 \<Rightarrow> u32 \<Rightarrow> u32 \<Rightarrow> 'w dp \<Rightarrow> 'w dp" where
  "refuse_trace K now n flow src dst reason s =
     emit_flow_event K now (fk_src_ip flow) (fk_dst_ip flow) (fk_src_port flow) (fk_dst_port flow)
       (fk_proto flow) FLOW_VERDICT_DENY src dst n
       (metric_add METRIC_FLOWS_DENIED 1 (denied_flow_upsert K flow reason now s))"

definition egress_run ::
  "'w kernel \<Rightarrow> u64 \<Rightarrow> u32 \<Rightarrow> byte list \<Rightarrow> egress_plan \<Rightarrow> 'w dp \<Rightarrow> int \<times> 'w dp" where
  "egress_run K now n p plan s =
     (case plan of
        Forward \<Rightarrow> (TC_ACT_OK, s)
      | Refuse flow src dst \<Rightarrow>
          (TC_ACT_STOLEN, refuse_trace K now n flow src dst DROP_REASON_POLICY_DENY s)
      | Abort flow src dst \<Rightarrow> encap_fail K now n flow src dst s
      | Stamp flow src dst outer count room \<Rightarrow>
          let g = geneve_off_at p outer;
              (rc, t) = egress_stamp K outer (outer + ihl_at p outer * 4) g (geneve_payload_at p outer)
                          (unat (p ! g AND 0x3f)) count room src s
          in if rc \<noteq> 0 then encap_fail K now n (Some flow) src dst t else (TC_ACT_OK, t))"

section \<open>The program computes the plan\<close>

lemma egress_local_eq:
  assumes ip: "ipv4_at d ip"
  shows "egress_local K d ip n now s =
    Some (egress_run K now n d (plan_local (identity_map s) (policy_map s) d ip) s)"
proof -
  obtain flow port where fp: "(case l4_ports d ip of
      None \<Rightarrow> (zero_flow, 0) | Some (sp, dp) \<Rightarrow> (packet_flow_key d ip sp dp, dp)) = (flow, port)"
    by fastforce
  have fp': "(case l4_ports d ip of None \<Rightarrow> (zero_flow, 0)
      | Some (sp, dp) \<Rightarrow> (\<lparr>fk_src_ip = w32 d (ip + 12), fk_dst_ip = w32 d (ip + 16),
         fk_src_port = sp, fk_dst_port = dp, fk_proto = d ! (ip + 9), fk_pad_0 = 0, fk_pad_1 = 0,
         fk_pad_2 = 0\<rparr>, dp)) = (flow, port)"
    using fp unfolding packet_flow_key_def .
  show ?thesis
    unfolding egress_local_def plan_local_def
    by (simp add: ipv4_at_loads [OF ip] ip fp fp' known_id_def explicit_deny_def ingress_key_def
        egress_run_def refuse_trace_def Let_def split: option.splits)
qed

lemma egress_flow_eq:
  assumes ip: "ipv4_at d ip" and base: "base = geneve_payload_at d outer"
    and words: "words = unat (d ! geneve_off_at d outer AND 0x3f)"
  shows "egress_flow K d outer (outer + ihl_at d outer * 4) (geneve_off_at d outer) base words count
      ip room n now s =
    Some (egress_run K now n d (plan_inner (identity_map s) (policy_map s) d outer count ip room) s)"
proof (cases "l4_ports d ip")
  case None
  then show ?thesis by (simp add: egress_flow_def ip plan_inner_def egress_run_def)
next
  case (Some ports)
  obtain sp dp where sp: "ports = (sp, dp)" by (cases ports)
  show ?thesis
    unfolding egress_flow_def plan_inner_def
    by (simp add: ip ipv4_at_loads [OF ip] Some sp known_id_def explicit_deny_def ingress_key_def
        packet_flow_key_def egress_run_def refuse_trace_def base words Let_def
        split: option.splits prod.splits)
qed

lemma egress_geneve_eq:
  assumes udp: "geneve_udp d outer"
  shows "egress_geneve K d outer (outer + ihl_at d outer * 4) n now s =
    Some (egress_run K now n d (plan_geneve (identity_map s) (policy_map s) d outer) s)"
proof -
  let ?g = "geneve_off_at d outer"
  have g: "outer + ihl_at d outer * 4 + sizeof_udphdr = ?g" by (simp add: geneve_off_at_def)
  show ?thesis
  proof (cases "geneve_frame d outer")
    case False
    then show ?thesis
      using udp unfolding egress_geneve_def g
      by (auto simp: geneve_frame_def geneve_payload_at_def opt_bytes_at_def plan_geneve_def
          egress_run_def load_simps Let_def)
  next
    case True
    then have fits: "?g + 8 \<le> length d" "drop_bit 6 (d ! ?g) = 0" "opt_bytes_at d ?g \<le> 32"
      "?g + 8 + opt_bytes_at d ?g \<le> length d"
      by (simp_all add: geneve_frame_def geneve_payload_at_def)
    have w: "unat (d ! ?g AND 0x3f) * 4 = opt_bytes_at d ?g" by (simp add: opt_bytes_at_def)
    have count: "parse_geneve_option_count d (?g + 8) (opt_bytes_at d ?g) =
        Some (map_option length (complete_options 4 (slice_of d (?g + 8) (opt_bytes_at d ?g))))"
      by (rule parse_geneve_option_count_eq) (rule fits(4))
    have base: "?g + 8 + opt_bytes_at d ?g = geneve_payload_at d outer"
      by (simp add: geneve_payload_at_def)
    have inside: "(length d < ?g + 8) = False" "(length d < geneve_payload_at d outer) = False"
      using fits(1,4) base by simp_all
    have g0: "rd8 d ?g = Some (d ! ?g)" using fits(1) by (simp add: load_simps)
    have small: "\<not> MERIDIAN_MAX_GENEVE_OPT_WORDS < unat (d ! ?g AND 0x3f)"
      using fits(3) by (simp add: opt_bytes_at_def)
    show ?thesis
    proof (cases "ipv4_in_payload d (geneve_payload_at d outer)")
      case None
      then show ?thesis
        unfolding egress_geneve_def g
        using fits small True
        by (simp add: g0 w count base inside plan_geneve_def egress_run_def Let_def
            split: option.splits)
    next
      case (Some r)
      obtain ip room where r: "r = (ip, room)" by (cases r)
      note flow = egress_flow_eq [OF ipv4_in_payload_at [OF Some [unfolded r]] refl refl,
          where K = K and room = room and n = n and now = now and s = s]
      show ?thesis
        unfolding egress_geneve_def g
        using fits small True
        by (simp add: g0 w count base inside plan_geneve_def egress_run_def Some r flow Let_def
            split: option.splits)
    qed
  qed
qed

text \<open>The state of the program when it starts to parse, after the clock and the pull.\<close>

definition egress_start :: "'w kernel \<Rightarrow> 'w dp \<Rightarrow> int \<times> 'w dp" where
  "egress_start K s =
     (let (now_ns, s) = bpf_ktime_get_ns K s in bpf_skb_pull_data K (skb_len (skb s)) s)"

lemma egress_start_footprint:
  assumes "egress_start K s = (rc, u)"
  shows "skb_only s u"
proof -
  have "skb_only s (s\<lparr>world := w\<rparr>)" for w by (simp add: skb_only_def)
  then show ?thesis
    using assms skb_only_trans skb_helper_footprint(1)
    by (fastforce simp: egress_start_def bpf_ktime_get_ns_def split: prod.splits)
qed

lemma egress_eq:
  assumes "egress_start K s = (rc, u)" and "now = fst (k_ktime_get_ns K (world s))"
  shows "meridian_tc_egress K s =
    Some (if rc \<noteq> 0 then (TC_ACT_OK, u)
          else egress_run K now (skb_len (skb s)) (skb_data (skb u))
                 (plan_frame (identity_map s) (policy_map s) (skb_data (skb u))) u)"
proof -
  note maps = skb_onlyD(2,3) [OF egress_start_footprint [OF assms(1)]]
  let ?d = "skb_data (skb u)"
  have prog: "meridian_tc_egress K s =
    (if rc \<noteq> 0 then Some (TC_ACT_OK, u)
     else case ipv4_after_eth ?d 0 of
            None \<Rightarrow> Some (TC_ACT_OK, u)
          | Some ip \<Rightarrow>
              if geneve_udp ?d ip
              then egress_geneve K ?d ip (ip + ihl_at ?d ip * 4) (skb_len (skb s)) now u
              else egress_local K ?d ip (skb_len (skb s)) now u)"
  proof (cases "rc = 0 \<and> ipv4_after_eth ?d 0 \<noteq> None")
    case True
    then obtain o' where o: "ipv4_after_eth ?d 0 = Some o'" by auto
    note ip = ipv4_after_eth_at [OF o]
    have dest: "o' + ihl_at ?d o' * 4 + 8 \<le> length ?d \<Longrightarrow>
      udp_dest ?d (o' + ihl_at ?d o' * 4) = Some (w16 ?d (o' + ihl_at ?d o' * 4 + 2))"
      by (simp add: udp_dest_def load_simps)
    show ?thesis
      using assms True ipv4_at_ihl [OF ip] o dest
      by (auto simp: meridian_tc_egress_def egress_start_def bpf_ktime_get_ns_def Let_def
          ipv4_at_loads [OF ip] geneve_udp_def geneve_off_at_def split: prod.splits)
  qed (use assms in \<open>auto simp: meridian_tc_egress_def egress_start_def bpf_ktime_get_ns_def Let_def
        split: prod.splits option.splits\<close>)
  show ?thesis
    unfolding prog plan_frame_def
    by (auto simp: egress_geneve_eq egress_local_eq ipv4_after_eth_at egress_run_def maps
        split: option.splits)
qed

section \<open>Footprints\<close>

lemma head_shift_footprint: "head_shift K room n i s = (rc, t) \<Longrightarrow> skb_only s t"
proof (induction n arbitrary: i s)
  case (Suc n)
  then show ?case
    by (auto simp: Let_def split: if_splits prod.splits dest!: skb_helper_footprint(1-5) Suc.IH)
       (meson skb_only_trans)+
qed simp

lemma insert_footprint: "insert_inner_tlv_room K a b c d s = (rc, t) \<Longrightarrow> skb_only s t"
  unfolding insert_inner_tlv_room_def Let_def
  by (auto split: if_splits prod.splits dest!: skb_helper_footprint(1-5) head_shift_footprint)
     (meson skb_only_trans)+

lemma bump_footprint: "bump_udp_geneve_lengths K a b s = (rc, t) \<Longrightarrow> skb_only s t"
  unfolding bump_udp_geneve_lengths_def Let_def
  by (auto split: if_splits prod.splits dest!: skb_helper_footprint(1-5)) (meson skb_only_trans)+

lemma stamp_footprint: "stamp_identity_tlv K a b c d s = (rc, t) \<Longrightarrow> skb_only s t"
  unfolding stamp_identity_tlv_def Let_def
  by (auto split: if_splits prod.splits dest!: skb_helper_footprint(1-5)) (meson skb_only_trans)+

lemma egress_stamp_footprint: "egress_stamp K a b c d e f g h s = (rc, t) \<Longrightarrow> skb_only s t"
  unfolding egress_stamp_def Let_def
  by (auto split: if_splits prod.splits
      dest!: insert_footprint bump_footprint stamp_footprint) (meson skb_only_trans)+

text \<open>Refusing and failing only write telemetry.\<close>

lemma refuse_trace_view: "enforcement_view (refuse_trace K now n flow src dst r s) = enforcement_view s"
  by (simp add: refuse_trace_def)

lemma encap_fail_eq:
  "encap_fail K now n flow src dst s =
     (if failopen_unknown_enabled s then (TC_ACT_OK, metric_add METRIC_GENEVE_ENCAP_FAIL 1 s)
      else (TC_ACT_SHOT,
            case flow of
              None \<Rightarrow> metric_add METRIC_GENEVE_ENCAP_FAIL 1 s
            | Some fl \<Rightarrow> refuse_trace K now n fl src dst DROP_REASON_GENEVE_ENCAP_FAIL
                           (metric_add METRIC_GENEVE_ENCAP_FAIL 1 s)))"
proof -
  have "failopen_unknown_enabled (metric_add i x s) = failopen_unknown_enabled s" for i x
    by (simp only: failopen_unknown_enabled_def enforcement_viewD(4) [OF tceg.add_view])
  then show ?thesis
    by (simp add: encap_fail_def refuse_trace_def Let_def split: option.splits)
qed

lemma encap_fail_view: "enforcement_view (snd (encap_fail K now n flow src dst s)) = enforcement_view s"
  by (simp add: encap_fail_eq refuse_trace_view split: option.splits)

lemma egress_run_frame:
  assumes "egress_run K now n p plan s = (act, t)"
  shows "config_of t = config_of s" "sockhash t = sockhash s"
    "udp_seen_flows_map t = udp_seen_flows_map s"
    "act \<in> {TC_ACT_OK, TC_ACT_SHOT, TC_ACT_STOLEN}"
proof -
  have "config_of t = config_of s \<and> sockhash t = sockhash s \<and>
      udp_seen_flows_map t = udp_seen_flows_map s \<and> act \<in> {TC_ACT_OK, TC_ACT_SHOT, TC_ACT_STOLEN}"
  proof (cases plan)
    case Forward
    then show ?thesis using assms by (simp add: egress_run_def)
  next
    case (Refuse flow src dst)
    then show ?thesis
      using assms enforcement_viewD [OF refuse_trace_view] by (auto simp: egress_run_def)
  next
    case (Abort flow src dst)
    then show ?thesis
      using assms enforcement_viewD [OF encap_fail_view, of K now n flow src dst s]
      by (auto simp: egress_run_def encap_fail_eq split: if_splits)
  next
    case (Stamp flow src dst outer count room)
    let ?g = "geneve_off_at p outer"
    obtain rc u where u: "egress_stamp K outer (outer + ihl_at p outer * 4) ?g
        (geneve_payload_at p outer) (unat (p ! ?g AND 0x3f)) count room src s = (rc, u)"
      by fastforce
    note f = skb_onlyD [OF egress_stamp_footprint [OF u]]
    show ?thesis
      using assms Stamp u f enforcement_viewD [OF encap_fail_view, of K now n "Some flow" src dst u]
      by (auto simp: egress_run_def encap_fail_eq split: if_splits)
  qed
  then show "config_of t = config_of s" "sockhash t = sockhash s"
    "udp_seen_flows_map t = udp_seen_flows_map s"
    "act \<in> {TC_ACT_OK, TC_ACT_SHOT, TC_ACT_STOLEN}" by simp_all
qed

section \<open>Properties of the program\<close>

lemma egress_returns:
  "\<exists>act t. meridian_tc_egress K s = Some (act, t) \<and>
     act \<in> {TC_ACT_OK, TC_ACT_SHOT, TC_ACT_STOLEN} \<and> config_of t = config_of s \<and>
     sockhash t = sockhash s \<and> udp_seen_flows_map t = udp_seen_flows_map s"
proof -
  obtain rc u where st: "egress_start K s = (rc, u)" by (cases "egress_start K s")
  note u = skb_onlyD [OF egress_start_footprint [OF st]]
  obtain act t where run: "egress_run K (fst (k_ktime_get_ns K (world s))) (skb_len (skb s))
      (skb_data (skb u)) (plan_frame (identity_map s) (policy_map s) (skb_data (skb u))) u = (act, t)"
    by fastforce
  show ?thesis
    using egress_run_frame [OF run] u by (cases "rc = 0") (simp_all add: egress_eq [OF st refl] run)
qed

interpretation egress_tc: tc_program meridian_tc_egress
  using egress_returns by unfold_locales blast

text \<open>
  C7. Memory safety and totality of the egress program: for every frame, every map content and
  every kernel behaviour it performs no packet access outside \<open>[data, data_end)\<close>, returns, and
  returns \<open>TC_ACT_OK\<close>, \<open>TC_ACT_SHOT\<close> or \<open>TC_ACT_STOLEN\<close>; the configuration maps, the socket map
  and the seen-flows map of the ingress program are unchanged.
\<close>

theorem egress_memory_safe:
  "\<exists>act t. meridian_tc_egress K s = Some (act, t) \<and>
     act \<in> {TC_ACT_OK, TC_ACT_SHOT, TC_ACT_STOLEN} \<and> config_of t = config_of s \<and>
     sockhash t = sockhash s \<and> udp_seen_flows_map t = udp_seen_flows_map s"
  by (rule egress_returns)

lemma egress_start_pkt:
  assumes "skb_helpers K" and "egress_start K s = (rc, u)" and "length (pkt (skb s)) < 2 ^ 32"
  shows "rc = 0 \<Longrightarrow> skb_data (skb u) = pkt (skb s)" "pkt (skb u) = pkt (skb s)"
    "mark (skb u) = mark (skb s)"
proof -
  obtain v where v: "bpf_skb_pull_data K (skb_len (skb v)) v = (rc, u)" "skb v = skb s"
    using assms(2) by (auto simp: egress_start_def bpf_ktime_get_ns_def split: prod.splits)
  note pull = skb_helpers.pull_data_dp [OF assms(1) v(1)]
  show "rc = 0 \<Longrightarrow> skb_data (skb u) = pkt (skb s)" "pkt (skb u) = pkt (skb s)"
    "mark (skb u) = mark (skb s)"
    using pull assms(3) v(2) by simp_all
qed

text \<open>
  C8. The egress program carries out \<open>plan_frame\<close> of the frame and of the identity and policy
  maps: forward, refuse with a trace, fail the encapsulation, or stamp the sender's identity. The
  only other outcome is a failed linearisation, which forwards the frame.
\<close>

theorem egress_refines_plan:
  assumes "skb_helpers K" and "length (pkt (skb s)) < 2 ^ 32" and "egress_start K s = (rc, u)"
  shows "meridian_tc_egress K s =
    Some (if rc \<noteq> 0 then (TC_ACT_OK, u)
          else egress_run K (fst (k_ktime_get_ns K (world s))) (skb_len (skb s)) (pkt (skb s))
                 (plan_frame (identity_map s) (policy_map s) (pkt (skb s))) u)"
  using egress_start_pkt(1) [OF assms(1,3,2)] by (auto simp: egress_eq [OF assms(3) refl])

lemma demo_egress_plan:
  "plan_frame demo_ids (demo_pol 6 1 0) (tcp_frame 2) =
     Refuse \<lparr>fk_src_ip = 0x0100000a, fk_dst_ip = 0x0200000a, fk_src_port = 0x409c,
       fk_dst_port = 0x901f, fk_proto = 6, fk_pad_0 = 0, fk_pad_1 = 0, fk_pad_2 = 0\<rparr> 7 9"
  by code_simp

lemma demo_egress_start: "fst (egress_start model_kernel (demo_dp f c p)) = 0"
  by (simp add: egress_start_def map_helper_defs skb_helper_defs model_kernel_def)

theorem egress_refines_plan_witness:
  "map_option fst (meridian_tc_egress model_kernel (demo_dp (tcp_frame 2) 0 (demo_pol 6 1 0))) =
     Some TC_ACT_STOLEN"
  using egress_refines_plan [OF mk.skb_helpers_axioms, of "demo_dp (tcp_frame 2) 0 (demo_pol 6 1 0)"
      _ _, OF _ prod.collapse [symmetric]]
  by (simp add: demo_egress_start demo_egress_plan egress_run_def)

lemma refuse_trace_recorded:
  "metrics_ok s \<Longrightarrow>
     deny_recorded K flow reason now
       (decision_event now (fk_src_ip flow) (fk_dst_ip flow) (fk_src_port flow) (fk_dst_port flow)
          (fk_proto flow) FLOW_VERDICT_DENY src dst n) s
       (refuse_trace K now n flow src dst reason s)"
  unfolding refuse_trace_def by (rule tceg.deny_sequence)

lemma plan_refuse_rule:
  assumes "plan_frame ids pol p = Refuse flow src dst"
  shows "\<exists>port proto v. src \<noteq> 0 \<and> dst \<noteq> 0 \<and> pol (ingress_key src dst port proto) = Some v \<and>
    pv_action v = FLOW_VERDICT_DENY"
proof -
  have "\<exists>port proto. src \<noteq> 0 \<and> explicit_deny pol src dst port proto"
    using assms
    by (auto simp: plan_frame_def plan_geneve_def plan_inner_def plan_local_def Let_def
        split: option.splits if_splits prod.splits)
  then show ?thesis by (auto simp: explicit_deny_def split: option.splits)
qed

lemma egress_run_stolen:
  assumes "egress_run K now n p plan u = (TC_ACT_STOLEN, t)"
  obtains flow src dst where "plan = Refuse flow src dst"
    "t = refuse_trace K now n flow src dst DROP_REASON_POLICY_DENY u"
  using assms
  by (cases plan) (auto simp: egress_run_def encap_fail_eq Let_def split: if_splits prod.splits)



lemma encap_fail_counted:
  assumes "metrics_ok s" and "encap_fail K now n flow src dst s = (act, t)"
  shows "metric t METRIC_GENEVE_ENCAP_FAIL = metric s METRIC_GENEVE_ENCAP_FAIL + 1"
proof -
  let ?u = "metric_add METRIC_GENEVE_ENCAP_FAIL 1 s"
  have cnt: "metric ?u METRIC_GENEVE_ENCAP_FAIL = metric s METRIC_GENEVE_ENCAP_FAIL + 1"
    using assms(1) by (intro tceg.add_hit) simp_all
  have keep: "metric (refuse_trace K now n fl src dst r ?u) METRIC_GENEVE_ENCAP_FAIL =
      metric ?u METRIC_GENEVE_ENCAP_FAIL" for fl r
  proof -
    let ?v = "metric_add METRIC_FLOWS_DENIED 1 (denied_flow_upsert K fl r now ?u)"
    have "metric (refuse_trace K now n fl src dst r ?u) METRIC_GENEVE_ENCAP_FAIL =
        metric ?v METRIC_GENEVE_ENCAP_FAIL"
      unfolding refuse_trace_def using assms(1) by (intro tceg.emit_miss) simp_all
    also have "\<dots> = metric ?u METRIC_GENEVE_ENCAP_FAIL" by simp
    finally show ?thesis .
  qed
  show ?thesis
    using assms(2) cnt keep by (auto simp: encap_fail_eq split: if_splits option.splits)
qed

text \<open>
  A frame that cannot be stamped fails closed: with the posture bit clear the packet is shot
  and the failure is counted; if the inner flow is known, the denial is recorded under it with the
  reason of an encapsulation failure. Only with the posture bit set does it leave unstamped.
\<close>

theorem encap_failure_posture:
  assumes "metrics_ok s" and "encap_fail K now n flow src dst s = (act, t)"
  shows "metric t METRIC_GENEVE_ENCAP_FAIL = metric s METRIC_GENEVE_ENCAP_FAIL + 1 \<and>
    act = (if failopen_unknown_enabled s then TC_ACT_OK else TC_ACT_SHOT) \<and>
    (\<forall>fl. flow = Some fl \<and> act = TC_ACT_SHOT \<longrightarrow>
       deny_recorded K fl DROP_REASON_GENEVE_ENCAP_FAIL now
         (decision_event now (fk_src_ip fl) (fk_dst_ip fl) (fk_src_port fl) (fk_dst_port fl)
            (fk_proto fl) FLOW_VERDICT_DENY src dst n)
         (metric_add METRIC_GENEVE_ENCAP_FAIL 1 s) t)"
proof -
  have ok: "metrics_ok (metric_add METRIC_GENEVE_ENCAP_FAIL 1 s)" using assms(1) by simp
  show ?thesis
    using assms(2) encap_fail_counted [OF assms] refuse_trace_recorded [OF ok]
    by (auto simp: encap_fail_eq split: if_splits option.splits)
qed

theorem encap_failure_posture_witness:
  "fst (encap_fail model_kernel 5 60 (Some zero_flow) 7 9 (demo_dp (tcp_frame 2) 0 (demo_pol 6 1 0))) =
     TC_ACT_SHOT"
proof -
  let ?s = "demo_dp (tcp_frame 2) 0 (demo_pol 6 1 0)"
  have "\<not> failopen_unknown_enabled ?s"
    by (simp add: failopen_unknown_enabled_def array_lookup_def)
  then show ?thesis
    using encap_failure_posture [of ?s model_kernel 5 60 "Some zero_flow" 7 9, OF _ prod.collapse [symmetric]]
    by (simp add: metrics_ok_def)
qed

end
