(* ===== verification/Tlv_Liveness.thy ===== *)
theory Tlv_Liveness
  imports Tlv_Editing
begin

text \<open>
  On a host whose helpers do not fail (\<open>live_skb_helpers\<close>) the byte-moving functions of
  \<open>Tlv_Editing\<close> run to their end and report success, for every frame within their bounds: at most
  80 bytes of outer headers for an insertion, at most 256 inner bytes for a strip.
\<close>

lemma ucast_of_nat_u16: "ucast (of_nat n :: u32) = (of_nat n :: u16)"
  by (simp add: unsigned_of_nat word_of_nat_eq_iff)

context live_skb_helpers
begin

lemma load_live_at:
  assumes "off + l \<le> length (pkt (skb s))" and "off < 2 ^ 32"
  obtains t where "bpf_skb_load_bytes K (of_nat off) l s = (0, slice_of (pkt (skb s)) off l, t)"
    "skb t = skb s"
proof -
  obtain bs t where ld: "bpf_skb_load_bytes K (of_nat off) l s = (0, bs, t)"
    using load_live_dp [of "of_nat off" l s] assms by auto
  show thesis using that ld load_at [OF ld assms(2)] by simp
qed

lemma store_live_at:
  assumes "off + length bs \<le> length (pkt (skb s))" and "off < 2 ^ 32"
  obtains t where "bpf_skb_store_bytes K (of_nat off) bs fl s = (0, t)"
    "pkt (skb t) = overwrite (pkt (skb s)) off bs" "length (pkt (skb t)) = length (pkt (skb s))"
proof -
  obtain t where sto: "bpf_skb_store_bytes K (of_nat off) bs fl s = (0, t)"
    using store_live_dp [of "of_nat off" bs s fl] assms by auto
  show thesis using that sto store_at(2) [OF sto assms(2)] assms(1) by simp
qed

lemma pull_live_at:
  obtains t where "bpf_skb_pull_data K n s = (0, t)" "pkt (skb t) = pkt (skb s)"
  using pull_live_dp [of n s] pull_pkt by blast

lemma head_shift_live:
  assumes "room + 8 \<le> length (pkt (skb s))" and "length (pkt (skb s)) < 2 ^ 32" and "i + n < 2 ^ 32"
  shows "\<exists>t. head_shift K (of_nat room) n (of_nat i) s = (0, t)"
  using assms
proof (induction n arbitrary: i s)
  case (Suc n)
  show ?case
  proof (cases "i < room")
    case True
    then have off: "8 + i + 1 \<le> length (pkt (skb s))" "8 + i < 2 ^ 32" "i < 2 ^ 32"
      "of_nat i < (of_nat room :: u32)"
      using Suc.prems by (simp_all add: u32_less)
    obtain u where u: "bpf_skb_load_bytes K (of_nat (8 + i)) 1 s =
        (0, slice_of (pkt (skb s)) (8 + i) 1, u)" "skb u = skb s"
      using load_live_at [OF off(1,2)] .
    have "i + length (slice_of (pkt (skb s)) (8 + i) 1) \<le> length (pkt (skb u))"
      using off(1) u(2) by simp
    then obtain v where v: "bpf_skb_store_bytes K (of_nat i) (slice_of (pkt (skb s)) (8 + i) 1) 0 u = (0, v)"
      "length (pkt (skb v)) = length (pkt (skb u))"
      using store_live_at [OF _ off(3)] by metis
    have "\<exists>t. head_shift K (of_nat room) n (of_nat (Suc i)) v = (0, t)"
      using Suc.prems v(2) u(2) by (intro Suc.IH) simp_all
    then show ?thesis
      using off(4) by (simp only: head_shift.simps MERIDIAN_GENEVE_OPT_BYTES_def of_nat_numeral
          u32_offsets(3,4) u(1) v(1) Let_def prod.case if_True simp_thms if_False)
  next
    case False
    then show ?thesis using head_shift_done [of room i "Suc n" s] Suc.prems by auto
  qed
qed simp

lemma strip_shift_live:
  assumes "8 \<le> base" and "base + len \<le> length (pkt (skb s))" and "length (pkt (skb s)) < 2 ^ 32"
    and "i + n < 2 ^ 32"
  shows "\<exists>t. strip_shift K (of_nat base) (of_nat len) n (of_nat i) s = (0, t)"
  using assms
proof (induction n arbitrary: i s)
  case (Suc n)
  show ?case
  proof (cases "i < len")
    case True
    then have off: "base + i + 1 \<le> length (pkt (skb s))" "base + i < 2 ^ 32" "base - 8 + i < 2 ^ 32"
      "\<not> of_nat len \<le> (of_nat i :: u32)"
      using Suc.prems by (simp_all add: u32_le)
    obtain u where u: "bpf_skb_load_bytes K (of_nat (base + i)) 1 s =
        (0, slice_of (pkt (skb s)) (base + i) 1, u)" "skb u = skb s"
      using load_live_at [OF off(1,2)] .
    have "base - 8 + i + length (slice_of (pkt (skb s)) (base + i) 1) \<le> length (pkt (skb u))"
      using off(1) u(2) by simp
    then obtain v where v: "bpf_skb_store_bytes K (of_nat (base - 8 + i))
        (slice_of (pkt (skb s)) (base + i) 1) 0 u = (0, v)"
      "length (pkt (skb v)) = length (pkt (skb u))"
      using store_live_at [OF _ off(3)] by metis
    have "\<exists>t. strip_shift K (of_nat base) (of_nat len) n (of_nat (Suc i)) v = (0, t)"
      using Suc.prems v(2) u(2) by (intro Suc.IH) simp_all
    then show ?thesis
      using off(4) by (simp only: strip_shift.simps MERIDIAN_GENEVE_OPT_BYTES_def of_nat_numeral
          u32_offsets(1,3) u32_offsets(2) [OF Suc.prems(1)] u(1) v(1) Let_def prod.case simp_thms
          if_False)
  next
    case False
    then have "of_nat len \<le> (of_nat i :: u32)" using Suc.prems by (simp add: u32_le)
    then show ?thesis by simp
  qed
qed simp

lemma stamp_live:
  assumes "so + 8 \<le> length (pkt (skb s))" and "ge < length (pkt (skb s))"
    and "length (pkt (skb s)) < 2 ^ 32"
  shows "\<exists>t. stamp_identity_tlv K (of_nat so) (of_nat ge) ow i s = (0, t)"
proof -
  have "so + length (identity_tlv i) \<le> length (pkt (skb s))" "so < 2 ^ 32" using assms by simp_all
  then obtain u where u: "bpf_skb_store_bytes K (of_nat so) (identity_tlv i) 0 s = (0, u)"
    "pkt (skb u) = overwrite (pkt (skb s)) so (identity_tlv i)"
    "length (pkt (skb u)) = length (pkt (skb s))"
    by (rule store_live_at)
  obtain v where v: "bpf_skb_load_bytes K (of_nat ge) 1 u = (0, slice_of (pkt (skb u)) ge 1, v)"
    "skb v = skb u"
    using load_live_at [of ge 1 u] assms u(3) by auto
  have "ge + length [(slice_of (pkt (skb u)) ge 1 ! 0 AND 0xc0) OR of_nat (ow + 2)] \<le> length (pkt (skb v))"
    "ge < 2 ^ 32"
    using assms u(3) v(2) by simp_all
  then obtain w where w: "bpf_skb_store_bytes K (of_nat ge)
      [(slice_of (pkt (skb u)) ge 1 ! 0 AND 0xc0) OR of_nat (ow + 2)] 0 v = (0, w)"
    by (rule store_live_at)
  have tlv: "bytes16 (bpf_htons MERIDIAN_GENEVE_CLASS) @ [MERIDIAN_OPT_IDENTITY,
      of_nat MERIDIAN_GENEVE_IDENTITY_LEN_WORDS] @ bytes32 (bpf_htonl i) = identity_tlv i"
    by (simp add: identity_tlv_def)
  have "stamp_identity_tlv K (of_nat so) (of_nat ge) ow i s = (0, w)"
    by (simp only: stamp_identity_tlv_def Let_def tlv w u(1) v(1) MERIDIAN_GENEVE_OPT_WORDS_def prod.case
        simp_thms if_False)
  then show ?thesis by blast
qed

lemma insert_live:
  assumes "outer < room" and "room \<le> 80" and "room - outer \<le> 64" and "room < length (pkt (skb s))"
    and "length (pkt (skb s)) < 2 ^ 31"
  shows "\<exists>t. insert_inner_tlv_room K (of_nat room) (of_nat outer) ud ob s = (0, t)"
proof -
  obtain u where u: "bpf_skb_pull_data K (skb_len (skb s)) s = (0, u)" "pkt (skb u) = pkt (skb s)"
    by (rule pull_live_at)
  obtain v where v: "bpf_skb_change_head K 8 0 u = (0, v)" using head_live_dp by blast
  obtain h where h: "length h = 8" "pkt (skb v) = h @ pkt (skb u)" using head_dp [OF v] by auto
  obtain w where w: "bpf_skb_pull_data K (skb_len (skb v)) v = (0, w)" "pkt (skb w) = pkt (skb v)"
    by (rule pull_live_at)
  have "\<exists>t. head_shift K (of_nat room) 80 (of_nat 0) w = (0, t)"
    using assms h w(2) u(2) by (intro head_shift_live) simp_all
  moreover have "(of_nat room :: u32) \<noteq> 0" "\<not> skb_len (skb u) \<le> of_nat room"
    "\<not> of_nat room \<le> (of_nat outer :: u32)" "\<not> 64 < (of_nat room - of_nat outer :: u32)"
    "\<not> 80 < (of_nat room :: u32)"
    using assms u(2)
    by (auto simp: word_less_nat_alt word_le_nat_alt unat_skb_len unat_sub word_unat_eq_iff)
  ultimately show ?thesis
    using u(1) v w(1) by (simp add: insert_inner_tlv_room_def Let_def)
qed

lemma bump_live:
  assumes "oi + 4 \<le> length (pkt (skb s))" and "ud + 8 \<le> length (pkt (skb s))"
    and "oi + 4 \<le> ud" and "w16 (pkt (skb s)) (ud + 6) = 0" and "length (pkt (skb s)) < 2 ^ 31"
  shows "\<exists>t. bump_udp_geneve_lengths K (of_nat oi) (of_nat ud) s = (0, t) \<and>
    pkt (skb t) =
      overwrite (overwrite (pkt (skb s)) (oi + 2)
          (bytes16 (bpf_htons (of_nat (length (pkt (skb s)) - oi)))))
        (ud + 4) (bytes16 (bpf_htons (of_nat (length (pkt (skb s)) - ud))))"
proof -
  let ?n = "length (pkt (skb s))"
  have diff: "ucast (of_nat ?n - of_nat k :: u32) = (of_nat (?n - k) :: u16)" if "k \<le> ?n" for k
  proof -
    have "(of_nat ?n - of_nat k :: u32) = of_nat (?n - k)" using that by (simp add: of_nat_diff)
    then show ?thesis by (simp only: ucast_of_nat_u16)
  qed
  obtain a where a: "bpf_skb_pull_data K (skb_len (skb s)) s = (0, a)" "pkt (skb a) = pkt (skb s)"
    by (rule pull_live_at)
  obtain b where b: "bpf_skb_load_bytes K (of_nat (oi + 2)) 2 a = (0, slice_of (pkt (skb a)) (oi + 2) 2, b)"
    "skb b = skb a" using load_live_at [of "oi + 2" 2 a] assms a(2) by auto
  let ?l1 = "bytes16 (bpf_htons (of_nat (?n - oi)))" and ?l2 = "bytes16 (bpf_htons (of_nat (?n - ud)))"
  obtain c where c: "bpf_skb_store_bytes K (of_nat (oi + 2)) ?l1 BPF_F_RECOMPUTE_CSUM b = (0, c)"
    "pkt (skb c) = overwrite (pkt (skb s)) (oi + 2) ?l1" "length (pkt (skb c)) = ?n"
    using store_live_at [of "oi + 2" ?l1 b BPF_F_RECOMPUTE_CSUM] assms a(2) b(2) by auto
  obtain d where d: "bpf_skb_load_bytes K (of_nat (ud + 4)) 2 c = (0, slice_of (pkt (skb c)) (ud + 4) 2, d)"
    "skb d = skb c" using load_live_at [of "ud + 4" 2 c] assms c(3) by auto
  obtain e where e: "bpf_skb_store_bytes K (of_nat (ud + 4)) ?l2 0 d = (0, e)"
    "pkt (skb e) = overwrite (pkt (skb c)) (ud + 4) ?l2" "length (pkt (skb e)) = ?n"
    using store_live_at [of "ud + 4" ?l2 d 0] assms c(3) d(2) by auto
  obtain f where f: "bpf_skb_load_bytes K (of_nat (ud + 6)) 2 e = (0, slice_of (pkt (skb e)) (ud + 6) 2, f)"
    "skb f = skb e" using load_live_at [of "ud + 6" 2 e] assms e(3) by auto
  have "w16 (slice_of (pkt (skb e)) (ud + 6) 2) 0 = w16 (pkt (skb s)) (ud + 6)"
    using assms e(3) c(3) unfolding e(2) c(2) by (simp add: w16_slice) (simp add: w16_def nth_overwrite)
  then have chk: "w16 (slice_of (pkt (skb e)) (ud + 6) 2) 0 = 0" using assms(4) by simp
  have len: "skb_len (skb a) = of_nat ?n" "skb_len (skb c) = of_nat ?n"
    using a(2) c(3) by (simp_all add: skb_len_def)
  have le: "oi \<le> ?n" "ud \<le> ?n" using assms by simp_all
  have "bump_udp_geneve_lengths K (of_nat oi) (of_nat ud) s = (0, f)"
    by (simp only: bump_udp_geneve_lengths_def Let_def a(1) prod.case simp_thms if_False u32_offsets(5-7)
        len diff [OF le(1)] diff [OF le(2)] b(1) c(1) d(1) e(1) f(1) chk)
  then show ?thesis using f(2) e(2) c(2) by simp
qed

lemma strip_live:
  assumes "8 \<le> ba" and "ba \<le> length (pkt (skb s))" and "length (pkt (skb s)) - ba \<le> 256"
    and "ge < length (pkt (skb s))" and "oi + 4 \<le> length (pkt (skb s))"
    and "ud + 6 \<le> length (pkt (skb s))" and "length (pkt (skb s)) < 2 ^ 31"
  shows "\<exists>t. strip_meridian_tlv K (of_nat ba) (of_nat oi) (of_nat ud) (of_nat ge) s = (0, t)"
proof -
  let ?n = "length (pkt (skb s))"
  obtain a where a: "bpf_skb_pull_data K (skb_len (skb s)) s = (0, a)" "pkt (skb a) = pkt (skb s)"
    by (rule pull_live_at)
  have len: "skb_len (skb a) - of_nat ba = of_nat (?n - ba)"
    using assms a(2) by (simp add: skb_len_def of_nat_diff)
  obtain b where b0: "strip_shift K (of_nat ba) (of_nat (?n - ba)) 256 (of_nat 0) a = (0, b)"
    using strip_shift_live [of ba "?n - ba" a 0 256] assms a(2) by auto
  then have b1: "strip_shift K (of_nat ba) (of_nat (?n - ba)) 256 0 a = (0, b)"
    by simp
  have lb: "length (pkt (skb b)) = ?n"
    using strip_shift_ok [OF b0] assms a(2) by simp
  obtain c where c: "bpf_skb_load_bytes K (of_nat ge) 1 b = (0, slice_of (pkt (skb b)) ge 1, c)"
    "skb c = skb b" using load_live_at [of ge 1 b] assms lb by auto
  have "ge + length [slice_of (pkt (skb b)) ge 1 ! 0 AND 0xc0] \<le> length (pkt (skb c))" "ge < 2 ^ 32"
    using assms lb c(2) by simp_all
  then obtain d where d: "bpf_skb_store_bytes K (of_nat ge) [slice_of (pkt (skb b)) ge 1 ! 0 AND 0xc0] 0 c = (0, d)"
    "pkt (skb d) = overwrite (pkt (skb c)) ge [slice_of (pkt (skb b)) ge 1 ! 0 AND 0xc0]"
    "length (pkt (skb d)) = length (pkt (skb c))"
    by (rule store_live_at)
  have ld: "length (pkt (skb d)) = ?n" using d(3) c(2) lb by simp
  obtain e where e: "bpf_skb_load_bytes K (of_nat (oi + 2)) 2 d = (0, slice_of (pkt (skb d)) (oi + 2) 2, e)"
    "skb e = skb d" using load_live_at [of "oi + 2" 2 d] assms ld by auto
  define l1 where "l1 = bpf_htons (bpf_ntohs (w16 (slice_of (pkt (skb d)) (oi + 2) 2) 0) - 8)"
  have "oi + 2 + length (bytes16 l1) \<le> length (pkt (skb e))" "oi + 2 < 2 ^ 32"
    using assms ld e(2) by simp_all
  then obtain f where f: "bpf_skb_store_bytes K (of_nat (oi + 2)) (bytes16 l1) BPF_F_RECOMPUTE_CSUM e = (0, f)"
    "pkt (skb f) = overwrite (pkt (skb e)) (oi + 2) (bytes16 l1)"
    "length (pkt (skb f)) = length (pkt (skb e))"
    by (rule store_live_at)
  have lf: "length (pkt (skb f)) = ?n" using f(3) e(2) ld by simp
  obtain g where g: "bpf_skb_load_bytes K (of_nat (ud + 4)) 2 f = (0, slice_of (pkt (skb f)) (ud + 4) 2, g)"
    "skb g = skb f" using load_live_at [of "ud + 4" 2 f] assms lf by auto
  define l2 where "l2 = bpf_htons (bpf_ntohs (w16 (slice_of (pkt (skb f)) (ud + 4) 2) 0) - 8)"
  have "ud + 4 + length (bytes16 l2) \<le> length (pkt (skb g))" "ud + 4 < 2 ^ 32"
    using assms lf g(2) by simp_all
  then obtain h where h: "bpf_skb_store_bytes K (of_nat (ud + 4)) (bytes16 l2) 0 g = (0, h)"
    by (rule store_live_at)
  have guards: "\<not> (of_nat ba :: u32) < 8" "\<not> skb_len (skb a) < of_nat ba"
    using assms a(2) by (simp_all add: word_less_nat_alt unat_skb_len)
  have "?n - ba < 2 ^ 32" using assms(7) by simp
  then have short: "\<not> 256 < (of_nat (?n - ba) :: u32)"
    unfolding word_less_nat_alt using unat_of_nat_u32 [of "?n - ba"] assms(3) by simp
  have "strip_meridian_tlv K (of_nat ba) (of_nat oi) (of_nat ud) (of_nat ge) s = (0, h)"
    by (simp only: strip_meridian_tlv_def Let_def a(1) prod.case simp_thms if_False u32_offsets(5-7)
        MERIDIAN_GENEVE_OPT_BYTES_def MERIDIAN_STRIP_MAX_LEN_def of_nat_numeral guards short len
        b1 c(1) d(1) e(1) l1_def [symmetric] f(1) g(1) l2_def [symmetric] h)
  then show ?thesis by blast
qed

end

end
