(* ===== verification/Overlay_Path.thy ===== *)
theory Overlay_Path
  imports Ingress_Program Egress_Program Tlv_Liveness
begin

text \<open>
  The path of a packet across the overlay: \<open>meridian_tc_egress\<close> on the sending node stamps the
  sender's identity into the Geneve frame, \<open>meridian_tc_ingress\<close> on the receiving node reads it
  back, enforces with it and removes it. \<open>stamped_as\<close> describes the frame between the two.
\<close>

section \<open>Byte ranges that a store does not touch\<close>

lemma drop_overwrite:
  assumes "off + length xs \<le> a" and "a \<le> length bs"
  shows "drop a (overwrite bs off xs) = drop a bs"
proof (rule nth_equalityI)
  have len: "length (overwrite bs off xs) = length bs" using assms by simp
  then show "length (drop a (overwrite bs off xs)) = length (drop a bs)" by simp
  fix i assume "i < length (drop a (overwrite bs off xs))"
  then show "drop a (overwrite bs off xs) ! i = drop a bs ! i"
    using assms len by (simp add: nth_overwrite)
qed

lemma slice_of_overwrite_after:
  "off + length xs \<le> a \<Longrightarrow> a \<le> length bs \<Longrightarrow> slice_of (overwrite bs off xs) a n = slice_of bs a n"
  by (simp add: slice_of_def drop_overwrite)

lemma slice_of_conv_nth: "a + n \<le> length bs \<Longrightarrow> slice_of bs a n = map (\<lambda>i. bs ! (a + i)) [0..<n]"
  by (rule nth_equalityI) (simp_all add: slice_of_def)

lemma slice_of_append: "slice_of bs a (m + n) = slice_of bs a m @ slice_of bs (a + m) n"
  by (simp add: slice_of_def take_add add.commute)

section \<open>The stamped frame\<close>

text \<open>The bytes of the outer headers that the length update may change.\<close>

definition length_bytes_at :: "byte list \<Rightarrow> nat \<Rightarrow> nat set" where
  "length_bytes_at p outer =
     (let udp = outer + ihl_at p outer * 4
      in {outer + 2, outer + 3, udp, udp + 1, udp + 4, udp + 5})"

definition stamped_as :: "byte list \<Rightarrow> nat \<Rightarrow> u32 \<Rightarrow> nat \<Rightarrow> byte list \<Rightarrow> bool" where
  "stamped_as p outer src_id room q \<longleftrightarrow>
     (let g = geneve_off_at p outer; base = geneve_payload_at p outer
      in length q + room = length p + 8 \<and> base + 8 \<le> length q \<and>
         (\<forall>j < base. j \<notin> length_bytes_at p outer \<longrightarrow> j \<noteq> g \<longrightarrow> q ! j = p ! j) \<and>
         q ! g = (p ! g AND 0xc0) OR of_nat (unat (p ! g AND 0x3f) + 2) \<and>
         slice_of q base 8 = identity_tlv src_id \<and>
         drop (base + 8) q = drop (base + room) p)"

lemma stamped_asD:
  assumes "stamped_as p outer i room q"
  shows "length q + room = length p + 8" "geneve_payload_at p outer + 8 \<le> length q"
    "j < geneve_payload_at p outer \<Longrightarrow> j \<notin> length_bytes_at p outer \<Longrightarrow> j \<noteq> geneve_off_at p outer \<Longrightarrow>
       q ! j = p ! j"
    "q ! geneve_off_at p outer = (p ! geneve_off_at p outer AND 0xc0) OR
       of_nat (unat (p ! geneve_off_at p outer AND 0x3f) + 2)"
    "slice_of q (geneve_payload_at p outer) 8 = identity_tlv i"
    "drop (geneve_payload_at p outer + 8) q = drop (geneve_payload_at p outer + room) p"
  using assms unfolding stamped_as_def Let_def by blast+

lemma geneve_order:
  "ipv4_at p outer \<Longrightarrow> outer + 28 \<le> geneve_off_at p outer"
  "geneve_off_at p outer + 8 \<le> geneve_payload_at p outer"
  using ipv4_at_ihl [of p outer] by (simp_all add: geneve_off_at_def geneve_payload_at_def)

lemma length_bytes_before:
  assumes "ipv4_at p outer" and "j \<in> length_bytes_at p outer"
  shows "j + 2 < geneve_off_at p outer"
proof -
  have "5 \<le> ihl_at p outer" using ipv4_at_ihl [OF assms(1)] by simp
  then show ?thesis using assms(2) by (auto simp: length_bytes_at_def geneve_off_at_def Let_def)
qed

text \<open>Writing the option into a frame whose bytes at \<open>base\<close> are free.\<close>

lemma overwritten_stamp:
  assumes g: "g + 8 \<le> base" and base: "base + 8 \<le> length q0"
    and same: "\<forall>j < base. j \<notin> A \<longrightarrow> q0 ! j = p ! j" and "g \<notin> A"
    and tail: "drop (base + 8) q0 = drop (base + room) p" and len: "length q0 + room = length p + 8"
    and q1: "q1 = overwrite q0 base (identity_tlv i)"
    and q: "q = overwrite q1 g [(q1 ! g AND 0xc0) OR of_nat (words + 2)]"
  shows "length q + room = length p + 8 \<and> base + 8 \<le> length q \<and>
    (\<forall>j < base. j \<notin> A \<longrightarrow> j \<noteq> g \<longrightarrow> q ! j = p ! j) \<and>
    q ! g = (p ! g AND 0xc0) OR of_nat (words + 2) \<and>
    slice_of q base 8 = identity_tlv i \<and> drop (base + 8) q = drop (base + room) p"
proof -
  have l1: "length q1 = length q0" using base by (simp add: q1)
  have l: "length q = length q0" using l1 g base by (simp add: q)
  have n1: "q1 ! j = q0 ! j" if "j < base" for j
    using that base by (simp add: q1 nth_overwrite)
  have n: "q ! j = (if j = g then (q1 ! g AND 0xc0) OR of_nat (words + 2) else q1 ! j)"
    if "j < length q0" for j
    using that g base l1 by (auto simp: q nth_overwrite)
  have "q1 ! g = p ! g" using n1 [of g] same assms(4) g by simp
  moreover have "slice_of q base 8 = slice_of q1 base 8"
    unfolding q using g base l1 by (intro slice_of_overwrite_after) simp_all
  moreover have "slice_of q1 base 8 = identity_tlv i"
    using slice_of_overwrite [of base "identity_tlv i" q0] base by (simp add: q1)
  moreover have "drop (base + 8) q = drop (base + 8) q0"
    unfolding q q1 using g base by (simp add: drop_overwrite)
  ultimately show ?thesis using n n1 same l len base tail g by simp
qed

lemma inserted_room:
  assumes "length x = 8" and "base \<le> length p" and q: "q = take base p @ x @ drop base p"
  shows "length q = length p + 8" "\<forall>j < base. q ! j = p ! j" "drop (base + 8) q = drop base p"
  using assms by (simp_all add: nth_append)

context skb_helpers
begin

lemma egress_stamp_ok:
  assumes run: "egress_stamp K outer (outer + ihl_at p outer * 4) (geneve_off_at p outer)
      (geneve_payload_at p outer) (unat (p ! geneve_off_at p outer AND 0x3f)) count room i s = (0, t)"
    and p: "p = pkt (skb s)" and len: "length p < 2 ^ 31" and ip: "ipv4_at p outer"
    and frame: "geneve_frame p outer"
  shows "stamped_as p outer i room (pkt (skb t))" "count < 4" "room = 0 \<or> room = 8"
    "mark (skb t) = mark (skb s)"
proof -
  let ?g = "geneve_off_at p outer" and ?base = "geneve_payload_at p outer"
  let ?words = "unat (p ! ?g AND 0x3f)"
  define udp where "udp = outer + ihl_at p outer * 4"
  note run = run [folded udp_def]
  let ?A = "length_bytes_at p outer"
  have ord: "outer + 28 \<le> ?g" "?g + 8 \<le> ?base" "?base \<le> length p" "udp + 8 = ?g"
    using geneve_order [of p outer] ip frame
    by (simp_all add: geneve_frame_def geneve_off_at_def udp_def)
  have un: "unat (of_nat ?base :: u32) = ?base" "unat (of_nat ?g :: u32) = ?g"
    "unat (of_nat outer :: u32) = outer" "unat (of_nat udp :: u32) = udp"
    using ord len by simp_all
  have gA: "?g \<notin> ?A" using length_bytes_before [OF ip] by fastforce
  show cnt: "count < 4" and room: "room = 0 \<or> room = 8"
    using run by (auto simp: egress_stamp_def split: if_splits)
  obtain q0 u where stamp: "stamp_identity_tlv K (of_nat ?base) (of_nat ?g) ?words i u = (0, t)"
    and q0: "q0 = pkt (skb u)" "mark (skb u) = mark (skb s)" "?base + 8 \<le> length q0"
    "\<forall>j < ?base. j \<notin> ?A \<longrightarrow> q0 ! j = p ! j" "drop (?base + 8) q0 = drop (?base + room) p"
    "length q0 + room = length p + 8"
  proof (cases "room = 8")
    case True
    then have st: "stamp_identity_tlv K (of_nat ?base) (of_nat ?g) ?words i s = (0, t)"
      using run cnt by (simp add: egress_stamp_def)
    have "?base + 8 \<le> length p" using stamp_ok(3) [OF st refl] un by (simp add: p)
    then show thesis using that [OF st refl] True by (simp add: p)
  next
    case False
    with room have room: "room = 0" by simp
    obtain u v rc where ins: "insert_inner_tlv_room K (of_nat ?base) (of_nat outer) (of_nat udp)
        (?words * 4) s = (0, u)"
      and bump: "bump_udp_geneve_lengths K (of_nat outer) (of_nat udp) u = (rc, v)"
      and st: "stamp_identity_tlv K (of_nat ?base) (of_nat ?g) ?words i v = (0, t)"
      using run cnt room by (auto simp: egress_stamp_def Let_def split: if_splits prod.splits)
    obtain x where x: "length x = 8" "pkt (skb u) = take ?base p @ x @ drop ?base p"
      using insert_ok(1) [OF ins] len un by (auto simp: p)
    note r = inserted_room [OF x(1) ord(3) x(2)]
    have "frame_same ?A u v"
      using bump_same [OF bump] un ord len by (simp add: length_bytes_at_def udp_def [symmetric] Let_def)
    then have v: "length (pkt (skb v)) = length p + 8" "mark (skb v) = mark (skb u)"
      "\<forall>j < length p + 8. j \<notin> ?A \<longrightarrow> pkt (skb v) ! j = pkt (skb u) ! j"
      using r(1) by (simp_all add: frame_same_def)
    have "drop (?base + 8) (pkt (skb v)) = drop (?base + 8) (pkt (skb u))"
    proof (rule nth_equalityI)
      fix j assume "j < length (drop (?base + 8) (pkt (skb v)))"
      moreover have "?base + 8 + j \<notin> ?A" using length_bytes_before [OF ip, of "?base + 8 + j"] ord by auto
      ultimately show "drop (?base + 8) (pkt (skb v)) ! j = drop (?base + 8) (pkt (skb u)) ! j"
        using v(1,3) r(1) by simp
    qed (use v(1) r(1) in simp)
    then show thesis
      using that [OF st refl] v r ord insert_ok(2) [OF ins] len room by (simp add: p)
  qed
  note ok = stamp_ok [OF stamp refl]
  show "mark (skb t) = mark (skb s)" using ok(2) q0(2) by simp
  have "pkt (skb t) = overwrite (overwrite q0 ?base (identity_tlv i)) ?g
      [(overwrite q0 ?base (identity_tlv i) ! ?g AND 0xc0) OR of_nat (?words + 2)]"
    using ok(1) un by (simp add: q0(1))
  from overwritten_stamp [OF ord(2) q0(3,4) gA q0(5,6) refl this]
  show "stamped_as p outer i room (pkt (skb t))" by (simp add: stamped_as_def)
qed

end

section \<open>Reading a stamped frame\<close>

lemma byte_high_zero: "drop_bit 6 (b :: byte) = 0 \<Longrightarrow> b AND 0xc0 = 0"
proof -
  assume d: "drop_bit 6 b = 0"
  have b: "\<not> bit b (6 + n)" for n
    using arg_cong [OF d, of "\<lambda>w. bit w n"] by (simp add: bit_drop_bit_eq)
  show ?thesis
  proof (rule bit_word_eqI)
    fix n assume "n < LENGTH(8)"
    then have "n \<in> {0, 1, 2, 3, 4, 5, 6, 7}" by auto
    then show "bit (b AND 0xc0) n = bit (0 :: byte) n"
      using b [of 0] b [of 1] by (elim insertE emptyE; simp add: bit_and_iff)
  qed
qed
lemma byte_opt_words:
  assumes "m < 11"
  shows "unat (of_nat m AND 0x3f :: byte) = m" "drop_bit 6 (of_nat m :: byte) = 0"
proof -
  have "m = 0 \<or> m = 1 \<or> m = 2 \<or> m = 3 \<or> m = 4 \<or> m = 5 \<or> m = 6 \<or> m = 7 \<or> m = 8 \<or> m = 9 \<or> m = 10"
    using assms by presburger
  then show "unat (of_nat m AND 0x3f :: byte) = m" "drop_bit 6 (of_nat m :: byte) = 0"
    by (elim disjE; simp)+
qed

lemma stamped_headers:
  assumes st: "stamped_as p outer i room q" and ip: "ipv4_at p outer" and fr: "geneve_frame p outer"
  shows "ihl_at q outer = ihl_at p outer" "ipv4_at q outer" "geneve_udp q outer"
    "geneve_off_at q outer = geneve_off_at p outer"
    "q ! geneve_off_at p outer = of_nat (unat (p ! geneve_off_at p outer AND 0x3f) + 2)"
    "opt_bytes_at q (geneve_off_at p outer) = opt_bytes_at p (geneve_off_at p outer) + 8"
    "geneve_payload_at q outer = geneve_payload_at p outer + 8"
proof -
  let ?g = "geneve_off_at p outer" and ?base = "geneve_payload_at p outer"
  let ?words = "unat (p ! ?g AND 0x3f)"
  have ord: "outer + 28 \<le> ?g" "?g + 8 \<le> ?base" "?base \<le> length p" "?base + 8 \<le> length q"
    using geneve_order [of p outer] ip fr stamped_asD(2) [OF st] by (simp_all add: geneve_frame_def)
  have same: "q ! j = p ! j" if "j < ?g" "j \<notin> length_bytes_at p outer" for j
    using that stamped_asD(3) [OF st] ord by simp
  have "5 \<le> ihl_at p outer" using ipv4_at_ihl [OF ip] by simp
  then have free: "outer \<notin> length_bytes_at p outer" "outer + 9 \<notin> length_bytes_at p outer"
    "outer + ihl_at p outer * 4 + 2 \<notin> length_bytes_at p outer"
    "outer + ihl_at p outer * 4 + 3 \<notin> length_bytes_at p outer"
    by (auto simp: length_bytes_at_def Let_def)
  show ihl: "ihl_at q outer = ihl_at p outer" using same free(1) ord by simp
  then show off: "geneve_off_at q outer = ?g" by (simp add: geneve_off_at_def)
  show "ipv4_at q outer"
    using ip same [of outer] free(1) ord by (simp add: ipv4_at_def)
  have "outer + ihl_at p outer * 4 + 3 < ?g" by (simp add: geneve_off_at_def)
  then have "w16 q (outer + ihl_at p outer * 4 + 2) = w16 p (outer + ihl_at p outer * 4 + 2)"
    using same [of "outer + ihl_at p outer * 4 + 2"] same [of "outer + ihl_at p outer * 4 + 3"] free(3,4)
    by (simp add: w16_def numeral_3_eq_3)
  then show "geneve_udp q outer"
    using fr same [of "outer + 9"] free(2) ord ihl off by (simp add: geneve_frame_def geneve_udp_def)
  have w: "?words \<le> 8" "drop_bit 6 (p ! ?g) = 0"
    using fr by (simp_all add: geneve_frame_def opt_bytes_at_def)
  show b: "q ! ?g = of_nat (?words + 2)"
    using stamped_asD(4) [OF st] byte_high_zero [OF w(2)] by (simp only: or.left_neutral)
  show ob: "opt_bytes_at q ?g = opt_bytes_at p ?g + 8"
    using w(1) by (simp only: opt_bytes_at_def b byte_opt_words(1)) simp
  show "geneve_payload_at q outer = ?base + 8"
    by (simp add: geneve_payload_at_def off ob)
qed

lemma stamped_frame:
  assumes st: "stamped_as p outer i room q" and ip: "ipv4_at p outer" and fr: "geneve_frame p outer"
    and few: "opt_bytes_at p (geneve_off_at p outer) \<le> 24"
  shows "geneve_frame q outer"
proof -
  note h = stamped_headers [OF st ip fr]
  have "unat (p ! geneve_off_at p outer AND 0x3f) + 2 < 11" using few by (simp add: opt_bytes_at_def)
  then have "drop_bit 6 (q ! geneve_off_at p outer) = 0" unfolding h(5) by (rule byte_opt_words(2))
  moreover have "geneve_payload_at q outer \<le> length q" using stamped_asD(2) [OF st] h(7) by simp
  ultimately show ?thesis using h(3,4,6) few by (simp add: geneve_frame_def)
qed

lemma stamped_options:
  assumes st: "stamped_as p outer i room q" and ip: "ipv4_at p outer" and fr: "geneve_frame p outer"
  shows "slice_of q (geneve_off_at p outer + 8) (opt_bytes_at q (geneve_off_at p outer)) =
    slice_of p (geneve_off_at p outer + 8) (opt_bytes_at p (geneve_off_at p outer)) @ identity_tlv i"
proof -
  let ?g = "geneve_off_at p outer" and ?base = "geneve_payload_at p outer"
  have base: "?g + 8 + opt_bytes_at p ?g = ?base" "?base \<le> length p" "?base + 8 \<le> length q"
    using fr stamped_asD(2) [OF st] by (simp_all add: geneve_payload_at_def geneve_frame_def)
  have "slice_of q (?g + 8) (opt_bytes_at p ?g) = slice_of p (?g + 8) (opt_bytes_at p ?g)"
  proof -
    have "q ! (?g + 8 + j) = p ! (?g + 8 + j)" if "j < opt_bytes_at p ?g" for j
      using that stamped_asD(3) [OF st, of "?g + 8 + j"] base(1)
        length_bytes_before [OF ip, of "?g + 8 + j"] by fastforce
    then show ?thesis using base by (simp add: slice_of_conv_nth)
  qed
  moreover have "slice_of q (?g + 8 + opt_bytes_at p ?g) 8 = identity_tlv i"
    unfolding base(1) by (rule stamped_asD(5) [OF st])
  ultimately show ?thesis
    by (simp only: stamped_headers(6) [OF st ip fr] slice_of_append)
qed

text \<open>The identity that the receiving parser finds.\<close>

lemma stamped_frame_identity:
  assumes st: "stamped_as p outer i room q" and ip: "ipv4_at p outer" and fr: "geneve_frame p outer"
    and opts: "complete_options 4 (slice_of p (geneve_off_at p outer + 8)
        (opt_bytes_at p (geneve_off_at p outer))) = Some l" "length l < 4"
    and fresh: "frame_identity p outer = None"
  shows "frame_identity q outer = Some i"
  using stamped_identity [OF opts, of i] fresh
  by (simp add: frame_identity_def stamped_headers(4) [OF st ip fr] stamped_options [OF st ip fr])

section \<open>The inner packet is carried unchanged\<close>

text \<open>What is read behind an offset depends only on the bytes behind it.\<close>

lemma nth_drop_offset: "k \<le> length d \<Longrightarrow> d ! (k + j) = drop k d ! j"
  by simp

lemma le_length_drop: "k \<le> length d \<Longrightarrow> k + j \<le> length d \<longleftrightarrow> j \<le> length (drop k d)"
  by auto

lemma w_drop:
  "k \<le> length d \<Longrightarrow> w16 d (k + j) = w16 (drop k d) j"
  "k \<le> length d \<Longrightarrow> w32 d (k + j) = w32 (drop k d) j"
  by (simp_all add: w16_def w32_def add.assoc)

lemma ipv4_at_drop: "k \<le> length d \<Longrightarrow> ipv4_at d (k + j) = ipv4_at (drop k d) j"
  by (auto simp: ipv4_at_def)

lemma ipv4_after_eth_drop:
  assumes "k \<le> length d"
  shows "ipv4_after_eth d k = map_option ((+) k) (ipv4_after_eth (drop k d) 0)"
  using w_drop(1) [OF assms] ipv4_at_drop [OF assms]
  by (simp add: ipv4_after_eth_def)

lemma ipv4_in_payload_drop:
  assumes "k \<le> length d"
  shows "ipv4_in_payload d k = map_option (\<lambda>(ip, r). (k + ip, r)) (ipv4_in_payload (drop k d) 0)"
  using ipv4_at_drop [OF assms, of 0] ipv4_at_drop [OF assms, of 8]
  by (simp add: ipv4_in_payload_def ipv4_after_eth_drop [OF assms] option.map_comp comp_def)

lemma ihl_at_drop: "k \<le> length d \<Longrightarrow> ihl_at d (k + j) = ihl_at (drop k d) j"
  by simp

lemma l4_ports_drop:
  assumes "k \<le> length d"
  shows "l4_ports d (k + j) = l4_ports (drop k d) j"
  unfolding l4_ports_def Let_def add.assoc w_drop [OF assms] nth_drop_offset [OF assms]
    le_length_drop [OF assms] ..

lemma tcp_open_at_drop:
  assumes "k \<le> length d"
  shows "tcp_open_at d (k + j) = tcp_open_at (drop k d) j"
  unfolding tcp_open_at_def Let_def add.assoc nth_drop_offset [OF assms] le_length_drop [OF assms] ..

lemma ingress_flow_action_drop:
  assumes "k \<le> length d"
  shows "ingress_flow_action fo ids pol d (k + j) g i f = ingress_flow_action fo ids pol (drop k d) j g i f"
  unfolding ingress_flow_action_def l4_ports_drop [OF assms] tcp_open_at_drop [OF assms] add.assoc
    w_drop [OF assms] nth_drop_offset [OF assms] ..

lemma stamped_payload:
  assumes st: "stamped_as p outer i room q" and fr: "geneve_frame p outer"
    and inner: "ipv4_in_payload p (geneve_payload_at p outer) = Some (ip, room)"
    and slot: "room = 8 \<Longrightarrow> \<not> ipv4_at p (geneve_payload_at p outer + 16)"
  shows "ipv4_in_payload q (geneve_payload_at p outer + 8) = Some (ip + 8 - room, 0)"
    "ingress_flow_action fo ids pol q (ip + 8 - room) g i f = ingress_flow_action fo ids pol p ip g i f"
proof -
  let ?base = "geneve_payload_at p outer"
  note len = stamped_asD(1,2) [OF st] and tail = stamped_asD(6) [OF st]
  have bq: "?base + 8 \<le> length q" and bp: "?base \<le> length p" "?base + room \<le> length p"
    using len fr by (simp_all add: geneve_frame_def)
  obtain j where j: "ip = ?base + room + j" "ipv4_in_payload q (?base + 8) = Some (?base + 8 + j, 0)"
  proof (cases "room = 8")
    case True
    have ip: "ip = ?base + 8" "ipv4_at p (?base + 8)"
      using ipv4_in_payload_slot [OF inner] ipv4_in_payload_at [OF inner] True by auto
    have "ipv4_at q (?base + 8 + 0)" "\<not> ipv4_at q (?base + 8 + 8)"
      using ip(2) slot True tail ipv4_at_drop [OF bq, of 0] ipv4_at_drop [OF bq, of 8]
        ipv4_at_drop [OF bp(2), of 0] ipv4_at_drop [OF bp(2), of 8] by (simp_all add: add.commute)
    then show thesis using that [of 0] True ip(1) by (simp add: ipv4_in_payload_def)
  next
    case False
    then have room: "room = 0" using ipv4_in_payload_slot [OF inner] by simp
    then obtain j where "ipv4_in_payload (drop ?base p) 0 = Some (j, 0)" "ip = ?base + j"
      using inner ipv4_in_payload_drop [OF bp(1)] by auto
    then show thesis
      using that [of j] ipv4_in_payload_drop [OF bq] tail room by simp
  qed
  have ip: "ip + 8 - room = ?base + 8 + j" using j(1) by simp
  show "ipv4_in_payload q (?base + 8) = Some (ip + 8 - room, 0)" unfolding ip by (rule j(2))
  show "ingress_flow_action fo ids pol q (ip + 8 - room) g i f = ingress_flow_action fo ids pol p ip g i f"
    unfolding ip unfolding j(1) ingress_flow_action_drop [OF bq] ingress_flow_action_drop [OF bp(2)] tail ..
qed

lemma stamped_after_eth:
  assumes st: "stamped_as p outer i room q" and eth: "ipv4_after_eth p 0 = Some outer"
    and fr: "geneve_frame p outer"
  shows "ipv4_after_eth q 0 = Some outer"
proof -
  note ip = ipv4_after_eth_at [OF eth]
  have before: "q ! j = p ! j" if "j < outer" for j
  proof -
    have "j \<notin> length_bytes_at p outer" using that by (auto simp: length_bytes_at_def Let_def)
    then show ?thesis
      using stamped_asD(3) [OF st, of j] that geneve_order [of p outer] ip by simp
  qed
  have q: "ipv4_at q outer" by (rule stamped_headers(2) [OF st ip fr])
  consider "outer = 14" "w16 p 12 = 0x0008" | "outer = 18" "w16 p 12 = 0x0081" "w16 p 16 = 0x0008"
    using eth by (auto simp: ipv4_after_eth_def split: if_splits)
  then show ?thesis
  proof cases
    case 1
    then have "w16 q 12 = w16 p 12" using before by (simp add: w16_def)
    then show ?thesis using 1 q by (simp add: ipv4_after_eth_def)
  next
    case 2
    then have "w16 q 12 = w16 p 12" "w16 q 16 = w16 p 16" using before by (simp_all add: w16_def)
    moreover have "(0x0081 :: u16) \<noteq> 0x0008" by simp
    ultimately show ?thesis using 2 q by (simp add: ipv4_after_eth_def)
  qed
qed

text \<open>What it means that the plan for a frame is to stamp it.\<close>

lemma plan_stampE:
  assumes "plan_frame ids pol p = Stamp flow src dst outer count room"
  obtains l ip sp dp where "ipv4_after_eth p 0 = Some outer" "geneve_frame p outer"
    "complete_options 4 (slice_of p (geneve_off_at p outer + 8)
       (opt_bytes_at p (geneve_off_at p outer))) = Some l" "count = length l"
    "ipv4_in_payload p (geneve_payload_at p outer) = Some (ip, room)"
    "l4_ports p ip = Some (sp, dp)" "src = known_id ids (w32 p (ip + 12))" "src \<noteq> 0"
    "dst = known_id ids (w32 p (ip + 16))"
    "\<not> explicit_deny pol src dst (bpf_ntohs dp) (p ! (ip + 9))"
  using assms that
  by (auto simp: plan_frame_def plan_geneve_def plan_inner_def plan_local_def Let_def
      split: option.splits if_splits prod.splits)

end
