(* ===== verification/Overlay_Properties.thy ===== *)
theory Overlay_Properties
  imports Overlay_Path
begin

text \<open>
  What the two TC programs guarantee together. In the fail-closed posture a tunnelled frame leaves
  the sending node stamped or not at all; the receiving node enforces its own policy for the
  stamped identity; a frame it allows is handed on with the identity option removed, and for a
  frame the kernel sent without options that is the frame that was sent.
\<close>

section \<open>The sending side\<close>

lemma egress_stamp_cases:
  assumes K: "skb_helpers K" and p: "p = pkt (skb s)" and len: "length p < 2 ^ 31"
    and st: "egress_start K s = (0, u)"
    and plan: "plan_frame (identity_map s) (policy_map s) p = Stamp flow src dst outer count room"
    and run: "meridian_tc_egress K s = Some (act, t)"
  shows "act = TC_ACT_OK \<and> stamped_as p outer src room (pkt (skb t)) \<and> count < 4 \<and>
      mark (skb t) = mark (skb s) \<or>
    (\<exists>v. (act, t) = encap_fail K (fst (k_ktime_get_ns K (world s))) (skb_len (skb s)) (Some flow)
        src dst v \<and> skb_only u v)"
proof -
  have data: "skb_data (skb u) = p" "pkt (skb u) = p" "mark (skb u) = mark (skb s)"
    using egress_start_pkt [OF K st] len by (simp_all add: p)
  obtain "ipv4_after_eth p 0 = Some outer" and fr: "geneve_frame p outer"
    using plan by (rule plan_stampE)
  then have ip: "ipv4_at p outer" by (intro ipv4_after_eth_at)
  let ?g = "geneve_off_at p outer"
  obtain rc v where v: "egress_stamp K outer (outer + ihl_at p outer * 4) ?g
      (geneve_payload_at p outer) (unat (p ! ?g AND 0x3f)) count room src u = (rc, v)"
    by fastforce
  let ?now = "fst (k_ktime_get_ns K (world s))" and ?n = "skb_len (skb s)"
  have "meridian_tc_egress K s = Some (egress_run K ?now ?n p (Stamp flow src dst outer count room) u)"
    by (simp only: egress_eq [OF st refl] data plan simp_thms if_False)
  moreover have "egress_run K ?now ?n p (Stamp flow src dst outer count room) u =
      (if rc \<noteq> 0 then encap_fail K ?now ?n (Some flow) src dst v else (TC_ACT_OK, v))"
    by (simp only: egress_run_def egress_plan.case Let_def v prod.case)
  ultimately have res: "(act, t) =
      (if rc \<noteq> 0 then encap_fail K ?now ?n (Some flow) src dst v else (TC_ACT_OK, v))"
    using run by simp
  show ?thesis
  proof (cases "rc = 0")
    case True
    note ok = skb_helpers.egress_stamp_ok [OF K v [unfolded True] data(2) [symmetric] len ip fr]
    show ?thesis using res True ok(1,2,4) data(3) by simp
  next
    case False
    then show ?thesis using res egress_stamp_footprint [OF v] by auto
  qed
qed

lemma egress_ok_stamped:
  assumes "skb_helpers K" and "length (pkt (skb s)) < 2 ^ 31" and st: "egress_start K s = (0, u)"
    and "plan_frame (identity_map s) (policy_map s) (pkt (skb s)) = Stamp flow src dst outer count room"
    and "meridian_tc_egress K s = Some (TC_ACT_OK, t)" and closed: "\<not> Tc_Egress.failopen_unknown_enabled s"
  shows "stamped_as (pkt (skb s)) outer src room (pkt (skb t)) \<and> count < 4"
  using egress_stamp_cases [OF assms(1) refl assms(2-5)]
proof (elim disjE exE conjE)
  fix w
  assume f: "(TC_ACT_OK, t) = encap_fail K (fst (k_ktime_get_ns K (world s))) (skb_len (skb s))
      (Some flow) src dst w" and "skb_only u w"
  then have "runtime_config_map w = runtime_config_map s"
    using egress_start_footprint [OF st] skb_onlyD(4) skb_only_trans by metis
  then have "\<not> Tc_Egress.failopen_unknown_enabled w"
    using closed by (simp add: Tc_Egress.failopen_unknown_enabled_def)
  then show ?thesis using f by (simp add: encap_fail_eq)
qed blast


section \<open>The receiving side\<close>

lemma stamped_ingress_spec:
  assumes st: "stamped_as p outer i room q" and eth: "ipv4_after_eth p 0 = Some outer"
    and fr: "geneve_frame p outer"
    and opts: "complete_options 4 (slice_of p (geneve_off_at p outer + 8)
        (opt_bytes_at p (geneve_off_at p outer))) = Some l" "length l < 4"
    and inner: "ipv4_in_payload p (geneve_payload_at p outer) = Some (ip, room)"
    and fresh: "frame_identity p outer = None" and few: "opt_bytes_at p (geneve_off_at p outer) \<le> 24"
    and slot: "room = 8 \<Longrightarrow> \<not> ipv4_at p (geneve_payload_at p outer + 16)"
  shows "ingress_spec fo ids pol q = ingress_flow_action fo ids pol p ip True i True"
proof -
  note ip = ipv4_after_eth_at [OF eth] and pay = stamped_payload [OF st fr inner slot]
  have "geneve_inner q outer = Some (ip + 8 - room, i, True)"
    using stamped_frame [OF st ip fr few] stamped_headers(7) [OF st ip fr] pay(1)
      stamped_frame_identity [OF st ip fr opts fresh]
    by (simp add: geneve_inner_def)
  then show ?thesis using stamped_after_eth [OF st eth fr] pay(2) by (simp add: ingress_spec_def)
qed


text \<open>
  C21. The two programs disagree on the option area: egress stamps a frame that already has seven
  or eight option words, which leaves nine or ten, and ingress refuses to parse more than eight.
  Such a frame is passed by the receiving node whatever its identities, policy and posture are.
\<close>

theorem overlay_option_overflow_unenforced:
  assumes "skb_helpers K" and "length (pkt (skb s)) < 2 ^ 31" and "egress_start K s = (0, u)"
    and plan: "plan_frame (identity_map s) (policy_map s) (pkt (skb s)) =
        Stamp flow src dst outer count room"
    and "meridian_tc_egress K s = Some (TC_ACT_OK, t)" and "\<not> Tc_Egress.failopen_unknown_enabled s"
    and full: "24 < opt_bytes_at (pkt (skb s)) (geneve_off_at (pkt (skb s)) outer)"
    and "skb_helpers K'" and "pkt (skb r) = pkt (skb t)" and "ingress_start K' r = (0, v)"
  shows "\<exists>t'. meridian_tc_ingress K' r = Some (TC_ACT_OK, t')"
proof -
  let ?p = "pkt (skb s)" and ?q = "pkt (skb t)"
  have st: "stamped_as ?p outer src room ?q" using egress_ok_stamped [OF assms(1-6)] by simp
  obtain l ip sp dp where pl: "ipv4_after_eth ?p 0 = Some outer" "geneve_frame ?p outer"
    "ipv4_in_payload ?p (geneve_payload_at ?p outer) = Some (ip, room)"
    using plan by (rule plan_stampE)
  note h = stamped_headers [OF st ipv4_after_eth_at [OF pl(1)] pl(2)]
  have "geneve_inner ?q outer = None" using h(4,6) full by (simp add: geneve_inner_def geneve_frame_def)
  then have spec: "ingress_spec fo ids pol ?q = TC_ACT_OK" for fo ids pol
    using stamped_after_eth [OF st pl(1,2)] h(3) by (simp add: ingress_spec_def)
  have "room \<le> 8" using ipv4_in_payload_slot [OF pl(3)] by auto
  then have "length ?q < 2 ^ 32" using stamped_asD(1) [OF st] assms(2) by simp
  then have "skb_data (skb v) = ?q"
    using ingress_start_pkt(1) [OF assms(8) _ assms(10)] assms(9) by simp
  then show ?thesis using ingress_returns [OF assms(10)] spec by auto
qed

section \<open>Removing the option before delivery\<close>

context live_skb_helpers
begin

lemma strip_offsets_live:
  assumes d: "d = pkt (skb s)" and len: "length d < 2 ^ 31" and g: "geneve_off_at d outer < length d"
  obtains t where "geneve_strip_offsets K outer (ihl_at d outer) s =
    ((of_nat outer, of_nat (outer + ihl_at d outer * 4), of_nat (geneve_off_at d outer),
      of_nat (geneve_payload_at d outer)), t)" "skb t = skb s"
proof -
  let ?g = "geneve_off_at d outer"
  obtain t where ld: "bpf_skb_load_bytes K (of_nat ?g) 1 s = (0, slice_of d ?g 1, t)" "skb t = skb s"
    using load_live_at [of ?g 1 s] g len by (auto simp: d)
  have udp: "(of_nat outer + of_nat (ihl_at d outer * IPV4_WORD_BYTES) :: u32) =
      of_nat (outer + ihl_at d outer * 4)" by simp
  have gv: "(of_nat (outer + ihl_at d outer * 4) + 8 :: u32) = of_nat ?g"
    by (simp add: geneve_off_at_def)
  have b: "slice_of d ?g 1 ! 0 = d ! ?g" using g by (simp add: slice_of_def)
  have base: "(of_nat ?g + 8 + ucast (d ! ?g AND 0x3f) * 4 :: u32) = of_nat (geneve_payload_at d outer)"
    by (simp add: geneve_payload_at_def opt_bytes_at_def)
  show thesis
    by (rule that [OF _ ld(2)])
       (simp only: geneve_strip_offsets_def Let_def udp gv ld(1) prod.case simp_thms if_True b base)
qed

lemma ingress_tunnel_strips:
  assumes st: "ingress_start K r = (0, v)" and q: "q = pkt (skb r)" and len: "length q < 2 ^ 31"
    and eth: "ipv4_after_eth q 0 = Some outer" and inner: "geneve_inner q outer = Some (ip, i, True)"
    and ports: "l4_ports q ip \<noteq> None" and run: "meridian_tc_ingress K r = Some (TC_ACT_OK, t)"
  obtains w where "pkt (skb w) = q" "t = snd (strip_meridian_tlv K (of_nat (geneve_payload_at q outer))
    (of_nat outer) (of_nat (outer + ihl_at q outer * 4)) (of_nat (geneve_off_at q outer)) w)"
proof -
  have data: "skb_data (skb v) = q" "pkt (skb v) = q"
    using ingress_start_pkt [OF skb_helpers_axioms _ st] len by (simp_all add: q)
  note oip = ipv4_after_eth_at [OF eth] and iip = geneve_inner_at [OF inner]
  have fr: "geneve_off_at q outer < length q"
    using inner geneve_order(2) [of q outer]
    by (auto simp: geneve_inner_def geneve_frame_def split: if_splits)
  obtain sp dp where sp: "l4_ports q ip = Some (sp, dp)" using ports by auto
  let ?now = "fst (k_ktime_get_ns K (world r))" and ?n = "skb_len (skb r)"
  define wb wg wu wo :: u32 where w: "wb = of_nat (geneve_payload_at q outer)"
    "wg = of_nat (geneve_off_at q outer)" "wu = of_nat (outer + ihl_at q outer * 4)" "wo = of_nat outer"
  have "geneve_off_at q outer < length (pkt (skb v))" using fr data(2) by simp
  then obtain u where u: "geneve_strip_offsets K outer (ihl_at q outer) v =
      ((wo, wu, wg, wb), u)" "skb u = skb v"
    using strip_offsets_live [OF data(2) [symmetric] len fr] unfolding w by blast
  have "ingress_decide K q ip ?n ?now True i True (wo, wu, wg, wb) u = Some (TC_ACT_OK, t)"
    using run ipv4_at_ihl [OF oip] inner
    by (simp add: ingress_eq [OF st] data eth ingress_ipv4_def ipv4_at_loads [OF oip] oip u(1))
  moreover have "decode_counted q ip True True u = u" by (simp add: decode_counted_def)
  ultimately have dec: "(if q ! (ip + 9) = IPPROTO_TCP \<and> i \<noteq> 0 \<and> \<not> tcp_open_at q ip
     then Some (TC_ACT_OK, snd (strip_meridian_tlv K wb wo wu wg u))
     else case enforce_flow K q ip ?n ?now sp dp i (known_id (identity_map u) (w32 q (ip + 16)))
            TC_ACT_STOLEN u of
            None \<Rightarrow> None
          | Some (a, x) \<Rightarrow> Some (a, if a = TC_ACT_OK
              then snd (strip_meridian_tlv K wb wo wu wg x) else x)) = Some (TC_ACT_OK, t)"
    using ingress_decide_eq [OF iip sp refl refl refl, where K = K and n = ?n and now = ?now and g = True
        and f = True and tlv = i and s = u and oi = wo and ud = wu and ge = wg and ba = wb]
    by (simp only: simp_thms if_True)
  note that = that [folded w]
  show thesis
  proof (cases "q ! (ip + 9) = IPPROTO_TCP \<and> i \<noteq> 0 \<and> \<not> tcp_open_at q ip")
    case True
    then show ?thesis using that [of u] dec u(2) data(2) by simp
  next
    case False
    let ?dst = "known_id (identity_map u) (w32 q (ip + 16))"
    obtain a x where x: "enforce_flow K q ip ?n ?now sp dp i ?dst TC_ACT_STOLEN u = Some (a, x)"
      "pkt (skb x) = pkt (skb u)"
      using enforce_flow_eq [OF iip refl] enforce_result_frame(3) by metis
    have "a = TC_ACT_OK \<and> t = snd (strip_meridian_tlv K wb wo wu wg x)"
      using dec False x(1) by (simp split: if_splits)
    then show ?thesis using that [of x] x(2) u(2) data(2) by simp
  qed
qed

end

end
