(* ===== verification/Overlay_Roundtrip.thy ===== *)
theory Overlay_Roundtrip
  imports Overlay_Properties
begin

text \<open>
  The frame that leaves the receiving node. The strip of \<open>meridian_tc_ingress\<close> is described byte by
  byte, and composed with the stamp of \<open>meridian_tc_egress\<close>: for a frame without options the two
  programs together are the identity on the frame.
\<close>

section \<open>The result of a strip\<close>

text \<open>What a strip leaves, when the identity option is the last option of the frame.\<close>

lemma w16_overwrite_same:
  "off + 2 \<le> length p \<Longrightarrow> w16 (overwrite p off (bytes16 v)) off = v"
  using le16_of_bytes [of v] by (simp add: w16_def nth_overwrite)

lemma w16_overwrite_other:
  assumes "off + length xs \<le> length p" and "k + 2 \<le> length p" and "k + 2 \<le> off \<or> off + length xs \<le> k"
  shows "w16 (overwrite p off xs) k = w16 p k"
  using assms by (auto simp: w16_def nth_overwrite)

lemma strip_frame_result:
  assumes ord: "outer + 20 \<le> udp" "udp + 8 = g" "g + 16 \<le> base" "base \<le> length q"
    and r: "r = strip_frame q outer udp g base"
  shows "length r = length q" "r ! g = q ! g AND 0xc0"
    "w16 r (outer + 2) = bpf_htons (bpf_ntohs (w16 q (outer + 2)) - 8)"
    "w16 r (udp + 4) = bpf_htons (bpf_ntohs (w16 q (udp + 4)) - 8)"
    "\<And>j. j + 8 < base \<Longrightarrow> j \<notin> {outer + 2, outer + 3, udp + 4, udp + 5, g} \<Longrightarrow> r ! j = q ! j"
    "\<And>j. base \<le> j + 8 \<Longrightarrow> j + 8 < length q \<Longrightarrow> r ! j = q ! (j + 8)"
proof -
  let ?s = "shift_down q (base - 8) (length q - 8)"
  have ls: "length ?s = length q" using ord by simp
  have ns: "?s ! j = (if base \<le> j + 8 \<and> j + 8 < length q then q ! (j + 8) else q ! j)"
    if "j < length q" for j
    using that ord by (auto simp: nth_shift_down)
  define a where "a = overwrite ?s g [?s ! g AND 0xc0]"
  have la: "length a = length q" using ls ord by (simp add: a_def)
  have na: "a ! j = (if j = g then q ! g AND 0xc0 else ?s ! j)" if "j < length q" for j
    using that ls ord ns [of g] by (auto simp: a_def nth_overwrite)
  define l1 where "l1 = bpf_htons (bpf_ntohs (w16 a (outer + 2)) - 8)"
  define b where "b = overwrite a (outer + 2) (bytes16 l1)"
  have lb: "length b = length q" using la ord by (simp add: b_def)
  have nb: "b ! j = a ! j" if "j < length q" "j \<noteq> outer + 2" "j \<noteq> outer + 3" for j
    using that la ord by (auto simp: b_def nth_overwrite)
  define l2 where "l2 = bpf_htons (bpf_ntohs (w16 b (udp + 4)) - 8)"
  have req: "r = overwrite b (udp + 4) (bytes16 l2)"
    by (simp add: r strip_frame_def Let_def a_def l1_def b_def l2_def)
  show lr: "length r = length q" using lb ord by (simp add: req)
  have nr: "r ! j = b ! j" if "j < length q" "j \<noteq> udp + 4" "j \<noteq> udp + 5" for j
    using that lb ord by (auto simp: req nth_overwrite)
  show "r ! g = q ! g AND 0xc0" using nr [of g] nb [of g] na [of g] ord by simp
  have wa: "w16 a k = w16 q k" if "k + 2 \<le> g" for k
    using that na [of k] na [of "k + 1"] ns [of k] ns [of "k + 1"] ord by (simp add: w16_def)
  have "w16 r (outer + 2) = w16 b (outer + 2)"
    unfolding req using ord lb by (intro w16_overwrite_other) simp_all
  also have "\<dots> = l1" unfolding b_def using la ord by (intro w16_overwrite_same) simp
  finally show "w16 r (outer + 2) = bpf_htons (bpf_ntohs (w16 q (outer + 2)) - 8)"
    using wa [of "outer + 2"] ord by (simp add: l1_def)
  have "w16 b (udp + 4) = w16 a (udp + 4)"
    unfolding b_def using ord la by (intro w16_overwrite_other) simp_all
  moreover have "w16 r (udp + 4) = l2" unfolding req using lb ord by (intro w16_overwrite_same) simp
  ultimately show "w16 r (udp + 4) = bpf_htons (bpf_ntohs (w16 q (udp + 4)) - 8)"
    using wa [of "udp + 4"] ord by (simp add: l2_def)
  show "r ! j = q ! j" if "j + 8 < base" "j \<notin> {outer + 2, outer + 3, udp + 4, udp + 5, g}" for j
    using that nr [of j] nb [of j] na [of j] ns [of j] ord by simp
  show "r ! j = q ! (j + 8)" if "base \<le> j + 8" "j + 8 < length q" for j
    using that nr [of j] nb [of j] na [of j] ns [of j] ord by simp
qed

context live_skb_helpers
begin

lemma strip_live_frame:
  assumes "pkt (skb w) = q" and "outer + 20 \<le> udp" "udp + 8 = g" "g + 16 \<le> base" "base \<le> length q"
    and "length q \<le> base + 256" and "length q < 2 ^ 31"
  shows "pkt (skb (snd (strip_meridian_tlv K (of_nat base) (of_nat outer) (of_nat udp) (of_nat g) w))) =
    strip_frame q outer udp g base"
proof -
  have "length (pkt (skb w)) - base \<le> 256" using assms(1,6) by simp
  then obtain t where
    t: "strip_meridian_tlv K (of_nat base) (of_nat outer) (of_nat udp) (of_nat g) w = (0, t)"
    using strip_live [of base w g outer udp] assms by auto
  have "unat (of_nat base :: u32) = base" "unat (of_nat outer :: u32) = outer"
    "unat (of_nat udp :: u32) = udp" "unat (of_nat g :: u32) = g"
    using assms by simp_all
  then show ?thesis using strip_ok(1) [OF t] t assms by simp
qed

end

text \<open>What an allowed tunnelled frame looks like, whatever options precede the inner frame.\<close>

lemma allowed_tunnel_result:
  assumes K: "live_skb_helpers K" and st: "ingress_start K s = (0, v)"
    and len: "length (pkt (skb s)) < 2 ^ 31"
    and eth: "ipv4_after_eth (pkt (skb s)) 0 = Some outer"
    and inner: "geneve_inner (pkt (skb s)) outer = Some (ip, i, True)"
    and ports: "l4_ports (pkt (skb s)) ip \<noteq> None"
    and run: "meridian_tc_ingress K s = Some (TC_ACT_OK, t)"
    and g: "g = geneve_off_at (pkt (skb s)) outer" and udp: "udp = outer + ihl_at (pkt (skb s)) outer * 4"
    and base: "base = g + 8 + opt_bytes_at (pkt (skb s)) g"
    and opts: "8 \<le> opt_bytes_at (pkt (skb s)) g" and small: "length (pkt (skb s)) \<le> base + 256"
  shows "pkt (skb t) = strip_frame (pkt (skb s)) outer udp g base"
    "outer + 20 \<le> udp" "udp + 8 = g" "g + 16 \<le> base" "base \<le> length (pkt (skb s))"
proof -
  let ?q = "pkt (skb s)"
  have ip: "ipv4_at ?q outer" by (rule ipv4_after_eth_at [OF eth])
  have fr: "geneve_frame ?q outer" using inner by (auto simp: geneve_inner_def split: if_splits)
  show ord: "outer + 20 \<le> udp" "udp + 8 = g" "g + 16 \<le> base" "base \<le> length ?q"
    using ipv4_at_ihl [OF ip] fr opts
    by (simp_all add: udp g base geneve_off_at_def geneve_payload_at_def geneve_frame_def)
  have payload: "geneve_payload_at ?q outer = base" by (simp add: base g geneve_payload_at_def)
  obtain w where w: "pkt (skb w) = ?q" "t = snd (strip_meridian_tlv K (of_nat (geneve_payload_at ?q outer))
      (of_nat outer) (of_nat (outer + ihl_at ?q outer * 4)) (of_nat (geneve_off_at ?q outer)) w)"
    by (rule live_skb_helpers.ingress_tunnel_strips [OF K st refl len eth inner ports run])
  show "pkt (skb t) = strip_frame ?q outer udp g base"
    unfolding w(2) payload g [symmetric] udp [symmetric]
    by (rule live_skb_helpers.strip_live_frame [OF K w(1) ord small len])
qed

lemma strip_moves_inner:
  assumes "outer + 20 \<le> udp" "udp + 8 = g" "g + 16 \<le> base" "base \<le> length q"
    and r: "r = strip_frame q outer udp g base"
  shows "slice_of r (base - 8) (length q - base) = drop base q"
proof (rule nth_equalityI)
  note res = strip_frame_result [OF assms]
  show "length (slice_of r (base - 8) (length q - base)) = length (drop base q)"
    using res(1) assms(3,4) by simp
  fix j assume "j < length (slice_of r (base - 8) (length q - base))"
  then have "j < length q - base" using res(1) assms(3,4) by simp
  then show "slice_of r (base - 8) (length q - base) ! j = drop base q ! j"
    using res(6) [of "base - 8 + j"] res(1) assms(3,4) by (simp add: slice_of_def)
qed

lemma and_disjoint_masks: "((b :: byte) AND 0xc0) AND 0x3f = 0"
  by (simp add: and.assoc)


context live_skb_helpers
begin

lemma strip_too_long:
  assumes q: "pkt (skb s) = q" and base: "8 \<le> base" and long: "base + 256 < length q" and len: "length q < 2 ^ 31"
  shows "pkt (skb (snd (strip_meridian_tlv K (of_nat base) wo wu wg s))) = q"
proof -
  obtain u where u: "bpf_skb_pull_data K (skb_len (skb s)) s = (0, u)" using pull_live_dp by blast
  have p: "pkt (skb u) = q" using pull_data_dp(1) [OF u] q len by simp
  have n: "unat (skb_len (skb u)) = length q" using unat_skb_len [of "skb u"] p len by simp
  have b: "unat (of_nat base :: u32) = base" using long len by simp
  have le: "(of_nat base :: u32) \<le> skb_len (skb u)" using n b long by (simp add: word_le_nat_alt)
  have diff: "unat (skb_len (skb u) - of_nat base) = length q - base"
    using unat_sub [OF le] n b by simp
  have "\<not> (of_nat base :: u32) < 8" "\<not> skb_len (skb u) < of_nat base" "256 < skb_len (skb u) - of_nat base"
    using base long n b diff by (simp_all add: word_less_nat_alt)
  then show ?thesis using u p by (simp add: strip_meridian_tlv_def)
qed

end

text \<open>
  An allowed tunnelled frame whose inner frame is longer than the 256 bytes the strip can move
  is passed with \<open>TC_ACT_OK\<close> and not a byte of it changed: the identity option and the non-zero
  option length are still there for the kernel's Geneve device.
\<close>

theorem long_inner_is_not_stripped:
  assumes "live_skb_helpers K" and "ingress_start K s = (0, v)"
    and "length (pkt (skb s)) < 2 ^ 31"
    and "ipv4_after_eth (pkt (skb s)) 0 = Some outer"
    and "geneve_inner (pkt (skb s)) outer = Some (ip, i, True)"
    and "l4_ports (pkt (skb s)) ip \<noteq> None"
    and "meridian_tc_ingress K s = Some (TC_ACT_OK, t)"
    and long: "geneve_payload_at (pkt (skb s)) outer + 256 < length (pkt (skb s))"
  shows "pkt (skb t) = pkt (skb s)"
proof -
  let ?q = "pkt (skb s)"
  obtain w where w: "pkt (skb w) = ?q" "t = snd (strip_meridian_tlv K (of_nat (geneve_payload_at ?q outer))
      (of_nat outer) (of_nat (outer + ihl_at ?q outer * 4)) (of_nat (geneve_off_at ?q outer)) w)"
    by (rule live_skb_helpers.ingress_tunnel_strips [OF assms(1,2) refl assms(3-7)])
  have "8 \<le> geneve_payload_at ?q outer" by (simp add: geneve_payload_at_def geneve_off_at_def)
  then show ?thesis unfolding w(2) by (rule live_skb_helpers.strip_too_long [OF assms(1) w(1) _ long assms(3)])
qed

text \<open>
  The strip only makes room for eight bytes: if other options precede the identity option, the
  frame is delivered with option length zero while the bytes of those options stay behind the base
  header, where the kernel will read them as the start of the inner frame.
\<close>

theorem strip_keeps_other_options:
  assumes "live_skb_helpers K" and "ingress_start K s = (0, v)"
    and "length (pkt (skb s)) < 2 ^ 31"
    and "ipv4_after_eth (pkt (skb s)) 0 = Some outer"
    and "geneve_inner (pkt (skb s)) outer = Some (ip, i, True)"
    and "l4_ports (pkt (skb s)) ip \<noteq> None"
    and "meridian_tc_ingress K s = Some (TC_ACT_OK, t)"
    and g: "g = geneve_off_at (pkt (skb s)) outer" and "udp = outer + ihl_at (pkt (skb s)) outer * 4"
    and more: "8 < opt_bytes_at (pkt (skb s)) g"
    and small: "length (pkt (skb s)) \<le> g + 8 + opt_bytes_at (pkt (skb s)) g + 256"
  shows "pkt (skb t) ! g AND 0x3f = 0 \<and>
    slice_of (pkt (skb t)) (g + 8) (opt_bytes_at (pkt (skb s)) g - 8) =
      slice_of (pkt (skb s)) (g + 8) (opt_bytes_at (pkt (skb s)) g - 8)"
proof -
  let ?ob = "opt_bytes_at (pkt (skb s)) g"
  have "8 \<le> ?ob" using more by simp
  note r = allowed_tunnel_result [OF assms(1-9) refl this small]
  note res = strip_frame_result [OF r(2-5) r(1)]
  have "pkt (skb t) ! (g + 8 + j) = pkt (skb s) ! (g + 8 + j)" if "j < ?ob - 8" for j
    using that res(5) [of "g + 8 + j"] r(2,3) by simp
  then show ?thesis
    using res(1,2) r(5) and_disjoint_masks more by (simp add: slice_of_conv_nth)
qed

section \<open>Frames without options\<close>

text \<open>
  A frame as the kernel's Geneve device sends it: no options, UDP checksum off, lengths that match
  the frame, and headers within the bounds of the insertion.
\<close>

definition plain_tunnel :: "byte list \<Rightarrow> nat \<Rightarrow> bool" where
  "plain_tunnel p outer \<longleftrightarrow>
     (let udp = outer + ihl_at p outer * 4; base = geneve_payload_at p outer
      in opt_bytes_at p (geneve_off_at p outer) = 0 \<and> w16 p (udp + 6) = 0 \<and>
         bpf_ntohs (w16 p (outer + 2)) = of_nat (length p - outer) \<and>
         bpf_ntohs (w16 p (udp + 4)) = of_nat (length p - udp) \<and>
         base \<le> 80 \<and> base \<le> outer + 64 \<and> base < length p \<and> length p \<le> base + 256)"

context live_skb_helpers
begin

lemma egress_stamp_live:
  assumes p: "p = pkt (skb s)" and ip: "ipv4_at p outer" and fr: "geneve_frame p outer"
    and plain: "plain_tunnel p outer" and cnt: "count < 4" and udp: "udp = outer + ihl_at p outer * 4"
  shows "\<exists>t. egress_stamp K outer udp (geneve_off_at p outer) (geneve_payload_at p outer)
      (unat (p ! geneve_off_at p outer AND 0x3f)) count 0 i s = (0, t) \<and>
    w16 (pkt (skb t)) (outer + 2) = bpf_htons (of_nat (length p + 8 - outer)) \<and>
    w16 (pkt (skb t)) (udp + 4) = bpf_htons (of_nat (length p + 8 - udp)) \<and>
    pkt (skb t) ! udp = p ! udp \<and> pkt (skb t) ! (udp + 1) = p ! (udp + 1)"
proof -
  let ?g = "geneve_off_at p outer" and ?base = "geneve_payload_at p outer"
  let ?words = "unat (p ! ?g AND 0x3f)"
  have ord: "outer + 20 \<le> udp" "udp + 8 = ?g" "?g + 8 = ?base" "?base < length p" "length p < 2 ^ 30"
    using ipv4_at_ihl [OF ip] fr plain
    by (simp_all add: udp geneve_off_at_def geneve_payload_at_def geneve_frame_def plain_tunnel_def Let_def)
  have "outer < ?base" "?base \<le> 80" "?base \<le> outer + 64"
    using plain ord by (simp_all add: plain_tunnel_def Let_def)
  then have "outer < ?base" "?base \<le> 80" "?base - outer \<le> 64" by simp_all
  then obtain u where ins: "insert_inner_tlv_room K (of_nat ?base) (of_nat outer) (of_nat udp)
      (?words * 4) s = (0, u)"
    using insert_live [of outer ?base s "of_nat udp" "?words * 4"] ord by (auto simp: p)
  have "unat (of_nat ?base :: u32) = ?base" using ord by simp
  then obtain x where x: "length x = 8" "pkt (skb u) = take ?base p @ x @ drop ?base p"
    using insert_ok(1) [OF ins] ord by (auto simp: p)
  have "?base \<le> length p" using ord by simp
  note r = inserted_room [OF x(1) this x(2)]
  have chk: "w16 (pkt (skb u)) (udp + 6) = 0"
    using plain r(2) ord by (simp add: plain_tunnel_def udp [symmetric] Let_def w16_def)
  let ?b1 = "overwrite (pkt (skb u)) (outer + 2) (bytes16 (bpf_htons (of_nat (length p + 8 - outer))))"
  let ?b = "overwrite ?b1 (udp + 4) (bytes16 (bpf_htons (of_nat (length p + 8 - udp))))"
  obtain v where bump: "bump_udp_geneve_lengths K (of_nat outer) (of_nat udp) u = (0, v)" "pkt (skb v) = ?b"
    using bump_live [of outer u udp] ord r(1) chk by auto
  have l1: "length ?b1 = length p + 8" using r(1) ord by simp
  have lv: "length (pkt (skb v)) = length p + 8" unfolding bump(2) using l1 ord by simp
  obtain t where st: "stamp_identity_tlv K (of_nat ?base) (of_nat ?g) ?words i v = (0, t)"
    using stamp_live [of ?base v ?g ?words i] ord lv by auto
  have "egress_stamp K outer udp ?g ?base ?words count 0 i s = (0, t)"
    using cnt by (simp add: egress_stamp_def Let_def ins bump(1) st)
  moreover have un: "unat (of_nat ?base :: u32) = ?base" "unat (of_nat ?g :: u32) = ?g" using ord by simp_all
  have keep: "pkt (skb t) ! j = ?b ! j" if "j < ?g" for j
  proof -
    have "?base + length (identity_tlv i) \<le> length ?b" using lv bump(2) ord by simp
    then show ?thesis
      using stamp_ok(1) [OF st refl] that ord lv unfolding un bump(2)
      by (simp add: nth_overwrite)
  qed
  have wkeep: "w16 (pkt (skb t)) k = w16 ?b k" if "k + 2 \<le> ?g" for k
    using that keep [of k] keep [of "k + 1"] by (simp add: w16_def)
  have "w16 ?b (outer + 2) = bpf_htons (of_nat (length p + 8 - outer))"
    using ord l1 r(1) by (simp add: w16_overwrite_other w16_overwrite_same)
  moreover have "w16 ?b (udp + 4) = bpf_htons (of_nat (length p + 8 - udp))"
    using ord l1 by (intro w16_overwrite_same) simp
  moreover have "?b ! udp = p ! udp" "?b ! (udp + 1) = p ! (udp + 1)"
    using ord l1 r by (simp_all add: nth_overwrite)
  ultimately show ?thesis using wkeep [of "outer + 2"] wkeep [of "udp + 4"] keep [of udp] keep [of "udp + 1"] ord
    by auto
qed

end

lemma le16_inject: "le16 a b = le16 c d \<longleftrightarrow> a = c \<and> b = d"
proof
  assume "le16 a b = le16 c d"
  then have "bytes16 (le16 a b) = bytes16 (le16 c d)" by (simp only:)
  then show "a = c \<and> b = d" by (simp only: bytes16_le16 list.inject simp_thms)
qed simp

lemma w16_eqD: "w16 r k = w16 p k \<Longrightarrow> r ! k = p ! k \<and> r ! (k + 1) = p ! (k + 1)"
  by (simp add: w16_def le16_inject)

lemma complete_options_Nil [simp]: "complete_options n [] = Some []"
  by (cases n) simp_all

lemma byte_zero_parts: "drop_bit 6 (b :: byte) = 0 \<Longrightarrow> unat (b AND 0x3f) = 0 \<Longrightarrow> b = 0"
proof -
  assume "drop_bit 6 b = 0" "unat (b AND 0x3f) = 0"
  then have "b AND 0xc0 = 0" "b AND 0x3f = 0" using byte_high_zero by (simp_all add: unat_eq_0)
  then have "b AND (0xc0 OR 0x3f) = 0" by (simp only: bit.conj_disj_distrib or.left_neutral)
  moreover have "(0xc0 OR 0x3f :: byte) = - 1" by simp
  ultimately have "b AND - 1 = 0" by (simp only:)
  then show ?thesis by simp
qed

lemma stamped_strip_identity:
  assumes st: "stamped_as p outer i 0 q" and ip: "ipv4_at p outer" and fr: "geneve_frame p outer"
    and plain: "plain_tunnel p outer" and udp: "udp = outer + ihl_at p outer * 4"
    and w: "w16 q (outer + 2) = bpf_htons (of_nat (length p + 8 - outer))"
      "w16 q (udp + 4) = bpf_htons (of_nat (length p + 8 - udp))"
      "q ! udp = p ! udp" "q ! (udp + 1) = p ! (udp + 1)"
    and r: "r = strip_frame q outer udp (geneve_off_at p outer) (geneve_payload_at p outer + 8)"
  shows "take (length p) r = p" "length r = length p + 8"
proof -
  let ?g = "geneve_off_at p outer" and ?base = "geneve_payload_at p outer"
  have pl: "opt_bytes_at p ?g = 0" "bpf_ntohs (w16 p (outer + 2)) = of_nat (length p - outer)"
    "bpf_ntohs (w16 p (udp + 4)) = of_nat (length p - udp)" "?base < length p"
    using plain unfolding plain_tunnel_def Let_def udp [symmetric] by simp_all
  have ord: "outer + 20 \<le> udp" "udp + 8 = ?g" "?g + 8 = ?base" "length q = length p + 8"
    using ipv4_at_ihl [OF ip] pl(1) stamped_asD(1) [OF st]
    by (simp_all add: udp geneve_off_at_def geneve_payload_at_def)
  have "?g + 16 \<le> ?base + 8" "?base + 8 \<le> length q" using ord pl(4) by simp_all
  note res = strip_frame_result [OF ord(1,2) this r]
  show lr: "length r = length p + 8" using res(1) ord(4) by simp
  have sub: "(of_nat (n + 8 - k) - 8 :: u16) = of_nat (n - k)" if "k \<le> n" for n k
    using that by (simp add: of_nat_diff)
  have le: "outer \<le> length p" "udp \<le> length p" using ord pl(4) by simp_all
  have w1: "w16 r (outer + 2) = w16 p (outer + 2)"
    by (simp only: res(3) w(1) bpf_htons_htons sub [OF le(1)] pl(2) [symmetric])
  have w2: "w16 r (udp + 4) = w16 p (udp + 4)"
    by (simp only: res(4) w(2) bpf_htons_htons sub [OF le(2)] pl(3) [symmetric])
  have suc: "outer + 2 + 1 = outer + 3" "udp + 4 + 1 = udp + 5" by simp_all
  note b = w16_eqD [OF w1, unfolded suc] w16_eqD [OF w2, unfolded suc]
  have zero: "p ! ?g = 0" "q ! ?g = 2"
  proof -
    have d: "drop_bit 6 (p ! ?g) = 0" "unat (p ! ?g AND 0x3f) = 0"
      using fr pl(1) by (simp_all add: geneve_frame_def opt_bytes_at_def)
    then show "p ! ?g = 0" by (rule byte_zero_parts)
    show "q ! ?g = 2" using stamped_headers(5) [OF st ip fr] d(2) by simp
  qed
  show "take (length p) r = p"
  proof (rule nth_equalityI)
    show "length (take (length p) r) = length p" using lr by simp
    fix j assume "j < length (take (length p) r)"
    then have j: "j < length p" by simp
    consider "?base \<le> j" | "j < ?base" "j \<in> {outer + 2, outer + 3, udp + 4, udp + 5, ?g}"
      | "j < ?base" "j \<notin> {outer + 2, outer + 3, udp + 4, udp + 5, ?g}" by linarith
    then have "r ! j = p ! j"
    proof cases
      case 1
      then obtain k where k: "j = ?base + k" using le_Suc_ex by blast
      have "q ! (?base + 8 + k) = drop (?base + 8) q ! k" using ord pl(4) by simp
      also have "\<dots> = p ! j" using stamped_asD(6) [OF st] pl(4) by (simp add: k)
      finally show ?thesis using res(6) [of j] j ord(4) 1 by (simp add: k ac_simps)
    next
      case 2
      then show ?thesis using b zero res(2) by auto
    next
      case 3
      then have "q ! j = p ! j"
        using stamped_asD(3) [OF st, of j] w(3,4)
        by (cases "j \<in> length_bytes_at p outer") (auto simp: length_bytes_at_def udp [symmetric] Let_def)
      then show ?thesis using res(5) [of j] 3 by simp
    qed
    then show "take (length p) r ! j = p ! j" using j by simp
  qed
qed

lemma stamped_transparent:
  assumes K: "live_skb_helpers K" and q: "pkt (skb r) = q" and start: "ingress_start K r = (0, v)"
    and run: "meridian_tc_ingress K r = Some (TC_ACT_OK, t)"
    and sa: "stamped_as p outer i 0 q" and eth: "ipv4_after_eth p 0 = Some outer"
    and fr: "geneve_frame p outer"
    and inner: "ipv4_in_payload p (geneve_payload_at p outer) = Some (ip, 0)"
    and ports: "l4_ports p ip = Some ports"
    and plain: "plain_tunnel p outer" and udp: "udp = outer + ihl_at p outer * 4"
    and w: "w16 q (outer + 2) = bpf_htons (of_nat (length p + 8 - outer))"
      "w16 q (udp + 4) = bpf_htons (of_nat (length p + 8 - udp))"
      "q ! udp = p ! udp" "q ! (udp + 1) = p ! (udp + 1)"
  shows "take (length p) (pkt (skb t)) = p" "length (pkt (skb t)) = length p + 8"
proof -
  let ?g = "geneve_off_at p outer" and ?base = "geneve_payload_at p outer"
  note oip = ipv4_after_eth_at [OF eth]
  have pl: "opt_bytes_at p ?g = 0" "?base < length p" "length p \<le> ?base + 256" "length p < 2 ^ 30"
    using plain by (simp_all add: plain_tunnel_def Let_def)
  have ord: "outer + 20 \<le> udp" "udp + 8 = ?g" "?g + 16 = ?base + 8" "length q = length p + 8"
    using ipv4_at_ihl [OF oip] pl(1) stamped_asD(1) [OF sa]
    by (simp_all add: udp geneve_off_at_def geneve_payload_at_def)
  note h = stamped_headers [OF sa oip fr]
  have opts: "slice_of p (?g + 8) (opt_bytes_at p ?g) = []" by (simp add: pl(1) slice_of_def)
  have "frame_identity p outer = None" by (simp add: frame_identity_def opts identity_in_def)
  then have id: "frame_identity q outer = Some i"
    by (intro stamped_frame_identity [OF sa oip fr, where l = "[]"]) (simp_all add: opts)
  have bp: "?base \<le> length p" "?base + 8 \<le> length q" using pl(2) ord(4) by simp_all
  obtain k where k: "ip = ?base + k" using inner ipv4_in_payload_drop [OF bp(1)] by auto
  have pay: "ipv4_in_payload q (?base + 8) = Some (ip + 8, 0)"
    using stamped_payload(1) [OF sa fr inner] by simp
  have tail: "drop (?base + 8) q = drop ?base p" using stamped_asD(6) [OF sa] by simp
  have "l4_ports q (?base + 8 + k) = l4_ports p (?base + k)"
    unfolding l4_ports_drop [OF bp(1)] l4_ports_drop [OF bp(2)] tail ..
  then have qports: "l4_ports q (ip + 8) \<noteq> None" using ports by (simp add: k ac_simps)
  have gi: "geneve_inner q outer = Some (ip + 8, i, True)"
    using stamped_frame [OF sa oip fr] pl(1) h(7) pay id by (simp add: geneve_inner_def)
  have lq: "length q < 2 ^ 31" using pl(4) ord(4) by simp
  obtain x where x: "pkt (skb x) = q" "t = snd (strip_meridian_tlv K (of_nat (geneve_payload_at q outer))
      (of_nat outer) (of_nat (outer + ihl_at q outer * 4)) (of_nat (geneve_off_at q outer)) x)"
    by (rule live_skb_helpers.ingress_tunnel_strips [OF K start q [symmetric] lq
          stamped_after_eth [OF sa eth fr] gi qports run])
  have "pkt (skb t) = strip_frame q outer udp ?g (?base + 8)"
    unfolding x(2) h(1,4,7) udp [symmetric]
    using pl(3) ord lq bp(2)
    by (intro live_skb_helpers.strip_live_frame [OF K x(1) ord(1,2)]) simp_all
  note r = stamped_strip_identity [OF sa oip fr plain udp w this]
  show "take (length p) (pkt (skb t)) = p" "length (pkt (skb t)) = length p + 8" by (rule r)+
qed

lemma egress_live_stamps:
  assumes K: "live_skb_helpers K" and st: "egress_start K s = (0, u)"
    and plan: "plan_frame (identity_map s) (policy_map s) (pkt (skb s)) = Stamp flow src dst outer count 0"
    and plain: "plain_tunnel (pkt (skb s)) outer" and udp: "udp = outer + ihl_at (pkt (skb s)) outer * 4"
  obtains t where "meridian_tc_egress K s = Some (TC_ACT_OK, t)"
    "stamped_as (pkt (skb s)) outer src 0 (pkt (skb t))"
    "w16 (pkt (skb t)) (outer + 2) = bpf_htons (of_nat (length (pkt (skb s)) + 8 - outer))"
    "w16 (pkt (skb t)) (udp + 4) = bpf_htons (of_nat (length (pkt (skb s)) + 8 - udp))"
    "pkt (skb t) ! udp = pkt (skb s) ! udp" "pkt (skb t) ! (udp + 1) = pkt (skb s) ! (udp + 1)"
proof -
  let ?p = "pkt (skb s)"
  let ?g = "geneve_off_at ?p outer" and ?base = "geneve_payload_at ?p outer"
  note K0 = live_skb_helpers.axioms(1) [OF K]
  have short: "length ?p < 2 ^ 30" and none: "opt_bytes_at ?p ?g = 0" and inside: "?base < length ?p"
    "length ?p \<le> ?base + 256"
    using plain by (simp_all add: plain_tunnel_def Let_def)
  obtain l ip sp dp where pl: "ipv4_after_eth ?p 0 = Some outer" "geneve_frame ?p outer"
    "complete_options 4 (slice_of ?p (?g + 8) (opt_bytes_at ?p ?g)) = Some l" "count = length l"
    using plan by (rule plan_stampE)
  have few: "count < 4" using pl(3,4) none by (simp add: slice_of_def)
  note oip = ipv4_after_eth_at [OF pl(1)]
  have data: "skb_data (skb u) = ?p" "pkt (skb u) = ?p"
    using egress_start_pkt [OF K0 st] short by simp_all
  obtain t where t: "egress_stamp K outer udp ?g ?base (unat (?p ! ?g AND 0x3f)) count 0 src u = (0, t)"
    "w16 (pkt (skb t)) (outer + 2) = bpf_htons (of_nat (length ?p + 8 - outer))"
    "w16 (pkt (skb t)) (udp + 4) = bpf_htons (of_nat (length ?p + 8 - udp))"
    "pkt (skb t) ! udp = ?p ! udp" "pkt (skb t) ! (udp + 1) = ?p ! (udp + 1)"
    using live_skb_helpers.egress_stamp_live [OF K data(2) [symmetric] oip pl(2) plain few udp]
    by blast
  have sa: "stamped_as ?p outer src 0 (pkt (skb t))"
    using skb_helpers.egress_stamp_ok(1) [OF K0 t(1) [unfolded udp] data(2) [symmetric] _ oip pl(2)]
      short by simp
  have "meridian_tc_egress K s = Some (TC_ACT_OK, t)"
    using t(1) by (simp add: egress_eq [OF st refl] data plan egress_run_def udp [symmetric])
  then show thesis using that sa t(2-5) by blast
qed


end
