(* ===== verification/Overlay_Examples.thy ===== *)
theory Overlay_Examples
  imports Overlay_Roundtrip
begin

text \<open>
  The overlay properties on concrete frames: the TCP SYN of pod 10.0.0.1 (identity 7) sent through
  the Geneve tunnel, stamped by the sending node and judged by the receiving node.
\<close>

section \<open>The demo tunnel\<close>

definition demo_tunnel :: "byte list" where
  "demo_tunnel = tunnel_frame [] (tcp_frame 2)"

definition demo_sender :: "u64 dp" where
  "demo_sender = demo_dp demo_tunnel 0 (demo_pol 6 0 0)"

definition demo_flow :: flow_key where
  "demo_flow = \<lparr>fk_src_ip = 0x0100000a, fk_dst_ip = 0x0200000a, fk_src_port = 0x409c,
     fk_dst_port = 0x901f, fk_proto = 6, fk_pad_0 = 0, fk_pad_1 = 0, fk_pad_2 = 0\<rparr>"

lemma demo_sender_simps [simp]:
  "pkt (skb demo_sender) = demo_tunnel" "identity_map demo_sender = demo_ids"
  "policy_map demo_sender = demo_pol 6 0 0" "fst (egress_start model_kernel demo_sender) = 0"
  "length demo_tunnel = 104" "metrics_ok demo_sender"
  by (simp_all add: demo_sender_def demo_tunnel_def demo_egress_start metrics_ok_def)

lemma demo_fail_closed:
  "\<not> Tc_Egress.failopen_unknown_enabled (demo_dp f 0 p)"
  "\<not> Tc_Ingress.failopen_unknown_enabled (demo_dp f 0 p)"
  by (simp_all add: Tc_Egress.failopen_unknown_enabled_def Tc_Ingress.failopen_unknown_enabled_def
      map_helper_defs array_lookup_def)

lemma demo_sender_start: "egress_start model_kernel demo_sender = (0, snd (egress_start model_kernel demo_sender))"
  by (metis demo_sender_simps(4) prod.collapse)

lemma demo_ingress_start:
  "ingress_start model_kernel (demo_dp f c p) = (0, snd (ingress_start model_kernel (demo_dp f c p)))"
  by (simp add: ingress_start_def map_helper_defs skb_helper_defs model_kernel_def)

lemma demo_tunnel_plan:
  "plan_frame (identity_map demo_sender) (policy_map demo_sender) (pkt (skb demo_sender)) =
     Stamp demo_flow 7 9 14 0 0"
  by code_simp

lemma demo_tunnel_plain: "plain_tunnel demo_tunnel 14"
  "frame_identity demo_tunnel 14 = None" "opt_bytes_at demo_tunnel (geneve_off_at demo_tunnel 14) = 0"
  "ipv4_in_payload demo_tunnel (geneve_payload_at demo_tunnel 14) = Some (64, 0)"
  by code_simp+

lemma demo_tunnel_action:
  "ingress_flow_action False demo_ids (demo_pol 6 0 0) demo_tunnel 64 True 7 True = TC_ACT_OK"
  "ingress_flow_action False demo_ids (demo_pol 6 1 0) demo_tunnel 64 True 7 True = TC_ACT_STOLEN"
  by code_simp+

lemma demo_sender_stamps:
  obtains t where "meridian_tc_egress model_kernel demo_sender = Some (TC_ACT_OK, t)"
  using egress_live_stamps [OF mk.live_skb_helpers_axioms demo_sender_start demo_tunnel_plan _ refl]
    demo_tunnel_plain(1) by auto

lemma demo_ingress_allows:
  assumes "stamped_as demo_tunnel 14 7 0 q"
  shows "\<exists>t. meridian_tc_ingress model_kernel (demo_dp q 0 (demo_pol 6 0 0)) = Some (TC_ACT_OK, t)"
proof -
  let ?r = "demo_dp q 0 (demo_pol 6 0 0)"
  have pl: "ipv4_after_eth demo_tunnel 0 = Some 14" "geneve_frame demo_tunnel 14"
    "complete_options 4 (slice_of demo_tunnel (geneve_off_at demo_tunnel 14 + 8)
       (opt_bytes_at demo_tunnel (geneve_off_at demo_tunnel 14))) = Some []" "length [] < (4 :: nat)"
    by code_simp+
  from stamped_ingress_spec [OF assms pl demo_tunnel_plain(4,2)]
  have spec: "ingress_spec False demo_ids (demo_pol 6 0 0) q = TC_ACT_OK"
    using demo_tunnel_plain(3) demo_tunnel_action(1) by simp
  have "length q < 2 ^ 32" using stamped_asD(1) [OF assms] by simp
  then have "skb_data (skb (snd (ingress_start model_kernel ?r))) = q"
    using ingress_start_pkt(1) [OF mk.skb_helpers_axioms _ demo_ingress_start [of q 0 "demo_pol 6 0 0"]]
    by simp
  then show ?thesis
    using ingress_returns [OF demo_ingress_start [of q 0 "demo_pol 6 0 0"]] spec demo_fail_closed(2) by auto
qed

lemma demo_sender_closed: "\<not> Tc_Egress.failopen_unknown_enabled demo_sender"
  by (simp add: demo_sender_def demo_fail_closed)

section \<open>The properties on it\<close>




text \<open>A stamped frame that arrives with its identity as the only option.\<close>

definition demo_stamped :: "byte list \<Rightarrow> u64 dp" where
  "demo_stamped before = demo_dp (tunnel_frame (before @ identity_tlv 7) (tcp_frame 2)) 0 (demo_pol 6 0 0)"

lemma demo_stamped_start:
  "ingress_start model_kernel (demo_stamped b) = (0, snd (ingress_start model_kernel (demo_stamped b)))"
  unfolding demo_stamped_def by (rule demo_ingress_start)

lemma demo_stamped_runs:
  assumes "ingress_spec False demo_ids (demo_pol 6 0 0) (pkt (skb (demo_stamped b))) = TC_ACT_OK"
    and "length b < 100"
  obtains t where "meridian_tc_ingress model_kernel (demo_stamped b) = Some (TC_ACT_OK, t)"
proof -
  have "\<not> Tc_Ingress.failopen_unknown_enabled (demo_stamped b)" "identity_map (demo_stamped b) = demo_ids"
    "policy_map (demo_stamped b) = demo_pol 6 0 0" "length (pkt (skb (demo_stamped b))) < 2 ^ 32"
    using assms(2) by (simp_all add: demo_stamped_def demo_fail_closed)
  then show thesis
    using that ingress_returns [OF demo_stamped_start [of b]] assms(1)
      ingress_start_pkt(1) [OF mk.skb_helpers_axioms _ demo_stamped_start [of b]] by auto
qed


theorem strip_keeps_other_options_witness:
  "\<exists>t. meridian_tc_ingress model_kernel (demo_stamped [1, 2, 3, 1, 4, 5, 6, 7]) = Some (TC_ACT_OK, t) \<and>
     pkt (skb t) ! 42 AND 0x3f = 0 \<and> slice_of (pkt (skb t)) 50 8 = [1, 2, 3, 1, 4, 5, 6, 7]"
proof -
  let ?s = "demo_stamped [1, 2, 3, 1, 4, 5, 6, 7]"
  have "ingress_spec False demo_ids (demo_pol 6 0 0) (pkt (skb (demo_stamped [1, 2, 3, 1, 4, 5, 6, 7]))) = TC_ACT_OK"
    by code_simp
  then obtain t where t: "meridian_tc_ingress model_kernel ?s = Some (TC_ACT_OK, t)"
    by (rule demo_stamped_runs) simp
  let ?q = "pkt (skb ?s)"
  have "ipv4_after_eth ?q 0 = Some 14" "geneve_inner ?q 14 = Some (80, 7, True)"
    "l4_ports ?q 80 \<noteq> None" "42 = geneve_off_at ?q 14" "34 = 14 + ihl_at ?q 14 * 4"
    "opt_bytes_at ?q 42 = 16" "length ?q = 120" "slice_of ?q 50 8 = [1, 2, 3, 1, 4, 5, 6, 7]"
    by code_simp+
  then show ?thesis
    using strip_keeps_other_options [OF mk.live_skb_helpers_axioms
        demo_stamped_start [of "[1, 2, 3, 1, 4, 5, 6, 7]"] _ _ _ _ t] t by simp
qed

text \<open>The same frame with 300 bytes of payload.\<close>

definition demo_long :: "u64 dp" where
  "demo_long = demo_dp (tunnel_frame (identity_tlv 7) (tcp_frame 2 @ replicate 300 0)) 0 (demo_pol 6 0 0)"

theorem long_inner_is_not_stripped_witness:
  "\<exists>t. meridian_tc_ingress model_kernel demo_long = Some (TC_ACT_OK, t) \<and> pkt (skb t) = pkt (skb demo_long)"
proof -
  let ?q = "pkt (skb demo_long)"
  have f: "ipv4_after_eth ?q 0 = Some 14" "geneve_inner ?q 14 = Some (72, 7, True)" "l4_ports ?q 72 \<noteq> None"
    "geneve_payload_at ?q 14 = 58" "ingress_spec False demo_ids (demo_pol 6 0 0) ?q = TC_ACT_OK"
    by code_simp+
  have len: "length ?q = 412" by (simp add: demo_long_def)
  have st: "ingress_start model_kernel demo_long = (0, snd (ingress_start model_kernel demo_long))"
    unfolding demo_long_def by (rule demo_ingress_start)
  have m: "identity_map demo_long = demo_ids" "policy_map demo_long = demo_pol 6 0 0"
    "\<not> Tc_Ingress.failopen_unknown_enabled demo_long"
    by (simp_all add: demo_long_def demo_fail_closed)
  have "skb_data (skb (snd (ingress_start model_kernel demo_long))) = ?q"
    using ingress_start_pkt(1) [OF mk.skb_helpers_axioms _ st] len by simp
  then obtain t where t: "meridian_tc_ingress model_kernel demo_long = Some (TC_ACT_OK, t)"
    using ingress_returns [OF st] f(5) m by auto
  show ?thesis
    using long_inner_is_not_stripped [OF mk.live_skb_helpers_axioms st _ f(1-3) t] f(4) len t by simp
qed

text \<open>Seven option words on the way out; a policy without any rule on the way in.\<close>

definition demo_full :: "u64 dp" where
  "demo_full = demo_dp (tunnel_frame ([1, 2, 3, 6] @ replicate 24 0) (tcp_frame 2)) 0 (demo_pol 6 0 0)"

lemma demo_full_runs:
  "map_option fst (meridian_tc_egress model_kernel demo_full) = Some TC_ACT_OK"
  by code_simp

theorem overlay_option_overflow_unenforced_witness:
  "\<exists>t t'. meridian_tc_egress model_kernel demo_full = Some (TC_ACT_OK, t) \<and>
     meridian_tc_ingress model_kernel (demo_dp (pkt (skb t)) 0 Map.empty) = Some (TC_ACT_OK, t')"
proof -
  obtain t where t: "meridian_tc_egress model_kernel demo_full = Some (TC_ACT_OK, t)"
    using demo_full_runs by auto
  have f: "plan_frame (identity_map demo_full) (policy_map demo_full) (pkt (skb demo_full)) =
      Stamp demo_flow 7 9 14 1 0"
    "24 < opt_bytes_at (pkt (skb demo_full)) (geneve_off_at (pkt (skb demo_full)) 14)"
    by code_simp+
  have len: "length (pkt (skb demo_full)) < 2 ^ 31" by (simp add: demo_full_def)
  have st: "egress_start model_kernel demo_full = (0, snd (egress_start model_kernel demo_full))"
    unfolding demo_full_def by (metis demo_egress_start prod.collapse)
  have c: "\<not> Tc_Egress.failopen_unknown_enabled demo_full"
    by (simp add: demo_full_def demo_fail_closed)
  show ?thesis
    using overlay_option_overflow_unenforced [OF mk.skb_helpers_axioms len st f(1) t c f(2)
        mk.skb_helpers_axioms _ demo_ingress_start [of "pkt (skb t)" 0 Map.empty]] t by simp
qed

end
