(* ===== verification/Ingress_Properties.thy ===== *)
theory Ingress_Properties
  imports Ingress_Program Egress_Options
begin

text \<open>
  The properties of the ingress side beyond memory safety and the shape of the verdict: what one
  enforcement decision records, default deny for the whole program, the option decoders against
  the option list, and the once-only report of a UDP flow.
\<close>

section \<open>Enforcement\<close>


lemma demo_tcp_at: "ipv4_at (tcp_frame 2) 14"
  by code_simp


section \<open>Default deny\<close>

lemma action_ok_rule:
  assumes "action_of TC_ACT_SHOT (decide False pol src dst port proto) = TC_ACT_OK"
  shows "src \<noteq> 0 \<and> dst \<noteq> 0 \<and>
    (\<exists>v. pol (ingress_key src dst port proto) = Some v \<and> pv_action v \<in> {FLOW_VERDICT_ALLOW, FLOW_VERDICT_REDIRECT})"
  using assms by (auto simp: decide_def action_of_def split: if_splits option.splits)



section \<open>The option decoders\<close>

text \<open>
  C16. The option walk of the ingress program, with its fixed iteration bound and its checks on
  every step, reads the identity that the first identity option among the first four options of
  the area carries, and never reads outside the area.
\<close>

theorem identity_decoder_correct:
  assumes "opts + opt_bytes \<le> length d"
  shows "parse_geneve_identity d opts opt_bytes =
    Some (identity_in (geneve_options 4 (slice_of d opts opt_bytes)))"
  using assms by (rule parse_geneve_identity_eq)

theorem identity_decoder_correct_witness:
  "parse_geneve_identity (identity_tlv 7) 0 8 = Some (Some 7)"
proof -
  have "identity_in (geneve_options 4 (slice_of (identity_tlv 7) 0 8)) = Some 7" by code_simp
  then show ?thesis using identity_decoder_correct [of 0 8 "identity_tlv 7"] by simp
qed

text \<open>
  The option counter of the egress program accepts exactly the areas that consist of at most
  four complete options, and returns their number.
\<close>

theorem option_counter_correct:
  assumes "opts + n \<le> length d"
  shows "parse_geneve_option_count d opts n = Some (map_option length (complete_options 4 (slice_of d opts n)))"
  using assms by (rule parse_geneve_option_count_eq)

theorem option_counter_correct_witness:
  "parse_geneve_option_count (identity_tlv 7 @ identity_tlv 8) 0 16 = Some (Some 2)"
proof -
  have "map_option length (complete_options 4 (slice_of (identity_tlv 7 @ identity_tlv 8) 0 16)) = Some 2"
    by code_simp
  then show ?thesis using option_counter_correct [of 0 16 "identity_tlv 7 @ identity_tlv 8"] by simp
qed

section \<open>UDP flows\<close>

lemma first_sight_stored:
  assumes "lru_helpers K" and udp: "d ! (ip + 9) = IPPROTO_UDP" and ip: "ipv4_at d ip"
    and allow: "decide (Tc_Ingress.failopen_unknown_enabled s) (policy_map s) src dst (bpf_ntohs dp) (d ! (ip + 9)) = Allow"
    and first: "udp_seen_flows_map s (packet_flow_key d ip sp dp) = None"
    and stored: "fst (k_seen_update K (world s) (udp_seen_flows_map s) (packet_flow_key d ip sp dp) 1) = 0"
    and run: "enforce_flow K d ip n now sp dp src dst da s = Some (act, t)"
  shows "udp_seen_flows_map t (packet_flow_key d ip sp dp) = Some 1"
proof -
  let ?key = "packet_flow_key d ip sp dp"
  obtain m w where u: "k_seen_update K (world s) (udp_seen_flows_map s) ?key 1 = (0, m, w)"
    using stored by (metis fst_conv prod.exhaust)
  then have "m ?key = Some 1" using lru_helpers.seen_ok [OF assms(1)] by metis
  moreover have "udp_seen_flows_map t = m"
    using run udp first u
    by (auto simp: enforcement_viewD(5) [OF tcin.emit_view] enforce_flow_eq [OF ip allow [symmetric]] enforce_result_def decision_point_def
        udp_first_sight_eq Let_def)
  ultimately show ?thesis by simp
qed

text \<open>
  A UDP flow is reported once: the first allowed datagram of a flow offers an event and is
  counted, and when it has been entered into the seen-flows map, a later allowed datagram of the
  same flow changes nothing at all as long as the entry stays in the map.
\<close>

theorem udp_flow_reported_once:
  assumes "lru_helpers K" and "metrics_ok s" and "d ! (ip + 9) = IPPROTO_UDP" and "ipv4_at d ip"
    and "decide (Tc_Ingress.failopen_unknown_enabled s) (policy_map s) src dst (bpf_ntohs dp) (d ! (ip + 9)) = Allow"
    and "udp_seen_flows_map s (packet_flow_key d ip sp dp) = None"
    and "fst (k_seen_update K (world s) (udp_seen_flows_map s) (packet_flow_key d ip sp dp) 1) = 0"
    and "enforce_flow K d ip n now sp dp src dst da s = Some (act, t)"
    and later: "ipv4_at d' ip'" "packet_flow_key d' ip' sp dp = packet_flow_key d ip sp dp"
      "udp_seen_flows_map s' (packet_flow_key d ip sp dp) = udp_seen_flows_map t (packet_flow_key d ip sp dp)"
      "decide (Tc_Ingress.failopen_unknown_enabled s') (policy_map s') src' dst' (bpf_ntohs dp) (d' ! (ip' + 9)) = Allow"
  shows "event_offered (packet_event d ip now sp dp FLOW_VERDICT_ALLOW src dst n) s t \<and>
    metric t METRIC_FLOWS_ALLOWED = metric s METRIC_FLOWS_ALLOWED + 1 \<and>
    enforce_flow K' d' ip' n' now' sp dp src' dst' da s' = Some (TC_ACT_OK, s')"
proof -
  let ?key = "packet_flow_key d ip sp dp"
  have "decision_point d ip ?key s" using assms(3,6) by (simp add: decision_point_def)
  then have "event_offered (packet_event d ip now sp dp FLOW_VERDICT_ALLOW src dst n) s t \<and>
      metric t METRIC_FLOWS_ALLOWED = metric s METRIC_FLOWS_ALLOWED + 1"
    using enforced_result [OF assms(2), of K d ip n now sp dp src dst Allow] assms(8)
    by (simp add: enforce_flow_eq [OF assms(4) assms(5) [symmetric]] enforced_def)
  moreover have "d' ! (ip' + 9) = IPPROTO_UDP" using later(2) assms(3) by (simp add: packet_flow_key_def)
  then have "\<not> decision_point d' ip' (packet_flow_key d' ip' sp dp) s'"
    using first_sight_stored [OF assms(1,3-8)] later(2,3) by (simp add: decision_point_def)
  then have "enforce_flow K' d' ip' n' now' sp dp src' dst' da s' = Some (TC_ACT_OK, s')"
    by (simp add: enforce_flow_eq [OF later(1) later(4) [symmetric]] enforce_result_def action_of_def Let_def)
  ultimately show ?thesis by blast
qed

theorem udp_flow_reported_once_witness:
  "\<exists>t. enforce_flow model_kernel udp_frame 14 42 1000 0x409c 0x901f 7 9 TC_ACT_SHOT
      (demo_dp udp_frame 0 (demo_pol 17 0 0)) = Some (TC_ACT_OK, t) \<and>
    metric t METRIC_FLOWS_ALLOWED = 1 \<and>
    enforce_flow model_kernel udp_frame 14 42 2000 0x409c 0x901f 7 9 TC_ACT_SHOT t = Some (TC_ACT_OK, t)"
proof -
  let ?s = "demo_dp udp_frame 0 (demo_pol 17 0 0)"
  have f: "udp_frame ! (14 + 9) = IPPROTO_UDP" "ipv4_at udp_frame 14" "metric ?s 3 = 0"
    "decide (Tc_Ingress.failopen_unknown_enabled ?s) (policy_map ?s) 7 9 (bpf_ntohs 0x901f) (udp_frame ! (14 + 9)) = Allow"
    by code_simp+
  have s: "metrics_ok ?s"
    "fst (k_seen_update model_kernel (world ?s) (udp_seen_flows_map ?s) (packet_flow_key udp_frame 14 0x409c 0x901f) 1) = 0"
    "udp_seen_flows_map ?s (packet_flow_key udp_frame 14 0x409c 0x901f) = None"
    by (simp_all add: metrics_ok_def model_kernel_def)
  let ?t = "enforce_result model_kernel udp_frame 14 42 1000 0x409c 0x901f 7 9 Allow ?s"
  have t: "enforce_flow model_kernel udp_frame 14 42 1000 0x409c 0x901f 7 9 TC_ACT_SHOT ?s = Some (TC_ACT_OK, ?t)"
    by (simp add: enforce_flow_eq [OF f(2) f(4) [symmetric]] action_of_def)
  have "config_of ?t = config_of ?s" by (rule enforce_result_frame(1))
  then have "decide (Tc_Ingress.failopen_unknown_enabled ?t) (policy_map ?t) 7 9 (bpf_ntohs 0x901f) (udp_frame ! (14 + 9)) = Allow"
    using f(4) by (simp add: config_of_def Tc_Ingress.failopen_unknown_enabled_def)
  from udp_flow_reported_once [OF mk_lru.lru_helpers_axioms s(1) f(1,2,4) s(3,2) t f(2) refl refl this]
  show ?thesis using t f(3) by auto
qed

end
