(* ===== verification/Socket_Programs.thy ===== *)
theory Socket_Programs
  imports Tc_Ingress
begin

text \<open>
  The socket layer: the policy primitives of \<^verbatim>\<open>bpf/include/meridian_helpers.h\<close>, the gated SOCKHASH
  population of \<^verbatim>\<open>bpf/sock_ops.c\<close> and the redirect of \<^verbatim>\<open>bpf/sk_msg.c\<close>. A program context is a record
  of the fields of its \<^verbatim>\<open>vmlinux.h\<close> struct that the program reads; the socket a callback is about
  is known only to the kernel and is passed on by \<open>bpf_sock_hash_update\<close>.
\<close>

section \<open>Contexts\<close>

record bpf_sock_ops =
  so_op :: u32
  so_family :: u32
  so_remote_ip4 :: u32
  so_local_ip4 :: u32
  so_remote_port :: u32
  so_local_port :: u32
  so_sk :: socket

record sk_msg_md =
  md_family :: u32
  md_remote_ip4 :: u32
  md_remote_port :: u32

definition AF_INET :: u32 where [simp]: "AF_INET = 2"
definition BPF_SOCK_OPS_ACTIVE_ESTABLISHED_CB :: u32 where [simp]: "BPF_SOCK_OPS_ACTIVE_ESTABLISHED_CB = 4"
definition BPF_SOCK_OPS_PASSIVE_ESTABLISHED_CB :: u32 where [simp]: "BPF_SOCK_OPS_PASSIVE_ESTABLISHED_CB = 5"

section \<open>Policy primitives\<close>

definition meridian_identity_of :: "u32 \<Rightarrow> 'w dp \<Rightarrow> u32" where
  "meridian_identity_of ipv4_net s =
     (case identity_map s ipv4_net of None \<Rightarrow> 0 | Some i \<Rightarrow> i)"

definition meridian_policy_lookup ::
  "u32 \<Rightarrow> u32 \<Rightarrow> u16 \<Rightarrow> u8 \<Rightarrow> u8 \<Rightarrow> 'w dp \<Rightarrow> policy_verdict option" where
  "meridian_policy_lookup src_id dst_id dst_port_host proto direction s =
     policy_map s \<lparr>pk_src_id = src_id, pk_dst_id = dst_id, pk_dst_port = dst_port_host,
       pk_proto = proto, pk_direction = direction\<rparr>"

definition meridian_verdict_sockmap_eligible :: "policy_verdict option \<Rightarrow> int" where
  "meridian_verdict_sockmap_eligible v =
     (case v of
        None \<Rightarrow> 0
      | Some v \<Rightarrow>
          if pv_action v = FLOW_VERDICT_ALLOW \<and> pv_flags v AND POLICY_FLAG_SOCKMAP_ELIGIBLE \<noteq> 0
          then 1 else 0)"

section \<open>The sock\_ops program\<close>

definition bpf_sock_hash_update :: "'w kernel \<Rightarrow> bpf_sock_ops \<Rightarrow> sock_key \<Rightarrow> 'w dp \<Rightarrow> int \<times> 'w dp" where
  "bpf_sock_hash_update K ctx key s =
     (let (rc, m, w) = k_sock_hash_update K (world s) (sockhash s) key (so_sk ctx)
      in (rc, s\<lparr>sockhash := m, world := w\<rparr>))"

definition try_insert ::
  "'w kernel \<Rightarrow> bpf_sock_ops \<Rightarrow> u32 \<Rightarrow> u32 \<Rightarrow> u16 \<Rightarrow> u8 \<Rightarrow> 'w dp \<Rightarrow> 'w dp" where
  "try_insert K ctx src_id dst_id dst_port_host direction s =
     (if src_id = 0 \<or> dst_id = 0 then s
      else
        let v = meridian_policy_lookup src_id dst_id dst_port_host IPPROTO_TCP direction s
        in if meridian_verdict_sockmap_eligible v = 0 then s
           else
             let key = \<lparr>sk_dst_ip = so_local_ip4 ctx, sk_dst_port = bpf_htons (ucast (so_local_port ctx)),
                        sk_pad = 0\<rparr>
             in snd (bpf_sock_hash_update K ctx key s))"

definition meridian_sock_ops :: "'w kernel \<Rightarrow> bpf_sock_ops \<Rightarrow> 'w dp \<Rightarrow> int \<times> 'w dp" where
  "meridian_sock_ops K ctx s =
     (if so_family ctx \<noteq> AF_INET then (0, s)
      else if so_op ctx = BPF_SOCK_OPS_ACTIVE_ESTABLISHED_CB then
        let src_id = meridian_identity_of (so_local_ip4 ctx) s;
            dst_id = meridian_identity_of (so_remote_ip4 ctx) s;
            dport = bpf_ntohs (ucast (drop_bit 16 (so_remote_port ctx)))
        in (0, try_insert K ctx src_id dst_id dport POLICY_DIR_EGRESS s)
      else if so_op ctx = BPF_SOCK_OPS_PASSIVE_ESTABLISHED_CB then
        let src_id = meridian_identity_of (so_remote_ip4 ctx) s;
            dst_id = meridian_identity_of (so_local_ip4 ctx) s;
            dport = ucast (so_local_port ctx)
        in (0, try_insert K ctx src_id dst_id dport POLICY_DIR_INGRESS s)
      else (0, s))"

section \<open>The sk\_msg program\<close>

definition metric_add :: "u32 \<Rightarrow> u64 \<Rightarrow> 'w dp \<Rightarrow> 'w dp" where
  "metric_add i delta s =
     (case array_lookup (metrics_map s (cpu s)) i of
        None \<Rightarrow> s
      | Some val \<Rightarrow>
          s\<lparr>metrics_map := (metrics_map s)
              (cpu s := (metrics_map s (cpu s))[unat i := val + delta])\<rparr>)"

text \<open>The verdict, the socket that the helper armed as the receiver (if any), and the state.\<close>

definition bpf_msg_redirect_hash ::
  "'w kernel \<Rightarrow> sock_key \<Rightarrow> u64 \<Rightarrow> 'w dp \<Rightarrow> int \<times> socket option \<times> 'w dp" where
  "bpf_msg_redirect_hash K key fl s =
     (let (rc, armed, w) = k_msg_redirect_hash K (world s) (sockhash s) key fl
      in (rc, armed, s\<lparr>world := w\<rparr>))"

definition meridian_sk_msg :: "'w kernel \<Rightarrow> sk_msg_md \<Rightarrow> 'w dp \<Rightarrow> int \<times> socket option \<times> 'w dp" where
  "meridian_sk_msg K msg s =
     (if md_family msg \<noteq> AF_INET then (SK_PASS, None, s)
      else
        let key = \<lparr>sk_dst_ip = md_remote_ip4 msg, sk_dst_port = ucast (drop_bit 16 (md_remote_port msg)),
                   sk_pad = 0\<rparr>;
            (rc, armed, s) = bpf_msg_redirect_hash K key BPF_F_INGRESS s
        in if rc \<noteq> SK_PASS then (SK_PASS, armed, s)
           else (SK_PASS, armed, metric_add METRIC_FLOWS_REDIRECTED 1 s))"

lemma sk_msg_copy: "metric_add = Tc_Ingress.metric_add"
  by (intro ext) (simp only: metric_add_def Tc_Ingress.metric_add_def)

interpretation skmsg: counters metric_add
  unfolding sk_msg_copy by unfold_locales

end
