(* ===== verification/Socket_Layer.thy ===== *)
theory Socket_Layer
  imports Socket_Programs Demo_Frames
begin

text \<open>
  What one run of a socket program does. \<open>sockmap_flow\<close> is the gate of ADR-0007 as a predicate on
  the identity map, the policy map and a callback; \<open>local_key\<close> and \<open>message_key\<close> are the two sides
  of the SOCKHASH key.
\<close>

section \<open>The gate\<close>

text \<open>The rule that a callback is judged by, and the key the socket is stored under.\<close>

definition callback_rule :: "(u32 \<rightharpoonup> u32) \<Rightarrow> bpf_sock_ops \<Rightarrow> policy_key" where
  "callback_rule ids ctx =
     (if so_op ctx = BPF_SOCK_OPS_ACTIVE_ESTABLISHED_CB
      then \<lparr>pk_src_id = known_id ids (so_local_ip4 ctx), pk_dst_id = known_id ids (so_remote_ip4 ctx),
            pk_dst_port = bpf_ntohs (ucast (drop_bit 16 (so_remote_port ctx))), pk_proto = 6,
            pk_direction = POLICY_DIR_EGRESS\<rparr>
      else \<lparr>pk_src_id = known_id ids (so_remote_ip4 ctx), pk_dst_id = known_id ids (so_local_ip4 ctx),
            pk_dst_port = ucast (so_local_port ctx), pk_proto = 6,
            pk_direction = POLICY_DIR_INGRESS\<rparr>)"

definition local_key :: "bpf_sock_ops \<Rightarrow> sock_key" where
  "local_key ctx =
     \<lparr>sk_dst_ip = so_local_ip4 ctx, sk_dst_port = bpf_htons (ucast (so_local_port ctx)), sk_pad = 0\<rparr>"

definition sockmap_flow ::
  "(u32 \<rightharpoonup> u32) \<Rightarrow> (policy_key \<rightharpoonup> policy_verdict) \<Rightarrow> bpf_sock_ops \<Rightarrow> bool" where
  "sockmap_flow ids pol ctx \<longleftrightarrow>
     so_family ctx = 2 \<and> so_op ctx \<in> {4, 5} \<and>
     known_id ids (so_local_ip4 ctx) \<noteq> 0 \<and> known_id ids (so_remote_ip4 ctx) \<noteq> 0 \<and>
     (case pol (callback_rule ids ctx) of
        None \<Rightarrow> False
      | Some v \<Rightarrow> pv_action v = 0 \<and> bit (pv_flags v) 0)"

lemma flag_bit0: "(f :: u8) AND 1 \<noteq> 0 \<longleftrightarrow> bit f 0"
  by (simp add: and_one_eq bit_0 odd_iff_mod_2_eq_one)

lemma try_insert_eq:
  "try_insert K ctx src dst port dir s =
     (if src \<noteq> 0 \<and> dst \<noteq> 0 \<and>
         (case policy_map s \<lparr>pk_src_id = src, pk_dst_id = dst, pk_dst_port = port, pk_proto = 6,
              pk_direction = dir\<rparr> of
            None \<Rightarrow> False
          | Some v \<Rightarrow> pv_action v = 0 \<and> bit (pv_flags v) 0)
      then snd (bpf_sock_hash_update K ctx (local_key ctx) s) else s)"
  using flag_bit0
  by (auto simp: try_insert_def meridian_policy_lookup_def meridian_verdict_sockmap_eligible_def
      local_key_def Let_def split: option.splits)

lemma identity_known: "meridian_identity_of a s = known_id (identity_map s) a"
  by (simp add: meridian_identity_of_def known_id_def)

lemma sock_ops_eq:
  "meridian_sock_ops K ctx s =
     (0, if sockmap_flow (identity_map s) (policy_map s) ctx
         then snd (bpf_sock_hash_update K ctx (local_key ctx) s) else s)"
  by (auto simp: meridian_sock_ops_def try_insert_eq sockmap_flow_def callback_rule_def
      identity_known Let_def)


section \<open>The redirect\<close>

definition message_key :: "sk_msg_md \<Rightarrow> sock_key" where
  "message_key msg =
     \<lparr>sk_dst_ip = md_remote_ip4 msg, sk_dst_port = ucast (drop_bit 16 (md_remote_port msg)), sk_pad = 0\<rparr>"

context sock_helpers
begin

lemma sock_ops_sockhash:
  assumes "meridian_sock_ops K ctx s = (rc, t)"
  shows "sockhash t = sockhash s \<or>
    sockmap_flow (identity_map s) (policy_map s) ctx \<and> sockhash t = (sockhash s)(local_key ctx \<mapsto> so_sk ctx)"
proof -
  obtain rc' m w where u: "k_sock_hash_update K (world s) (sockhash s) (local_key ctx) (so_sk ctx) = (rc', m, w)"
    by (metis prod.exhaust)
  then have "m = sockhash s \<or> m = (sockhash s)(local_key ctx \<mapsto> so_sk ctx)"
    using sock_ok sock_fail by (metis (full_types))
  then show ?thesis using assms u by (auto simp: sock_ops_eq bpf_sock_hash_update_def)
qed

lemma sk_msg_cases:
  obtains t where "meridian_sk_msg K msg s = (SK_PASS, None, t)" "t = s\<lparr>world := world t\<rparr>"
  | sk w where "meridian_sk_msg K msg s = (SK_PASS, Some sk, metric_add METRIC_FLOWS_REDIRECTED 1 (s\<lparr>world := w\<rparr>))"
      "md_family msg = 2" "sockhash s (message_key msg) = Some sk"
proof (cases "md_family msg = 2")
  case False
  then show thesis using that(1) [of s] by (simp add: meridian_sk_msg_def)
next
  case True
  obtain rc a w where r: "k_msg_redirect_hash K (world s) (sockhash s) (message_key msg) 1 = (rc, a, w)"
    by (metis prod.exhaust)
  have run: "meridian_sk_msg K msg s =
      (if rc \<noteq> SK_PASS then (SK_PASS, a, s\<lparr>world := w\<rparr>)
       else (SK_PASS, a, metric_add METRIC_FLOWS_REDIRECTED 1 (s\<lparr>world := w\<rparr>)))"
    using True r by (simp add: meridian_sk_msg_def message_key_def bpf_msg_redirect_hash_def)
  show thesis
  proof (cases "rc = SK_PASS")
    case pass: True
    then have "a = sockhash s (message_key msg)" "a \<noteq> None"
      using redirect_pass r by metis+
    then show thesis using that(2) True run pass by auto
  next
    case False
    then have "a = None" using redirect_other r by blast
    then show thesis using that(1) [of "s\<lparr>world := w\<rparr>"] run False by simp
  qed
qed

lemma sk_msg_sockhash:
  assumes "meridian_sk_msg K msg s = (rc, a, t)"
  shows "sockhash t = sockhash s"
proof (cases rule: sk_msg_cases [of msg s])
  case (1 u)
  then have "sockhash u = sockhash (s\<lparr>world := world u\<rparr>)" by metis
  then show ?thesis using 1(1) assms by simp
next
  case (2 sk w)
  then show ?thesis
    using assms enforcement_viewD(6) [OF skmsg.add_view, of _ _ "s\<lparr>world := w\<rparr>"] by simp
qed

end

text \<open>
  The \<open>sk_msg\<close> program never blocks a message and never writes the SOCKHASH: it returns
  \<open>SK_PASS\<close> whatever the helper does, arms a redirect only to the socket stored under the
  message's destination, counts it exactly then, and emits no event.
\<close>

theorem sk_msg_redirects_or_passes:
  assumes "sock_helpers K" and "metrics_ok s"
  shows "\<exists>a t. meridian_sk_msg K msg s = (SK_PASS, a, t) \<and> sockhash t = sockhash s \<and>
    config_of t = config_of s \<and> flow_events t = flow_events s \<and>
    (a \<noteq> None \<longrightarrow> a = sockhash s (message_key msg)) \<and>
    metric t METRIC_FLOWS_REDIRECTED = metric s METRIC_FLOWS_REDIRECTED + (if a = None then 0 else 1)"
proof (cases rule: sock_helpers.sk_msg_cases [OF assms(1), of msg s])
  case (1 t)
  have "enforcement_view t = enforcement_view s" "flow_events t = flow_events s" "metric t = metric s"
    by (subst 1(2), simp add: enforcement_view_def)+
  then show ?thesis using 1(1) enforcement_viewD by auto
next
  case (2 sk w)
  have "enforcement_view (s\<lparr>world := w\<rparr>) = enforcement_view s" "metrics_ok (s\<lparr>world := w\<rparr>)"
    using assms(2) by (simp_all add: enforcement_view_def metrics_ok_def)
  then show ?thesis
    using 2 enforcement_viewD [OF trans [OF skmsg.add_view], of "s\<lparr>world := w\<rparr>" s]
    by (simp add: skmsg.add_hit)
qed

section \<open>Endpoints\<close>

text \<open>
  How the kernel presents an endpoint to the two programs: addresses in network order, a local
  port in host order, and a remote port in network order in the upper half of its field.
\<close>

definition callback :: "u32 \<Rightarrow> u32 \<Rightarrow> u16 \<Rightarrow> u32 \<Rightarrow> u16 \<Rightarrow> socket \<Rightarrow> bpf_sock_ops" where
  "callback op local_ip local_port remote_ip remote_port sk =
     \<lparr>so_op = op, so_family = 2, so_remote_ip4 = remote_ip, so_local_ip4 = local_ip,
      so_remote_port = push_bit 16 (ucast (bpf_htons remote_port)), so_local_port = ucast local_port,
      so_sk = sk\<rparr>"

definition message_to :: "u32 \<Rightarrow> u16 \<Rightarrow> sk_msg_md" where
  "message_to remote_ip remote_port =
     \<lparr>md_family = 2, md_remote_ip4 = remote_ip,
      md_remote_port = push_bit 16 (ucast (bpf_htons remote_port))\<rparr>"

lemma ucast_upper_half: "ucast (drop_bit 16 (push_bit 16 (ucast (w :: u16)) :: u32)) = w"
  by (rule bit_word_eqI) (auto simp: bit_simps)

lemma ucast_u16_u32: "ucast (ucast (w :: u16) :: u32) = w"
  by (rule bit_word_eqI) (auto simp: bit_simps)

lemma endpoint_keys:
  "local_key (callback op ip port rip rport sk) = \<lparr>sk_dst_ip = ip, sk_dst_port = bpf_htons port, sk_pad = 0\<rparr>"
  "message_key (message_to ip port) = \<lparr>sk_dst_ip = ip, sk_dst_port = bpf_htons port, sk_pad = 0\<rparr>"
  "so_sk (callback op ip port rip rport sk) = sk"
  by (simp_all add: local_key_def callback_def message_key_def message_to_def ucast_upper_half ucast_u16_u32)

context live_sock_helpers
begin

lemma sock_ops_inserts:
  assumes "meridian_sock_ops K ctx s = (rc, t)"
  shows "sockhash t = (if sockmap_flow (identity_map s) (policy_map s) ctx
      then (sockhash s)(local_key ctx \<mapsto> so_sk ctx) else sockhash s)"
    "identity_map t = identity_map s" "policy_map t = policy_map s"
proof -
  obtain m w where u: "k_sock_hash_update K (world s) (sockhash s) (local_key ctx) (so_sk ctx) = (0, m, w)"
    using sock_live by blast
  then have "m = (sockhash s)(local_key ctx \<mapsto> so_sk ctx)" by (rule sock_ok)
  then show "sockhash t = (if sockmap_flow (identity_map s) (policy_map s) ctx
      then (sockhash s)(local_key ctx \<mapsto> so_sk ctx) else sockhash s)"
    "identity_map t = identity_map s" "policy_map t = policy_map s"
    using assms u by (auto simp: sock_ops_eq bpf_sock_hash_update_def)
qed

lemma sk_msg_hit:
  assumes "sockhash s (message_key msg) = Some sk" and "md_family msg = 2"
  shows "\<exists>t. meridian_sk_msg K msg s = (SK_PASS, Some sk, t)"
proof -
  obtain a w where r: "k_msg_redirect_hash K (world s) (sockhash s) (message_key msg) 1 = (SK_PASS, a, w)"
    using redirect_live assms(1) by (metis option.distinct(1))
  then have "a = Some sk" using redirect_pass assms(1) by metis
  then show ?thesis
    using r assms(2) by (simp add: meridian_sk_msg_def message_key_def bpf_msg_redirect_hash_def)
qed

end

text \<open>
  C17. Key correspondence: the key under which \<open>sock_ops\<close> stores a socket is the key that
  \<open>sk_msg\<close> computes for a message to that socket's endpoint. After an established callback that
  passes the gate, a message to the local address and port of the socket is redirected to it.
\<close>

theorem established_socket_is_found:
  assumes "live_sock_helpers K"
    and "sockmap_flow (identity_map s) (policy_map s) (callback op ip port rip rport sk)"
    and "meridian_sock_ops K (callback op ip port rip rport sk) s = (rc, t)"
  shows "\<exists>u. meridian_sk_msg K (message_to ip port) t = (SK_PASS, Some sk, u)"
proof -
  have "sockhash t (message_key (message_to ip port)) = Some sk"
    using live_sock_helpers.sock_ops_inserts(1) [OF assms(1,3)] assms(2)
    by (simp add: endpoint_keys)
  then show ?thesis
    by (rule live_sock_helpers.sk_msg_hit [OF assms(1)]) (simp add: message_to_def)
qed

definition demo_accept :: "u32 \<Rightarrow> u16 \<Rightarrow> socket \<Rightarrow> bpf_sock_ops" where
  "demo_accept rip rport sk = callback 5 0x0200000a 8080 rip rport sk"

lemma demo_accept_allowed:
  "sockmap_flow demo_ids (demo_pol 6 0 1) (demo_accept 0x0100000a 40000 2)"
  by code_simp

text \<open>The state after the callback; a message to the listener is redirected, and counted once.\<close>

definition demo_sockets :: "u64 dp" where
  "demo_sockets = (demo_dp [] 0 (demo_pol 6 0 1))
     \<lparr>sockhash := [\<lparr>sk_dst_ip = 0x0200000a, sk_dst_port = bpf_htons 8080, sk_pad = 0\<rparr> \<mapsto> 2]\<rparr>"

theorem sk_msg_redirects_or_passes_witness:
  "\<exists>t. meridian_sk_msg model_kernel (message_to 0x0200000a 8080) demo_sockets = (SK_PASS, Some 2, t) \<and>
     metric t METRIC_FLOWS_REDIRECTED = 1"
proof -
  have "metric demo_sockets METRIC_FLOWS_REDIRECTED = 0" by code_simp
  moreover have "metrics_ok demo_sockets" by (simp add: metrics_ok_def demo_sockets_def)
  moreover have "\<exists>t. meridian_sk_msg model_kernel (message_to 0x0200000a 8080) demo_sockets = (SK_PASS, Some 2, t)"
    by (rule mk_sock.sk_msg_hit) (simp_all add: demo_sockets_def endpoint_keys, simp add: message_to_def)
  ultimately show ?thesis
    using sk_msg_redirects_or_passes [OF mk_sock.sock_helpers_axioms, of demo_sockets
        "message_to 0x0200000a 8080"] by auto
qed

theorem established_socket_is_found_witness:
  "\<exists>u. meridian_sk_msg model_kernel (message_to 0x0200000a 8080)
      (snd (meridian_sock_ops model_kernel (demo_accept 0x0100000a 40000 2) (demo_dp [] 0 (demo_pol 6 0 1)))) =
    (SK_PASS, Some 2, u)"
  using established_socket_is_found [OF mk_sock.live_sock_helpers_axioms _ prod.collapse [symmetric],
      of "demo_dp [] 0 (demo_pol 6 0 1)" 5 "0x0200000a" 8080 "0x0100000a" 40000 2]
    demo_accept_allowed by (simp add: demo_accept_def)

text \<open>
  C20. All connections of one listener share one SOCKHASH key. When two connections to the same
  endpoint are established, a message of either client is redirected to the server socket of the
  second one if that passed the gate, and otherwise to the server socket of the first one, even
  though the second connection failed the gate.
\<close>

theorem listener_connections_share_key:
  assumes "live_sock_helpers K"
    and "sockmap_flow (identity_map s) (policy_map s) (callback op\<^sub>1 ip port rip\<^sub>1 rport\<^sub>1 sk\<^sub>1)"
    and "meridian_sock_ops K (callback op\<^sub>1 ip port rip\<^sub>1 rport\<^sub>1 sk\<^sub>1) s = (rc\<^sub>1, t)"
    and "meridian_sock_ops K (callback op\<^sub>2 ip port rip\<^sub>2 rport\<^sub>2 sk\<^sub>2) t = (rc\<^sub>2, u)"
  shows "\<exists>v. meridian_sk_msg K (message_to ip port) u =
    (SK_PASS, Some (if sockmap_flow (identity_map s) (policy_map s) (callback op\<^sub>2 ip port rip\<^sub>2 rport\<^sub>2 sk\<^sub>2)
                    then sk\<^sub>2 else sk\<^sub>1), v)"
proof -
  note first = live_sock_helpers.sock_ops_inserts [OF assms(1,3)]
  note second = live_sock_helpers.sock_ops_inserts(1) [OF assms(1,4)]
  have "sockhash u (message_key (message_to ip port)) =
      Some (if sockmap_flow (identity_map s) (policy_map s) (callback op\<^sub>2 ip port rip\<^sub>2 rport\<^sub>2 sk\<^sub>2)
            then sk\<^sub>2 else sk\<^sub>1)"
    using first second assms(2) by (simp add: endpoint_keys)
  then show ?thesis
    by (rule live_sock_helpers.sk_msg_hit [OF assms(1)]) (simp add: message_to_def)
qed

text \<open>The second client, 10.0.0.3, is unknown; its connection is not in the map.\<close>

theorem listener_connections_share_key_witness:
  "\<exists>v. meridian_sk_msg model_kernel (message_to 0x0200000a 8080)
      (snd (meridian_sock_ops model_kernel (demo_accept 0x0300000a 50000 4)
        (snd (meridian_sock_ops model_kernel (demo_accept 0x0100000a 40000 2)
          (demo_dp [] 0 (demo_pol 6 0 1)))))) = (SK_PASS, Some 2, v)"
proof -
  have "\<not> sockmap_flow demo_ids (demo_pol 6 0 1) (demo_accept 0x0300000a 50000 4)" by code_simp
  then show ?thesis
    using listener_connections_share_key [OF mk_sock.live_sock_helpers_axioms _
        prod.collapse [symmetric] prod.collapse [symmetric], of "demo_dp [] 0 (demo_pol 6 0 1)" 5
        "0x0200000a" 8080 "0x0100000a" 40000 2 5 "0x0300000a" 50000 4] demo_accept_allowed
    by (simp add: demo_accept_def)
qed

text \<open>
  The gate looks at the action and at one flag: a verdict passes exactly when it is
  \<open>FLOW_VERDICT_ALLOW\<close> with \<open>POLICY_FLAG_SOCKMAP_ELIGIBLE\<close>, and setting \<open>POLICY_FLAG_L7_REQUIRED\<close> or
  \<open>POLICY_FLAG_MTLS_REQUIRED\<close> on top does not change that.
\<close>

theorem eligibility_reads_one_flag:
  "(meridian_verdict_sockmap_eligible v \<noteq> 0 \<longleftrightarrow>
      (\<exists>x. v = Some x \<and> pv_action x = FLOW_VERDICT_ALLOW \<and> bit (pv_flags x) 0)) \<and>
   meridian_verdict_sockmap_eligible
     (Some \<lparr>pv_action = a, pv_flags = f OR (POLICY_FLAG_L7_REQUIRED OR POLICY_FLAG_MTLS_REQUIRED), pv_pad = p\<rparr>) =
   meridian_verdict_sockmap_eligible (Some \<lparr>pv_action = a, pv_flags = f, pv_pad = p\<rparr>)"
proof -
  have "(f OR 6) AND 1 = f AND 1" by (rule bit_word_eqI) (auto simp: bit_simps)
  then show ?thesis
    using flag_bit0 by (auto simp: meridian_verdict_sockmap_eligible_def split: option.splits)
qed

end
