(* ===== verification/Node_System.thy ===== *)
theory Node_System
  imports Socket_Layer Ingress_Program Egress_Program
begin

text \<open>
  The programs together on one node. A node is the shared state with the log of the callbacks that
  have run; its steps are the runs of the four programs, in any order and on any context or packet,
  the agent's map updates, and the removal of closed sockets by the kernel. The gate of the
  \<open>sock_ops\<close> program is an invariant of every reachable node.
\<close>

section \<open>A node\<close>

text \<open>Each callback is logged with the maps it was judged by.\<close>

record 'w node =
  ndp :: "'w dp"
  nlog :: "(bpf_sock_ops \<times> (u32 \<rightharpoonup> u32) \<times> (policy_key \<rightharpoonup> policy_verdict)) list"

inductive node_step :: "'w kernel \<Rightarrow> 'w node \<Rightarrow> 'w node \<Rightarrow> bool" for K where
  established: "meridian_sock_ops K ctx (ndp n) = (rc, t) \<Longrightarrow>
    node_step K n \<lparr>ndp = t, nlog = (ctx, identity_map (ndp n), policy_map (ndp n)) # nlog n\<rparr>"
| message: "meridian_sk_msg K msg (ndp n) = (rc, a, t) \<Longrightarrow> node_step K n (n\<lparr>ndp := t\<rparr>)"
| arrival: "meridian_tc_ingress K ((ndp n)\<lparr>skb := b\<rparr>) = Some (act, t) \<Longrightarrow> node_step K n (n\<lparr>ndp := t\<rparr>)"
| departure: "meridian_tc_egress K ((ndp n)\<lparr>skb := b\<rparr>) = Some (act, t) \<Longrightarrow> node_step K n (n\<lparr>ndp := t\<rparr>)"
| agent: "node_step K n (n\<lparr>ndp := (ndp n)\<lparr>identity_map := ids, policy_map := pol,
    runtime_config_map := cfg\<rparr>\<rparr>)"
| closed: "m \<subseteq>\<^sub>m sockhash (ndp n) \<Longrightarrow> node_step K n (n\<lparr>ndp := (ndp n)\<lparr>sockhash := m\<rparr>\<rparr>)"

definition gated :: "'w node \<Rightarrow> bool" where
  "gated n \<longleftrightarrow> (\<forall>k sk. sockhash (ndp n) k = Some sk \<longrightarrow>
     (\<exists>(ctx, ids, pol) \<in> set (nlog n). local_key ctx = k \<and> so_sk ctx = sk \<and> sockmap_flow ids pol ctx))"

lemma gatedI_log:
  assumes "gated n" and "sockhash (ndp n') \<subseteq>\<^sub>m sockhash (ndp n)" and "set (nlog n) \<subseteq> set (nlog n')"
  shows "gated n'"
  unfolding gated_def
proof (intro allI impI)
  fix k sk assume "sockhash (ndp n') k = Some sk"
  then have "sockhash (ndp n) k = Some sk"
    using assms(2) by (metis (no_types, lifting) domI map_le_def)
  then show "\<exists>(ctx, ids, pol) \<in> set (nlog n'). local_key ctx = k \<and> so_sk ctx = sk \<and> sockmap_flow ids pol ctx"
    using assms(1,3) unfolding gated_def by blast
qed

context sock_helpers
begin

lemma gated_step:
  assumes "node_step K n n'" and "gated n"
  shows "gated n'"
  using assms(1)
proof (cases rule: node_step.cases)
  case (established ctx rc t)
  let ?e = "(ctx, identity_map (ndp n), policy_map (ndp n))"
  show ?thesis
  proof (cases "sockhash t = sockhash (ndp n)")
    case True
    then show ?thesis by (intro gatedI_log [OF assms(2)]) (auto simp: established(1))
  next
    case False
    then have "sockmap_flow (identity_map (ndp n)) (policy_map (ndp n)) ctx"
      "sockhash t = (sockhash (ndp n))(local_key ctx \<mapsto> so_sk ctx)"
      using sock_ops_sockhash [OF established(2)] by auto
    then show ?thesis using assms(2) unfolding gated_def established(1) by (auto split: if_splits)
  qed
next
  case (message msg rc a t)
  then have "sockhash t = sockhash (ndp n)" using sk_msg_sockhash by blast
  then show ?thesis by (intro gatedI_log [OF assms(2)]) (auto simp: message(1))
next
  case (arrival b act t)
  then have "sockhash t = sockhash (ndp n)" using ingress_tc.keeps(2) by fastforce
  then show ?thesis by (intro gatedI_log [OF assms(2)]) (auto simp: arrival(1))
next
  case (departure b act t)
  then have "sockhash t = sockhash (ndp n)" using egress_tc.keeps(2) by fastforce
  then show ?thesis by (intro gatedI_log [OF assms(2)]) (auto simp: departure(1))
next
  case (agent ids pol cfg)
  then show ?thesis by (intro gatedI_log [OF assms(2)]) auto
next
  case (closed m)
  then show ?thesis by (intro gatedI_log [OF assms(2)]) auto
qed

lemma gated_reachable:
  assumes "(node_step K)\<^sup>*\<^sup>* n\<^sub>0 n" and "sockhash (ndp n\<^sub>0) = Map.empty"
  shows "gated n"
  using assms(1)
proof (induction rule: rtranclp_induct)
  case base
  then show ?case by (simp add: gated_def assms(2))
next
  case (step y z)
  then show ?case using gated_step by blast
qed

end

lemma redirect_logged:
  assumes "sock_helpers K" and "(node_step K)\<^sup>*\<^sup>* n\<^sub>0 n" and "sockhash (ndp n\<^sub>0) = Map.empty"
    and "meridian_sk_msg K msg (ndp n) = (rc, Some sk, t)"
  obtains ctx ids pol where "(ctx, ids, pol) \<in> set (nlog n)" "so_sk ctx = sk"
    "local_key ctx = message_key msg" "sockmap_flow ids pol ctx"
proof -
  have "sockhash (ndp n) (message_key msg) = Some sk"
    by (cases rule: sock_helpers.sk_msg_cases [OF assms(1), of msg "ndp n"]) (use assms(4) in auto)
  then show thesis
    using sock_helpers.gated_reachable [OF assms(1-3)] that unfolding gated_def by fastforce
qed

text \<open>
  C12. The gated-insertion invariant over whole histories: in every state that a node can reach
  from an empty SOCKHASH by callbacks, messages, packets in both directions, agent updates and
  closing sockets, a message is redirected only to a socket whose established callback passed the
  gate under the maps of its time, and whose local endpoint is the destination of the message.
\<close>

theorem redirect_is_gated:
  assumes "sock_helpers K" and "(node_step K)\<^sup>*\<^sup>* n\<^sub>0 n" and "sockhash (ndp n\<^sub>0) = Map.empty"
    and "meridian_sk_msg K msg (ndp n) = (rc, Some sk, t)"
  shows "\<exists>ctx ids pol. (ctx, ids, pol) \<in> set (nlog n) \<and> so_sk ctx = sk \<and> sockmap_flow ids pol ctx \<and>
    so_local_ip4 ctx = md_remote_ip4 msg \<and>
    bpf_htons (ucast (so_local_port ctx)) = ucast (drop_bit 16 (md_remote_port msg))"
proof -
  obtain ctx ids pol where "(ctx, ids, pol) \<in> set (nlog n)" "so_sk ctx = sk"
    "local_key ctx = message_key msg" "sockmap_flow ids pol ctx"
    by (rule redirect_logged [OF assms])
  then show ?thesis unfolding local_key_def message_key_def by auto
qed

definition compiled_ok :: "(policy_key \<rightharpoonup> policy_verdict) \<Rightarrow> bool" where
  "compiled_ok pol \<longleftrightarrow> (\<forall>k v. pol k = Some v \<and> bit (pv_flags v) 0 \<longrightarrow>
     \<not> bit (pv_flags v) 1 \<and> \<not> bit (pv_flags v) 2)"

lemma no_l7_mtls:
  fixes f :: u8
  assumes "\<not> bit f 1" and "\<not> bit f 2"
  shows "f AND 6 = 0"
proof (rule bit_word_eqI)
  fix i assume "i < LENGTH(8)"
  have "bit (6 :: u8) i \<longleftrightarrow> i = 1 \<or> i = 2"
    by (auto simp: bit_numeral_rec bit_1_iff numeral_2_eq_2 split: nat.split)
  then show "bit (f AND 6) i \<longleftrightarrow> bit (0 :: u8) i" using assms by (auto simp: bit_and_iff)
qed

text \<open>
  When the compiled rules keep their promise that an eligible verdict never also requires L7
  handling or mTLS, no message is ever redirected to a socket whose flow required either when it
  was established.
\<close>

theorem redirect_bypasses_nothing:
  assumes "sock_helpers K" and "(node_step K)\<^sup>*\<^sup>* n\<^sub>0 n" and "sockhash (ndp n\<^sub>0) = Map.empty"
    and "meridian_sk_msg K msg (ndp n) = (rc, Some sk, t)"
    and ok: "\<forall>(ctx, ids, pol) \<in> set (nlog n). compiled_ok pol"
  shows "\<exists>(ctx, ids, pol) \<in> set (nlog n). so_sk ctx = sk \<and>
    (\<exists>v. pol (callback_rule ids ctx) = Some v \<and> pv_action v = FLOW_VERDICT_ALLOW \<and>
       pv_flags v AND (POLICY_FLAG_L7_REQUIRED OR POLICY_FLAG_MTLS_REQUIRED) = 0)"
proof -
  obtain ctx ids pol where e: "(ctx, ids, pol) \<in> set (nlog n)" "so_sk ctx = sk"
    "local_key ctx = message_key msg" and g: "sockmap_flow ids pol ctx"
    by (rule redirect_logged [OF assms(1-4)])
  then obtain v where v: "pol (callback_rule ids ctx) = Some v" "pv_action v = 0" "bit (pv_flags v) 0"
    unfolding sockmap_flow_def by (auto split: option.splits)
  then have "\<not> bit (pv_flags v) 1" "\<not> bit (pv_flags v) 2" using ok e(1) unfolding compiled_ok_def by blast+
  then have "pv_flags v AND 6 = 0" by (rule no_l7_mtls)
  then show ?thesis using e(1,2) v(1,2) by (intro bexI [of _ "(ctx, ids, pol)"]) auto
qed

text \<open>
  Where local endpoints are unique, delivery is right: if all logged callbacks with the
  message's destination as their local endpoint belong to one socket, a redirect goes to it.
\<close>

theorem unique_endpoint_delivery:
  assumes "sock_helpers K" and "(node_step K)\<^sup>*\<^sup>* n\<^sub>0 n" and "sockhash (ndp n\<^sub>0) = Map.empty"
    and "meridian_sk_msg K msg (ndp n) = (rc, Some sk, t)"
    and one: "\<forall>(ctx, ids, pol) \<in> set (nlog n). local_key ctx = message_key msg \<longrightarrow> so_sk ctx = peer"
  shows "sk = peer"
proof -
  obtain ctx ids pol where "(ctx, ids, pol) \<in> set (nlog n)" "so_sk ctx = sk" "local_key ctx = message_key msg"
    by (rule redirect_logged [OF assms(1-4)])
  then show ?thesis using one by blast
qed

section \<open>Traffic\<close>


section \<open>A run of a node\<close>

definition demo_start :: "u64 node" where
  "demo_start = \<lparr>ndp = demo_dp [] 0 (demo_pol 6 0 1), nlog = []\<rparr>"

definition demo_node :: "u64 node" where
  "demo_node = \<lparr>ndp = snd (meridian_sock_ops model_kernel (demo_accept 0x0100000a 40000 2) (ndp demo_start)),
     nlog = [(demo_accept 0x0100000a 40000 2, demo_ids, demo_pol 6 0 1)]\<rparr>"

lemma demo_node_reached: "(node_step model_kernel)\<^sup>*\<^sup>* demo_start demo_node"
  "sockhash (ndp demo_start) = Map.empty"
proof -
  have "node_step model_kernel demo_start demo_node"
    using node_step.established [OF prod.collapse [symmetric], of model_kernel demo_start
        "demo_accept 0x0100000a 40000 2"]
    by (simp add: demo_node_def demo_start_def)
  then show "(node_step model_kernel)\<^sup>*\<^sup>* demo_start demo_node" by blast
qed (simp add: demo_start_def)

lemma demo_node_hit:
  obtains t where "meridian_sk_msg model_kernel (message_to 0x0200000a 8080) (ndp demo_node) = (SK_PASS, Some 2, t)"
proof -
  have "sockhash (ndp demo_node) (message_key (message_to 0x0200000a 8080)) = Some 2"
    using mk_sock.sock_ops_inserts(1) [OF prod.collapse [symmetric], of "demo_accept 0x0100000a 40000 2" "ndp demo_start"]
      demo_accept_allowed by (simp add: demo_node_def demo_start_def demo_accept_def endpoint_keys)
  then show thesis using mk_sock.sk_msg_hit that by (metis message_to_def sk_msg_md.select_convs(1))
qed

theorem redirect_is_gated_witness:
  "\<exists>ctx ids pol. (ctx, ids, pol) \<in> set (nlog demo_node) \<and> so_sk ctx = 2 \<and> sockmap_flow ids pol ctx"
proof -
  obtain t where "meridian_sk_msg model_kernel (message_to 0x0200000a 8080) (ndp demo_node) = (SK_PASS, Some 2, t)"
    by (rule demo_node_hit)
  from redirect_is_gated [OF mk_sock.sock_helpers_axioms demo_node_reached this] show ?thesis by blast
qed

lemma demo_compiled_ok: "compiled_ok (demo_pol 6 0 1)"
  by (simp add: compiled_ok_def demo_pol_def)

theorem redirect_bypasses_nothing_witness:
  "\<exists>v. demo_pol 6 0 1 (callback_rule demo_ids (demo_accept 0x0100000a 40000 2)) = Some v \<and>
     pv_flags v AND (POLICY_FLAG_L7_REQUIRED OR POLICY_FLAG_MTLS_REQUIRED) = 0"
proof -
  obtain t where "meridian_sk_msg model_kernel (message_to 0x0200000a 8080) (ndp demo_node) = (SK_PASS, Some 2, t)"
    by (rule demo_node_hit)
  from redirect_bypasses_nothing [OF mk_sock.sock_helpers_axioms demo_node_reached this]
  show ?thesis by (auto simp: demo_node_def demo_compiled_ok)
qed

theorem unique_endpoint_delivery_witness:
  "\<exists>sk t. meridian_sk_msg model_kernel (message_to 0x0200000a 8080) (ndp demo_node) = (SK_PASS, Some sk, t) \<and>
     sk = 2"
proof -
  obtain t where h: "meridian_sk_msg model_kernel (message_to 0x0200000a 8080) (ndp demo_node) = (SK_PASS, Some 2, t)"
    by (rule demo_node_hit)
  have "(2 :: socket) = 2"
    by (rule unique_endpoint_delivery [OF mk_sock.sock_helpers_axioms demo_node_reached h])
       (simp add: demo_node_def demo_accept_def endpoint_keys)
  then show ?thesis using h by blast
qed

end
