(* ===== verification/Counter_Program.thy ===== *)
theory Counter_Program
  imports Tc_Ingress Tc_Interface Demo_Frames
begin

text \<open>
  The smoke program \<^verbatim>\<open>bpf/counter.c\<close>: it counts every packet and reports every plain IPv4 packet
  with one event. Unlike the production programs it does not linearise the packet first and does
  not use the shared parse helpers. Its description \<open>counter_flow\<close> is the flow that is reported.
\<close>

section \<open>The program\<close>

definition metric_inc :: "u32 \<Rightarrow> 'w dp \<Rightarrow> 'w dp" where
  "metric_inc i s =
     (case array_lookup (metrics_map s (cpu s)) i of
        None \<Rightarrow> s
      | Some val \<Rightarrow>
          s\<lparr>metrics_map := (metrics_map s)
              (cpu s := (metrics_map s (cpu s))[unat i := val + 1])\<rparr>)"

definition counter_ports :: "byte list \<Rightarrow> nat \<Rightarrow> nat \<Rightarrow> u8 \<Rightarrow> (u16 \<times> u16) option" where
  "counter_ports d ip ip_hdr_bytes proto =
     (if proto = IPPROTO_TCP \<or> proto = IPPROTO_UDP then
        let l4 = ip + ip_hdr_bytes
        in if l4 + L4_PORTS_BYTES \<le> length d then do {
             p0 \<leftarrow> rd16 d l4;
             p1 \<leftarrow> rd16 d (l4 + 2);
             Some (p0, p1)
           }
           else Some (0, 0)
      else Some (0, 0))"

definition counter_emit :: "'w kernel \<Rightarrow> u32 \<Rightarrow> u32 \<Rightarrow> u16 \<Rightarrow> u16 \<Rightarrow> u8 \<Rightarrow> 'w dp \<Rightarrow> 'w dp" where
  "counter_emit K src_ip dst_ip src_port dst_port proto s =
     (let (r, s) = bpf_ringbuf_reserve K 56 s
      in case r of
           None \<Rightarrow> metric_inc METRIC_RINGBUF_DROPPED s
         | Some ev \<Rightarrow>
             let (now, s) = bpf_ktime_get_ns K s;
                 ev = ev\<lparr>ev_timestamp_ns := now, ev_src_ip := src_ip, ev_dst_ip := dst_ip,
                         ev_src_port := src_port, ev_dst_port := dst_port, ev_proto := proto,
                         ev_verdict := FLOW_VERDICT_ALLOW, ev_pad0 := 0, ev_src_identity := 0,
                         ev_dst_identity := 0, ev_bytes := skb_len (skb s), ev_pad1 := 0,
                         ev_latency_ns := 0, ev_l7_status_code := 0, ev_pad2_0 := 0,
                         ev_pad2_1 := 0, ev_pad2_2 := 0\<rparr>
             in bpf_ringbuf_submit ev s)"

definition meridian_counter :: "'w kernel \<Rightarrow> 'w dp \<Rightarrow> (int \<times> 'w dp) option" where
  "meridian_counter K s = do {
     let d = skb_data (skb s);
     let s = metric_inc METRIC_PACKETS_TOTAL s;
     let eth = 0;
     if eth + sizeof_ethhdr > length d then Some (TC_ACT_OK, s)
     else do {
       h_proto \<leftarrow> eth_h_proto d eth;
       if h_proto \<noteq> bpf_htons ETH_P_IP then Some (TC_ACT_OK, s)
       else do {
         let ip = eth + sizeof_ethhdr;
         if ip + sizeof_iphdr > length d then Some (TC_ACT_OK, s)
         else do {
           ihl \<leftarrow> ip_ihl d ip;
           if ihl < IPV4_IHL_MIN \<or> ihl > IPV4_IHL_MAX then Some (TC_ACT_OK, s)
           else do {
             let ip_hdr_bytes = ihl * IPV4_WORD_BYTES;
             proto \<leftarrow> ip_protocol d ip;
             src_ip \<leftarrow> ip_saddr d ip;
             dst_ip \<leftarrow> ip_daddr d ip;
             (src_port, dst_port) \<leftarrow> counter_ports d ip ip_hdr_bytes proto;
             Some (TC_ACT_OK, counter_emit K src_ip dst_ip src_port dst_port proto s)
           }
         }
       }
     }
   }"

section \<open>What it reports\<close>

definition counter_flow :: "byte list \<Rightarrow> (u32 \<times> u32 \<times> u16 \<times> u16 \<times> u8) option" where
  "counter_flow d =
     (if 34 \<le> length d \<and> w16 d 12 = bpf_htons 0x0800 \<and> 5 \<le> ihl_at d 14 then
        let l4 = 14 + ihl_at d 14 * 4; proto = d ! 23;
            ports = if (proto = 6 \<or> proto = 17) \<and> l4 + 4 \<le> length d
                    then (w16 d l4, w16 d (l4 + 2)) else (0, 0)
        in Some (w32 d 26, w32 d 30, fst ports, snd ports, proto)
      else None)"

lemma counter_copy: "metric_inc i = metric_add i 1"
  by (intro ext) (simp only: metric_inc_def metric_add_def)

lemma counter_eq:
  "meridian_counter K s =
     Some (TC_ACT_OK,
       case counter_flow (skb_data (skb s)) of
         None \<Rightarrow> metric_add METRIC_PACKETS_TOTAL 1 s
       | Some (sip, dip, sp, dp, proto) \<Rightarrow>
           counter_emit K sip dip sp dp proto (metric_add METRIC_PACKETS_TOTAL 1 s))"
  using ihl_le_15 [of "skb_data (skb s) ! 14"]
  by (auto simp: meridian_counter_def counter_flow_def counter_copy counter_ports_def header_field_defs
      load_simps Let_def)

lemma counter_emit_cases:
  "counter_emit K a b c d e s =
     (let (r, w) = k_ringbuf_reserve K (world s) (flow_events s) 56
      in if r = None then metric_add METRIC_RINGBUF_DROPPED 1 (s\<lparr>world := w\<rparr>)
         else let (now, w') = k_ktime_get_ns K w
              in s\<lparr>world := w', flow_events := flow_events s @
                   [decision_event now a b c d e FLOW_VERDICT_ALLOW 0 0 (skb_len (skb s))]\<rparr>)"
  by (auto simp: counter_emit_def map_helper_defs decision_event_def counter_copy split: prod.splits)

lemma counter_emit_frame:
  "config_of (counter_emit K a b c d e s) = config_of s" "sockhash (counter_emit K a b c d e s) = sockhash s"
  by (auto simp: counter_emit_cases config_of_def split: prod.splits)

interpretation counter: tc_program meridian_counter
  by unfold_locales (auto simp: counter_eq counter_emit_frame split: option.splits,
      simp_all add: config_of_def)

text \<open>
  The counter program passes every packet, counts it, and offers exactly one event for a
  packet with a complete plain IPv4 header, with the packet's addresses, ports, protocol and
  length, verdict ALLOW and zero identities; it emits nothing for any other packet.
\<close>

theorem counter_reports_ipv4:
  assumes "metrics_ok s"
  shows "\<exists>t now. meridian_counter K s = Some (TC_ACT_OK, t) \<and>
    metric t METRIC_PACKETS_TOTAL = metric s METRIC_PACKETS_TOTAL + 1 \<and>
    (case counter_flow (skb_data (skb s)) of
       None \<Rightarrow> flow_events t = flow_events s
     | Some (sip, dip, sp, dp, proto) \<Rightarrow>
         event_offered (decision_event now sip dip sp dp proto FLOW_VERDICT_ALLOW 0 0 (skb_len (skb s))) s t)"
proof -
  have len: "length (metrics_map s (cpu s)) = 16" using assms by (simp add: metrics_ok_def)
  show ?thesis
  proof (cases "counter_flow (skb_data (skb s))")
    case None
    then show ?thesis by (simp add: counter_eq metric_metric_add len)
  next
    case (Some f)
    obtain sip dip sp dp proto where f: "f = (sip, dip, sp, dp, proto)" by (cases f)
    show ?thesis
      using len by (auto simp: Some f counter_eq counter_emit_cases event_offered_def metric_metric_add
          Let_def split: prod.splits)
  qed
qed

theorem counter_reports_ipv4_witness:
  "\<exists>t now. meridian_counter model_kernel
       ((demo_dp [] 0 Map.empty)\<lparr>skb := \<lparr>pkt = udp_frame, linear = 42, mark = 0\<rparr>\<rparr>) = Some (TC_ACT_OK, t) \<and>
     event_offered (decision_event now 0x0100000a 0x0200000a 0x409c 0x901f 17 0 0 0 42)
       (demo_dp [] 0 Map.empty) t"
proof -
  let ?s = "(demo_dp [] 0 Map.empty)\<lparr>skb := \<lparr>pkt = udp_frame, linear = 42, mark = 0\<rparr>\<rparr>"
  have "counter_flow (skb_data (skb ?s)) = Some (0x0100000a, 0x0200000a, 0x409c, 0x901f, 17)"
    "skb_len (skb ?s) = 42" by code_simp+
  moreover have "metrics_ok ?s" by (simp add: metrics_ok_def)
  ultimately show ?thesis
    using counter_reports_ipv4 [of ?s model_kernel] by (auto simp: event_offered_def)
qed

end
