(* ===== verification/C_Layout.thy ===== *)
theory C_Layout
  imports Meridian_Prelude
begin

text \<open>
  How a C compiler lays out the structs that the programs share with the kernel and with the
  agent. A type is described by its declaration: integers (and enums) of a number of bytes,
  pointers, arrays, bit-fields, structs and unions. Members are placed in order, each at the next
  multiple of its alignment; a bit-field stays in the current storage unit of its declared type
  when it fits. The lemmas show for every type that members are aligned, do not overlap and stay
  inside the object.
\<close>

section \<open>Types\<close>

datatype cty =
    CInt nat
  | CPtr
  | CArr nat cty
  | CBits nat nat
  | CStruct "(string \<times> cty) list"
  | CUnion "(string \<times> cty) list"

text \<open>
  What a member contributes: an object with its alignment and its size in bytes, or a bit-field
  with the size of its declared type and its width in bits.
\<close>

datatype shape = Object nat nat | BitField nat nat

fun shape_align :: "string \<Rightarrow> shape \<Rightarrow> nat" where
  "shape_align name (Object a n) = a"
| "shape_align name (BitField n w) = (if name = [] then 1 else n)"

fun shape_bytes :: "shape \<Rightarrow> nat" where
  "shape_bytes (Object a n) = n"
| "shape_bytes (BitField n w) = (w + 7) div 8"

fun shape_bits :: "shape \<Rightarrow> nat" where
  "shape_bits (Object a n) = 8 * n"
| "shape_bits (BitField n w) = w"

definition round_up :: "nat \<Rightarrow> nat \<Rightarrow> nat" where
  "round_up n a = (n + a - 1) div a * a"

text \<open>The first bit of a member when the bits before \<open>off\<close> are taken.\<close>

fun place :: "nat \<Rightarrow> shape \<Rightarrow> nat" where
  "place off (Object a n) = round_up off (8 * a)"
| "place off (BitField n w) =
     (if 0 < w \<and> off div (8 * n) = (off + w - 1) div (8 * n) then off else round_up off (8 * n))"

fun layout_from :: "nat \<Rightarrow> (string \<times> shape) list \<Rightarrow> (string \<times> nat \<times> nat) list" where
  "layout_from off [] = []"
| "layout_from off ((name, m) # ms) =
     (name, place off m, shape_bits m) # layout_from (place off m + shape_bits m) ms"

fun layout_end :: "nat \<Rightarrow> (string \<times> shape) list \<Rightarrow> nat" where
  "layout_end off [] = off"
| "layout_end off ((name, m) # ms) = layout_end (place off m + shape_bits m) ms"

definition members_align :: "(string \<times> shape) list \<Rightarrow> nat" where
  "members_align ms = fold max (map (case_prod shape_align) ms) 1"

definition struct_shape :: "(string \<times> shape) list \<Rightarrow> shape" where
  "struct_shape ms =
     (let a = members_align ms in Object a (round_up (layout_end 0 ms) (8 * a) div 8))"

definition union_shape :: "(string \<times> shape) list \<Rightarrow> shape" where
  "union_shape ms =
     (let a = members_align ms
      in Object a (round_up (fold max (map (\<lambda>(name, m). shape_bytes m) ms) 0) a))"

primrec shape_of :: "cty \<Rightarrow> shape" where
  "shape_of (CInt n) = Object n n"
| "shape_of CPtr = Object 8 8"
| "shape_of (CArr k t) = Object (shape_align [] (shape_of t)) (k * shape_bytes (shape_of t))"
| "shape_of (CBits n w) = BitField n w"
| "shape_of (CStruct ms) = struct_shape (map (map_prod id shape_of) ms)"
| "shape_of (CUnion ms) = union_shape (map (map_prod id shape_of) ms)"

definition sizeof :: "cty \<Rightarrow> nat" where
  "sizeof t = shape_bytes (shape_of t)"

definition alignof :: "cty \<Rightarrow> nat" where
  "alignof t = shape_align [] (shape_of t)"

text \<open>The members of a type with their first bit and their length in bits.\<close>

fun members :: "cty \<Rightarrow> (string \<times> nat \<times> nat) list" where
  "members (CStruct ms) = layout_from 0 (map (map_prod id shape_of) ms)"
| "members (CUnion ms) = map (\<lambda>(name, t). (name, 0, shape_bits (shape_of t))) ms"
| "members t = []"

text \<open>
  The members that an expression can name: those of an anonymous struct or union are members of
  the type around it.
\<close>

definition expand :: "(string \<times> nat \<times> nat) list \<Rightarrow> (string \<times> (string \<times> nat \<times> nat) list) list \<Rightarrow>
    (string \<times> nat \<times> nat) list" where
  "expand ms inner =
     concat (map2 (\<lambda>(name, s, l) (_, fs).
       if name = [] then map (\<lambda>(n, s', l'). (n, s + s', l')) fs else [(name, s, l)]) ms inner)"

primrec named_members :: "cty \<Rightarrow> (string \<times> nat \<times> nat) list" where
  "named_members (CInt n) = []"
| "named_members CPtr = []"
| "named_members (CArr k t) = []"
| "named_members (CBits n w) = []"
| "named_members (CStruct ms) = expand (members (CStruct ms)) (map (map_prod id named_members) ms)"
| "named_members (CUnion ms) = expand (members (CUnion ms)) (map (map_prod id named_members) ms)"

definition offsetof :: "cty \<Rightarrow> string \<Rightarrow> nat option" where
  "offsetof t name = map_option (\<lambda>(s, n). s div 8) (map_of (named_members t) name)"

lemmas layout_eval =
  sizeof_def alignof_def struct_shape_def union_shape_def members_align_def round_up_def Let_def
  numeral_2_eq_2 [symmetric] numeral_3_eq_3 [symmetric]

section \<open>Well-formed declarations\<close>

text \<open>
  Integers have one of the four machine sizes, and a bit-field is a member that is no wider than
  its declared type.
\<close>

fun is_bits :: "cty \<Rightarrow> bool" where
  "is_bits (CBits n w) \<longleftrightarrow> True"
| "is_bits t \<longleftrightarrow> False"

fun is_object :: "shape \<Rightarrow> bool" where
  "is_object (Object a n) \<longleftrightarrow> True"
| "is_object (BitField n w) \<longleftrightarrow> False"

primrec wf_cty :: "cty \<Rightarrow> bool" where
  "wf_cty (CInt n) \<longleftrightarrow> n \<in> {1, 2, 4, 8}"
| "wf_cty CPtr \<longleftrightarrow> True"
| "wf_cty (CArr k t) \<longleftrightarrow> wf_cty t \<and> is_object (shape_of t)"
| "wf_cty (CBits n w) \<longleftrightarrow> n \<in> {1, 2, 4, 8} \<and> w \<le> 8 * n"
| "wf_cty (CStruct ms) \<longleftrightarrow> list_all snd (map (map_prod id wf_cty) ms)"
| "wf_cty (CUnion ms) \<longleftrightarrow> list_all snd (map (map_prod id wf_cty) ms)"

section \<open>Layouts are sound\<close>

fun wf_shape :: "shape \<Rightarrow> bool" where
  "wf_shape (Object a n) \<longleftrightarrow> a \<in> {1, 2, 4, 8} \<and> a dvd n"
| "wf_shape (BitField n w) \<longleftrightarrow> n \<in> {1, 2, 4, 8} \<and> w \<le> 8 * n"

lemma round_up_dvd [simp]: "a dvd round_up n a"
  by (simp add: round_up_def)

lemma round_up_ge: "0 < a \<Longrightarrow> n \<le> round_up n a"
  using div_mult_mod_eq [of "n + a - 1" a] mod_less_divisor [of a "n + a - 1"]
  unfolding round_up_def by linarith

lemma place_ge: "wf_shape m \<Longrightarrow> off \<le> place off m"
  by (cases m) (auto intro!: round_up_ge)

lemma place_object: "place off (Object a n) = s \<Longrightarrow> 8 * a dvd s"
  by auto

lemma place_bits:
  assumes "wf_shape (BitField n w)" and "0 < w"
  shows "place off (BitField n w) div (8 * n) = (place off (BitField n w) + w - 1) div (8 * n)"
proof (cases "off div (8 * n) = (off + w - 1) div (8 * n)")
  case False
  have n: "0 < 8 * n" "w - 1 < 8 * n" using assms by auto
  obtain k where k: "round_up off (8 * n) = 8 * n * k" using round_up_dvd by (auto simp: dvd_def)
  have "(8 * n * k + (w - 1)) div (8 * n) = k" using n by (simp only: div_mult_self4 div_less)
  moreover have "8 * n * k + w - 1 = 8 * n * k + (w - 1)" using assms(2) by simp
  ultimately show ?thesis using False n(1) k by simp
qed (use assms(2) in simp)

lemma layout_end_ge: "list_all (\<lambda>x. wf_shape (snd x)) ms \<Longrightarrow> off \<le> layout_end off ms"
  by (induction off ms rule: layout_end.induct) (use place_ge in \<open>fastforce intro: order_trans\<close>)+

lemma length_layout [simp]: "length (layout_from off ms) = length ms"
  by (induction off ms rule: layout_from.induct) auto

lemma layout_bounds:
  assumes "list_all (\<lambda>x. wf_shape (snd x)) ms" and "(name, s, l) \<in> set (layout_from off ms)"
  shows "off \<le> s \<and> s + l \<le> layout_end off ms"
  using assms
proof (induction off ms rule: layout_from.induct)
  case (2 off name' m ms)
  let ?next = "place off m + shape_bits m"
  have "off \<le> place off m" "?next \<le> layout_end ?next ms"
    using 2(2) place_ge layout_end_ge by auto
  then show ?case using 2 by fastforce
qed simp

lemma layout_ordered:
  "list_all (\<lambda>x. wf_shape (snd x)) ms \<Longrightarrow>
     sorted_wrt (\<lambda>(n, s, l) (n', s', l'). s + l \<le> s') (layout_from off ms)"
proof (induction off ms rule: layout_from.induct)
  case (2 off name m ms)
  then show ?case using layout_bounds [of ms _ _ _ "place off m + shape_bits m"] by fastforce
qed simp

lemma layout_nth:
  "i < length ms \<Longrightarrow> \<exists>off'. layout_from off ms ! i = (fst (ms ! i), place off' (snd (ms ! i)), shape_bits (snd (ms ! i)))"
proof (induction ms arbitrary: off i)
  case (Cons x ms)
  obtain name m where x: "x = (name, m)" by (cases x)
  show ?case
  proof (cases i)
    case 0
    then show ?thesis by (auto simp: x)
  next
    case (Suc k)
    then show ?thesis using Cons.IH [of k "place off m + shape_bits m"] Cons.prems by (simp add: x)
  qed
qed simp

lemma fold_max_ge: "(a :: nat) \<le> fold max xs a" "x \<in> set xs \<Longrightarrow> x \<le> fold max xs a"
proof -
  have "insert a (set xs) \<subseteq> {..fold max xs a}"
  proof (induction xs arbitrary: a)
    case (Cons y xs)
    show ?case using Cons.IH [of "max y a"] by auto
  qed simp
  then show "a \<le> fold max xs a" "x \<in> set xs \<Longrightarrow> x \<le> fold max xs a" by auto
qed

lemma fold_max_in: "fold max xs (a :: nat) \<in> insert a (set xs)"
proof (induction xs arbitrary: a)
  case (Cons y xs)
  show ?case using Cons.IH [of "max y a"] by (auto simp: max_def split: if_splits)
qed simp

lemma member_aligns:
  assumes "list_all (\<lambda>x. wf_shape (snd x)) ms" and "x \<in> set ms"
  shows "shape_align (fst x) (snd x) \<in> {1, 2, 4, 8}"
  using assms by (cases "snd x") (auto simp: list_all_iff)

lemma members_align_wf:
  assumes "list_all (\<lambda>x. wf_shape (snd x)) ms"
  shows "members_align ms \<in> {1, 2, 4, 8}"
proof -
  have "set (map (case_prod shape_align) ms) \<subseteq> {1, 2, 4, 8}"
    using member_aligns [OF assms] by force
  then show ?thesis using fold_max_in [of "map (case_prod shape_align) ms" 1] by (auto simp: members_align_def)
qed

lemma align_dvd_members:
  assumes "list_all (\<lambda>x. wf_shape (snd x)) ms" and "x \<in> set ms"
  shows "shape_align (fst x) (snd x) dvd members_align ms"
proof -
  have "shape_align (fst x) (snd x) \<in> set (map (case_prod shape_align) ms)"
    using assms(2) by (force simp: case_prod_unfold)
  then have "shape_align (fst x) (snd x) \<le> members_align ms"
    unfolding members_align_def by (rule fold_max_ge(2))
  then show ?thesis using member_aligns [OF assms] members_align_wf [OF assms(1)] by auto
qed

lemma struct_shape_wf: "list_all (\<lambda>x. wf_shape (snd x)) ms \<Longrightarrow> wf_shape (struct_shape ms)"
  using members_align_wf [of ms] round_up_dvd [of "8 * members_align ms" "layout_end 0 ms"]
  by (auto simp: struct_shape_def Let_def dvd_def)

lemma union_shape_wf: "list_all (\<lambda>x. wf_shape (snd x)) ms \<Longrightarrow> wf_shape (union_shape ms)"
  using members_align_wf [of ms] by (simp add: union_shape_def Let_def)

lemma wf_members: "list_all snd (map (map_prod id wf_cty) ms) \<longleftrightarrow> (\<forall>x \<in> set ms. wf_cty (snd x))"
  by (induction ms) auto

lemma shape_of_wf: "wf_cty t \<Longrightarrow> wf_shape (shape_of t)"
proof (induction t)
  case (CArr k t)
  then show ?case by (cases "shape_of t") auto
next
  case (CStruct ms)
  then have "\<forall>x \<in> set ms. wf_shape (shape_of (snd x))"
    unfolding wf_cty.simps wf_members by (metis snds.intros prod.collapse)
  then show ?case by (simp, intro struct_shape_wf) (auto simp: list_all_iff)
next
  case (CUnion ms)
  then have "\<forall>x \<in> set ms. wf_shape (shape_of (snd x))"
    unfolding wf_cty.simps wf_members by (metis snds.intros prod.collapse)
  then show ?case by (simp, intro union_shape_wf) (auto simp: list_all_iff)
qed auto

text \<open>Everything about one member of a well-formed struct.\<close>

lemma layout_sound:
  assumes wf: "wf_cty (CStruct ms)" and i: "i < length ms"
    and m: "members (CStruct ms) ! i = (name, s, l)"
  shows "name = fst (ms ! i) \<and> s + l \<le> 8 * sizeof (CStruct ms) \<and>
    (\<forall>j < i. fst (snd (members (CStruct ms) ! j)) + snd (snd (members (CStruct ms) ! j)) \<le> s) \<and>
    (\<not> is_bits (snd (ms ! i)) \<longrightarrow>
       l = 8 * sizeof (snd (ms ! i)) \<and> 8 * alignof (snd (ms ! i)) dvd s \<and>
       alignof (snd (ms ! i)) dvd alignof (CStruct ms)) \<and>
    alignof (CStruct ms) dvd sizeof (CStruct ms)"
proof -
  let ?ms = "map (map_prod id shape_of) ms"
  have wfs: "list_all (\<lambda>x. wf_shape (snd x)) ?ms"
    using wf unfolding wf_cty.simps wf_members by (auto simp: list_all_iff intro: shape_of_wf)
  have "wf_shape (shape_of (CStruct ms))" using wf by (rule shape_of_wf)
  then have dvd: "alignof (CStruct ms) dvd sizeof (CStruct ms)"
    by (simp add: alignof_def sizeof_def struct_shape_def Let_def)
  obtain off where off: "name = fst (ms ! i)" "s = place off (shape_of (snd (ms ! i)))"
    "l = shape_bits (shape_of (snd (ms ! i)))"
    using layout_nth [of i ?ms 0] m i by auto
  have sorted: "sorted_wrt (\<lambda>(n, s, l) (n', s', l'). s + l \<le> s') (members (CStruct ms))"
    using layout_ordered [OF wfs] by simp
  have before: "fst (snd (members (CStruct ms) ! j)) + snd (snd (members (CStruct ms) ! j)) \<le> s" if "j < i" for j
    using sorted_wrt_nth_less [OF sorted that] i m by (auto split: prod.splits)
  have "(name, s, l) \<in> set (layout_from 0 ?ms)" using m i nth_mem [of i "layout_from 0 ?ms"] by simp
  then have "s + l \<le> layout_end 0 ?ms" using layout_bounds [OF wfs] by blast
  also have "\<dots> \<le> round_up (layout_end 0 ?ms) (8 * members_align ?ms)"
    using members_align_wf [OF wfs] by (intro round_up_ge) auto
  also have "\<dots> = 8 * sizeof (CStruct ms)"
    using dvd_trans [OF dvd_triv_left round_up_dvd, of 8 "layout_end 0 ?ms" "members_align ?ms"]
    by (simp add: sizeof_def struct_shape_def Let_def)
  finally have inside: "s + l \<le> 8 * sizeof (CStruct ms)" .
  have "l = 8 * sizeof (snd (ms ! i)) \<and> 8 * alignof (snd (ms ! i)) dvd s \<and>
      alignof (snd (ms ! i)) dvd alignof (CStruct ms)" if nb: "\<not> is_bits (snd (ms ! i))"
  proof -
    obtain a n where o: "shape_of (snd (ms ! i)) = Object a n"
      using nb by (cases "snd (ms ! i)") (auto simp: struct_shape_def union_shape_def Let_def)
    have "map_prod id shape_of (ms ! i) \<in> set ?ms" using i by simp
    from align_dvd_members [OF wfs this] have "a dvd members_align ?ms" by (simp add: o)
    then show ?thesis
      using o off(2,3) place_object [of off a n]
      by (simp add: sizeof_def alignof_def struct_shape_def Let_def)
  qed
  then show ?thesis using dvd inside before off(1) by blast
qed

end
