(* ===== verification/Struct_Layout.thy ===== *)
theory Struct_Layout
  imports C_Layout Meridian_Types
begin

text \<open>
  The cross-boundary structs of \<^verbatim>\<open>bpf/include/meridian_types.h\<close> and \<^verbatim>\<open>meridian_maps.h\<close> as C
  declarations. Their computed layout is what the records and byte images of \<open>Meridian_Types\<close>
  describe: every member is at its place, nothing is left over, and two values with the same
  bytes are equal, which is what makes a hash map keyed by bytes a map keyed by values.
\<close>

section \<open>Declarations\<close>

definition c_flow_event :: cty where
  "c_flow_event = CStruct
     [(''timestamp_ns'', CInt 8), (''src_ip'', CInt 4), (''dst_ip'', CInt 4), (''src_port'', CInt 2),
      (''dst_port'', CInt 2), (''proto'', CInt 1), (''verdict'', CInt 1), (''_pad0'', CInt 2),
      (''src_identity'', CInt 4), (''dst_identity'', CInt 4), (''bytes'', CInt 4), (''_pad1'', CInt 4),
      (''latency_ns'', CInt 8), (''l7_status_code'', CInt 2), (''_pad2'', CArr 3 (CInt 2))]"

definition c_policy_key :: cty where
  "c_policy_key = CStruct
     [(''src_id'', CInt 4), (''dst_id'', CInt 4), (''dst_port'', CInt 2), (''proto'', CInt 1),
      (''direction'', CInt 1)]"

definition c_policy_verdict :: cty where
  "c_policy_verdict = CStruct [(''action'', CInt 1), (''flags'', CInt 1), (''_pad'', CInt 2)]"

definition c_flow_key :: cty where
  "c_flow_key = CStruct
     [(''src_ip'', CInt 4), (''dst_ip'', CInt 4), (''src_port'', CInt 2), (''dst_port'', CInt 2),
      (''proto'', CInt 1), (''_pad'', CArr 3 (CInt 1))]"

definition c_deny_info :: cty where
  "c_deny_info = CStruct [(''last_ns'', CInt 8), (''count'', CInt 4), (''reason'', CInt 4)]"

definition c_sock_key :: cty where
  "c_sock_key = CStruct [(''dst_ip'', CInt 4), (''dst_port'', CInt 2), (''pad'', CInt 2)]"

lemmas c_struct_defs =
  c_flow_event_def c_policy_key_def c_policy_verdict_def c_flow_key_def c_deny_info_def c_sock_key_def

lemma c_structs_wf [simp]:
  "wf_cty c_flow_event" "wf_cty c_policy_key" "wf_cty c_policy_verdict" "wf_cty c_flow_key"
  "wf_cty c_deny_info" "wf_cty c_sock_key"
  by (simp_all add: c_struct_defs)

section \<open>Images\<close>

text \<open>
  \<open>img\<close> is the memory of an object of type \<open>t\<close> whose members hold \<open>fs\<close>: the members have the
  names and lengths of the declaration, each is found at its offset, and they fill the object.
\<close>

definition image_of :: "cty \<Rightarrow> (string \<times> byte list) list \<Rightarrow> byte list \<Rightarrow> bool" where
  "image_of t fs img \<longleftrightarrow>
     length img = sizeof t \<and> sum_list (map (\<lambda>(n, bs). length bs) fs) = sizeof t \<and>
     map (\<lambda>(n, s, l). (n, l)) (members t) = map (\<lambda>(n, bs). (n, 8 * length bs)) fs \<and>
     list_all2 (\<lambda>(n, s, l) (n', bs). slice_of img (s div 8) (length bs) = bs) (members t) fs"

lemmas image_simps =
  image_of_def c_struct_defs struct_bytes_defs layout_eval slice_of_def bytes16_def bytes32_def bytes64_def

definition flow_event_fields :: "flow_event \<Rightarrow> (string \<times> byte list) list" where
  "flow_event_fields ev =
     [(''timestamp_ns'', bytes64 (ev_timestamp_ns ev)), (''src_ip'', bytes32 (ev_src_ip ev)),
      (''dst_ip'', bytes32 (ev_dst_ip ev)), (''src_port'', bytes16 (ev_src_port ev)),
      (''dst_port'', bytes16 (ev_dst_port ev)), (''proto'', [ev_proto ev]), (''verdict'', [ev_verdict ev]),
      (''_pad0'', bytes16 (ev_pad0 ev)), (''src_identity'', bytes32 (ev_src_identity ev)),
      (''dst_identity'', bytes32 (ev_dst_identity ev)), (''bytes'', bytes32 (ev_bytes ev)),
      (''_pad1'', bytes32 (ev_pad1 ev)), (''latency_ns'', bytes64 (ev_latency_ns ev)),
      (''l7_status_code'', bytes16 (ev_l7_status_code ev)),
      (''_pad2'', bytes16 (ev_pad2_0 ev) @ bytes16 (ev_pad2_1 ev) @ bytes16 (ev_pad2_2 ev))]"

definition policy_key_fields :: "policy_key \<Rightarrow> (string \<times> byte list) list" where
  "policy_key_fields k =
     [(''src_id'', bytes32 (pk_src_id k)), (''dst_id'', bytes32 (pk_dst_id k)),
      (''dst_port'', bytes16 (pk_dst_port k)), (''proto'', [pk_proto k]), (''direction'', [pk_direction k])]"

definition policy_verdict_fields :: "policy_verdict \<Rightarrow> (string \<times> byte list) list" where
  "policy_verdict_fields v = [(''action'', [pv_action v]), (''flags'', [pv_flags v]), (''_pad'', bytes16 (pv_pad v))]"

definition flow_key_fields :: "flow_key \<Rightarrow> (string \<times> byte list) list" where
  "flow_key_fields k =
     [(''src_ip'', bytes32 (fk_src_ip k)), (''dst_ip'', bytes32 (fk_dst_ip k)),
      (''src_port'', bytes16 (fk_src_port k)), (''dst_port'', bytes16 (fk_dst_port k)),
      (''proto'', [fk_proto k]), (''_pad'', [fk_pad_0 k, fk_pad_1 k, fk_pad_2 k])]"

definition deny_info_fields :: "deny_info \<Rightarrow> (string \<times> byte list) list" where
  "deny_info_fields i =
     [(''last_ns'', bytes64 (di_last_ns i)), (''count'', bytes32 (di_count i)), (''reason'', bytes32 (di_reason i))]"

definition sock_key_fields :: "sock_key \<Rightarrow> (string \<times> byte list) list" where
  "sock_key_fields k =
     [(''dst_ip'', bytes32 (sk_dst_ip k)), (''dst_port'', bytes16 (sk_dst_port k)), (''pad'', bytes16 (sk_pad k))]"

text \<open>
  The byte image of each cross-boundary struct is what the compiler lays out: every member is
  at its offset with its length, in declaration order, there is no hidden padding, and the sizes
  are the frozen 56, 12, 4, 16, 16 and 8 bytes.
\<close>

theorem struct_images:
  "image_of c_flow_event (flow_event_fields ev) (flow_event_bytes ev) \<and> sizeof c_flow_event = 56 \<and>
   image_of c_policy_key (policy_key_fields pk) (policy_key_bytes pk) \<and> sizeof c_policy_key = 12 \<and>
   image_of c_policy_verdict (policy_verdict_fields pv) (policy_verdict_bytes pv) \<and> sizeof c_policy_verdict = 4 \<and>
   image_of c_flow_key (flow_key_fields fk) (flow_key_bytes fk) \<and> sizeof c_flow_key = 16 \<and>
   image_of c_deny_info (deny_info_fields di) (deny_info_bytes di) \<and> sizeof c_deny_info = 16 \<and>
   image_of c_sock_key (sock_key_fields sk) (sock_key_bytes sk) \<and> sizeof c_sock_key = 8"
  by (intro conjI; simp add: image_simps flow_event_fields_def policy_key_fields_def
      policy_verdict_fields_def flow_key_fields_def deny_info_fields_def sock_key_fields_def)

text \<open>
  Values with equal bytes are equal, for every struct that is a key or a value of a map or a
  record of the ring: a kernel hash map that compares key bytes is a map on the records.
\<close>

theorem struct_bytes_inject:
  "(flow_event_bytes ev = flow_event_bytes ev' \<longleftrightarrow> ev = ev') \<and>
   (policy_key_bytes pk = policy_key_bytes pk' \<longleftrightarrow> pk = pk') \<and>
   (policy_verdict_bytes pv = policy_verdict_bytes pv' \<longleftrightarrow> pv = pv') \<and>
   (flow_key_bytes fk = flow_key_bytes fk' \<longleftrightarrow> fk = fk') \<and>
   (deny_info_bytes di = deny_info_bytes di' \<longleftrightarrow> di = di') \<and>
   (sock_key_bytes sk = sock_key_bytes sk' \<longleftrightarrow> sk = sk')"
  by (auto simp: struct_bytes_defs)

end
