(* ===== verification/Vmlinux_Uapi.thy ===== *)
theory Vmlinux_Uapi
  imports C_Layout
begin

text \<open>
  Declarations of \<^verbatim>\<open>bpf/include/vmlinux.h\<close>: the packet headers that the programs parse, the program
  contexts they are handed, and the structs of the BPF system call. Each definition is the
  declaration of the same name, member by member; typedefs of integers are named as in the header.
\<close>

section \<open>Declarations\<close>

definition c___u16 :: cty where
  "c___u16 = CInt 2"

definition c___be16 :: cty where
  "c___be16 = c___u16"

definition c_ethhdr :: cty where
  "c_ethhdr = CStruct [(''h_dest'', CArr 6 (CInt 1)), (''h_source'', CArr 6 (CInt 1)),
    (''h_proto'', c___be16)]"

definition c___u8 :: cty where
  "c___u8 = CInt 1"

definition c___sum16 :: cty where
  "c___sum16 = c___u16"

definition c___u32 :: cty where
  "c___u32 = CInt 4"

definition c___be32 :: cty where
  "c___be32 = c___u32"

definition c_iphdr :: cty where
  "c_iphdr = CStruct [(''ihl'', CBits 1 4), (''version'', CBits 1 4), (''tos'', c___u8),
    (''tot_len'', c___be16), (''id'', c___be16), (''frag_off'', c___be16), (''ttl'', c___u8),
    (''protocol'', c___u8), (''check'', c___sum16),
    ('''', CUnion [('''', CStruct [(''saddr'', c___be32), (''daddr'', c___be32)]),
    (''addrs'', CStruct [(''saddr'', c___be32), (''daddr'', c___be32)])])]"

definition c_udphdr :: cty where
  "c_udphdr = CStruct [(''source'', c___be16), (''dest'', c___be16), (''len'', c___be16),
    (''check'', c___sum16)]"

definition c_tcphdr :: cty where
  "c_tcphdr = CStruct [(''source'', c___be16), (''dest'', c___be16), (''seq'', c___be32),
    (''ack_seq'', c___be32), (''res1'', CBits 2 4), (''doff'', CBits 2 4),
    (''fin'', CBits 2 1), (''syn'', CBits 2 1), (''rst'', CBits 2 1), (''psh'', CBits 2 1),
    (''ack'', CBits 2 1), (''urg'', CBits 2 1), (''ece'', CBits 2 1), (''cwr'', CBits 2 1),
    (''window'', c___be16), (''check'', c___sum16), (''urg_ptr'', c___be16)]"

definition c_vlan_hdr :: cty where
  "c_vlan_hdr = CStruct [(''h_vlan_TCI'', c___be16),
    (''h_vlan_encapsulated_proto'', c___be16)]"

definition c_u8 :: cty where
  "c_u8 = c___u8"

definition c_geneve_opt :: cty where
  "c_geneve_opt = CStruct [(''opt_class'', c___be16), (''type'', c_u8),
    (''length'', CBits 1 5), (''r3'', CBits 1 1), (''r2'', CBits 1 1), (''r1'', CBits 1 1),
    (''opt_data'', CArr 0 c_u8)]"

definition c___u64 :: cty where
  "c___u64 = CInt 8"

definition c___sk_buff :: cty where
  "c___sk_buff = CStruct [(''len'', c___u32), (''pkt_type'', c___u32), (''mark'', c___u32),
    (''queue_mapping'', c___u32), (''protocol'', c___u32), (''vlan_present'', c___u32),
    (''vlan_tci'', c___u32), (''vlan_proto'', c___u32), (''priority'', c___u32),
    (''ingress_ifindex'', c___u32), (''ifindex'', c___u32), (''tc_index'', c___u32),
    (''cb'', CArr 5 c___u32), (''hash'', c___u32), (''tc_classid'', c___u32),
    (''data'', c___u32), (''data_end'', c___u32), (''napi_id'', c___u32),
    (''family'', c___u32), (''remote_ip4'', c___u32), (''local_ip4'', c___u32),
    (''remote_ip6'', CArr 4 c___u32), (''local_ip6'', CArr 4 c___u32),
    (''remote_port'', c___u32), (''local_port'', c___u32), (''data_meta'', c___u32),
    ('''', CUnion [(''flow_keys'', CPtr)]), (''tstamp'', c___u64), (''wire_len'', c___u32),
    (''gso_segs'', c___u32), ('''', CUnion [(''sk'', CPtr)]), (''gso_size'', c___u32)]"

definition c_sk_msg_md :: cty where
  "c_sk_msg_md = CStruct [('''', CUnion [(''data'', CPtr)]),
    ('''', CUnion [(''data_end'', CPtr)]), (''family'', c___u32), (''remote_ip4'', c___u32),
    (''local_ip4'', c___u32), (''remote_ip6'', CArr 4 c___u32),
    (''local_ip6'', CArr 4 c___u32), (''remote_port'', c___u32), (''local_port'', c___u32),
    (''size'', c___u32), ('''', CUnion [(''sk'', CPtr)])]"

definition c_bpf_sock_ops :: cty where
  "c_bpf_sock_ops = CStruct [(''op'', c___u32), ('''', CUnion [(''args'', CArr 4 c___u32),
    (''reply'', c___u32), (''replylong'', CArr 4 c___u32)]), (''family'', c___u32),
    (''remote_ip4'', c___u32), (''local_ip4'', c___u32), (''remote_ip6'', CArr 4 c___u32),
    (''local_ip6'', CArr 4 c___u32), (''remote_port'', c___u32), (''local_port'', c___u32),
    (''is_fullsock'', c___u32), (''snd_cwnd'', c___u32), (''srtt_us'', c___u32),
    (''bpf_sock_ops_cb_flags'', c___u32), (''state'', c___u32), (''rtt_min'', c___u32),
    (''snd_ssthresh'', c___u32), (''rcv_nxt'', c___u32), (''snd_nxt'', c___u32),
    (''snd_una'', c___u32), (''mss_cache'', c___u32), (''ecn_flags'', c___u32),
    (''rate_delivered'', c___u32), (''rate_interval_us'', c___u32), (''packets_out'', c___u32),
    (''retrans_out'', c___u32), (''total_retrans'', c___u32), (''segs_in'', c___u32),
    (''data_segs_in'', c___u32), (''segs_out'', c___u32), (''data_segs_out'', c___u32),
    (''lost_out'', c___u32), (''sacked_out'', c___u32), (''sk_txhash'', c___u32),
    (''bytes_received'', c___u64), (''bytes_acked'', c___u64), ('''', CUnion [(''sk'', CPtr)]),
    ('''', CUnion [(''skb_data'', CPtr)]), ('''', CUnion [(''skb_data_end'', CPtr)]),
    (''skb_len'', c___u32), (''skb_tcp_flags'', c___u32)]"

definition c___s32 :: cty where
  "c___s32 = CInt 4"

definition c_bpf_sock :: cty where
  "c_bpf_sock = CStruct [(''bound_dev_if'', c___u32), (''family'', c___u32),
    (''type'', c___u32), (''protocol'', c___u32), (''mark'', c___u32), (''priority'', c___u32),
    (''src_ip4'', c___u32), (''src_ip6'', CArr 4 c___u32), (''src_port'', c___u32),
    (''dst_port'', c___be16), (''dst_ip4'', c___u32), (''dst_ip6'', CArr 4 c___u32),
    (''state'', c___u32), (''rx_queue_mapping'', c___s32)]"

definition c_bpf_sock_tuple :: cty where
  "c_bpf_sock_tuple = CStruct [('''', CUnion [(''ipv4'', CStruct [(''saddr'', c___be32),
    (''daddr'', c___be32), (''sport'', c___be16), (''dport'', c___be16)]),
    (''ipv6'', CStruct [(''saddr'', CArr 4 c___be32), (''daddr'', CArr 4 c___be32),
    (''sport'', c___be16), (''dport'', c___be16)])])]"

definition c_bpf_tunnel_key :: cty where
  "c_bpf_tunnel_key = CStruct [(''tunnel_id'', c___u32),
    ('''', CUnion [(''remote_ipv4'', c___u32), (''remote_ipv6'', CArr 4 c___u32)]),
    (''tunnel_tos'', c___u8), (''tunnel_ttl'', c___u8), (''tunnel_ext'', c___u16),
    (''tunnel_label'', c___u32)]"

definition c___s16 :: cty where
  "c___s16 = CInt 2"

definition c_bpf_insn :: cty where
  "c_bpf_insn = CStruct [(''code'', c___u8), (''dst_reg'', CBits 1 4),
    (''src_reg'', CBits 1 4), (''off'', c___s16), (''imm'', c___s32)]"

definition c_bpf_map_info :: cty where
  "c_bpf_map_info = CStruct [(''type'', c___u32), (''id'', c___u32), (''key_size'', c___u32),
    (''value_size'', c___u32), (''max_entries'', c___u32), (''map_flags'', c___u32),
    (''name'', CArr 16 (CInt 1)), (''ifindex'', c___u32),
    (''btf_vmlinux_value_type_id'', c___u32), (''netns_dev'', c___u64),
    (''netns_ino'', c___u64), (''btf_id'', c___u32), (''btf_key_type_id'', c___u32),
    (''btf_value_type_id'', c___u32)]"

definition c_bpf_prog_info :: cty where
  "c_bpf_prog_info = CStruct [(''type'', c___u32), (''id'', c___u32), (''tag'', CArr 8 c___u8),
    (''jited_prog_len'', c___u32), (''xlated_prog_len'', c___u32),
    (''jited_prog_insns'', c___u64), (''xlated_prog_insns'', c___u64),
    (''load_time'', c___u64), (''created_by_uid'', c___u32), (''nr_map_ids'', c___u32),
    (''map_ids'', c___u64), (''name'', CArr 16 (CInt 1)), (''ifindex'', c___u32),
    (''gpl_compatible'', CBits 4 1), (''netns_dev'', c___u64), (''netns_ino'', c___u64),
    (''nr_jited_ksyms'', c___u32), (''nr_jited_func_lens'', c___u32),
    (''jited_ksyms'', c___u64), (''jited_func_lens'', c___u64), (''btf_id'', c___u32),
    (''func_info_rec_size'', c___u32), (''func_info'', c___u64), (''nr_func_info'', c___u32),
    (''nr_line_info'', c___u32), (''line_info'', c___u64), (''jited_line_info'', c___u64),
    (''nr_jited_line_info'', c___u32), (''line_info_rec_size'', c___u32),
    (''jited_line_info_rec_size'', c___u32), (''nr_prog_tags'', c___u32),
    (''prog_tags'', c___u64), (''run_time_ns'', c___u64), (''run_cnt'', c___u64),
    (''recursion_misses'', c___u64)]"

definition c_bpf_attr :: cty where
  "c_bpf_attr = CUnion [('''', CStruct [(''map_type'', c___u32), (''key_size'', c___u32),
    (''value_size'', c___u32), (''max_entries'', c___u32), (''map_flags'', c___u32),
    (''inner_map_fd'', c___u32), (''numa_node'', c___u32), (''map_name'', CArr 16 (CInt 1)),
    (''map_ifindex'', c___u32), (''btf_fd'', c___u32), (''btf_key_type_id'', c___u32),
    (''btf_value_type_id'', c___u32), (''btf_vmlinux_value_type_id'', c___u32)]),
    ('''', CStruct [(''map_fd'', c___u32), (''key'', c___u64),
    ('''', CUnion [(''value'', c___u64), (''next_key'', c___u64)]), (''flags'', c___u64)]),
    (''batch'', CStruct [(''in_batch'', c___u64), (''out_batch'', c___u64),
    (''keys'', c___u64), (''values'', c___u64), (''count'', c___u32), (''map_fd'', c___u32),
    (''elem_flags'', c___u64), (''flags'', c___u64)]),
    ('''', CStruct [(''prog_type'', c___u32), (''insn_cnt'', c___u32), (''insns'', c___u64),
    (''license'', c___u64), (''log_level'', c___u32), (''log_size'', c___u32),
    (''log_buf'', c___u64), (''kern_version'', c___u32), (''prog_flags'', c___u32),
    (''prog_name'', CArr 16 (CInt 1)), (''prog_ifindex'', c___u32),
    (''expected_attach_type'', c___u32), (''prog_btf_fd'', c___u32),
    (''func_info_rec_size'', c___u32), (''func_info'', c___u64), (''func_info_cnt'', c___u32),
    (''line_info_rec_size'', c___u32), (''line_info'', c___u64), (''line_info_cnt'', c___u32),
    (''attach_btf_id'', c___u32), ('''', CUnion [(''attach_prog_fd'', c___u32),
    (''attach_btf_obj_fd'', c___u32)]), (''fd_array'', c___u64)]),
    ('''', CStruct [(''pathname'', c___u64), (''bpf_fd'', c___u32),
    (''file_flags'', c___u32)]), ('''', CStruct [(''target_fd'', c___u32),
    (''attach_bpf_fd'', c___u32), (''attach_type'', c___u32), (''attach_flags'', c___u32),
    (''replace_bpf_fd'', c___u32)]), (''test'', CStruct [(''prog_fd'', c___u32),
    (''retval'', c___u32), (''data_size_in'', c___u32), (''data_size_out'', c___u32),
    (''data_in'', c___u64), (''data_out'', c___u64), (''repeat'', c___u32),
    (''duration'', c___u32), (''ctx_size_in'', c___u32), (''ctx_size_out'', c___u32),
    (''ctx_in'', c___u64), (''ctx_out'', c___u64), (''flags'', c___u32), (''cpu'', c___u32)]),
    ('''', CStruct [('''', CUnion [(''start_id'', c___u32), (''prog_id'', c___u32),
    (''map_id'', c___u32), (''btf_id'', c___u32), (''link_id'', c___u32)]),
    (''next_id'', c___u32), (''open_flags'', c___u32)]),
    (''info'', CStruct [(''bpf_fd'', c___u32), (''info_len'', c___u32), (''info'', c___u64)]),
    (''query'', CStruct [(''target_fd'', c___u32), (''attach_type'', c___u32),
    (''query_flags'', c___u32), (''attach_flags'', c___u32), (''prog_ids'', c___u64),
    (''prog_cnt'', c___u32)]), (''raw_tracepoint'', CStruct [(''name'', c___u64),
    (''prog_fd'', c___u32)]), ('''', CStruct [(''btf'', c___u64), (''btf_log_buf'', c___u64),
    (''btf_size'', c___u32), (''btf_log_size'', c___u32), (''btf_log_level'', c___u32)]),
    (''task_fd_query'', CStruct [(''pid'', c___u32), (''fd'', c___u32), (''flags'', c___u32),
    (''buf_len'', c___u32), (''buf'', c___u64), (''prog_id'', c___u32), (''fd_type'', c___u32),
    (''probe_offset'', c___u64), (''probe_addr'', c___u64)]),
    (''link_create'', CStruct [(''prog_fd'', c___u32), ('''', CUnion [(''target_fd'', c___u32),
    (''target_ifindex'', c___u32)]), (''attach_type'', c___u32), (''flags'', c___u32),
    ('''', CUnion [(''target_btf_id'', c___u32), ('''', CStruct [(''iter_info'', c___u64),
    (''iter_info_len'', c___u32)]), (''perf_event'', CStruct [(''bpf_cookie'', c___u64)])])]),
    (''link_update'', CStruct [(''link_fd'', c___u32), (''new_prog_fd'', c___u32),
    (''flags'', c___u32), (''old_prog_fd'', c___u32)]),
    (''link_detach'', CStruct [(''link_fd'', c___u32)]),
    (''enable_stats'', CStruct [(''type'', c___u32)]),
    (''iter_create'', CStruct [(''link_fd'', c___u32), (''flags'', c___u32)]),
    (''prog_bind_map'', CStruct [(''prog_fd'', c___u32), (''map_fd'', c___u32),
    (''flags'', c___u32)])]"

lemmas vmlinux_uapi_names =
  c___u16_def c___be16_def c___u8_def c___sum16_def c___u32_def c___be32_def c_u8_def
  c___u64_def c___s32_def c___s16_def

section \<open>Sizes\<close>

text \<open>Alignment and size of each declaration, in the order in which they build on each other.\<close>

lemma vmlinux_uapi_shapes_1 [simp]:
  "shape_of c_ethhdr = Object 2 14" "shape_of c_iphdr = Object 4 20"
  "shape_of c_udphdr = Object 2 8" "shape_of c_tcphdr = Object 4 20"
  "shape_of c_vlan_hdr = Object 2 4" "shape_of c_geneve_opt = Object 2 4"
  "shape_of c___sk_buff = Object 8 184" "shape_of c_sk_msg_md = Object 8 80"
  by (simp_all add: layout_eval vmlinux_uapi_names c_ethhdr_def c_iphdr_def c_udphdr_def
      c_tcphdr_def c_vlan_hdr_def c_geneve_opt_def c___sk_buff_def c_sk_msg_md_def)

lemma vmlinux_uapi_shapes_2 [simp]:
  "shape_of c_bpf_sock_ops = Object 8 216" "shape_of c_bpf_sock = Object 4 80"
  "shape_of c_bpf_sock_tuple = Object 4 36" "shape_of c_bpf_tunnel_key = Object 4 28"
  "shape_of c_bpf_insn = Object 4 8" "shape_of c_bpf_map_info = Object 8 80"
  "shape_of c_bpf_prog_info = Object 8 216" "shape_of c_bpf_attr = Object 8 128"
  by (simp_all add: layout_eval vmlinux_uapi_names c_bpf_sock_ops_def c_bpf_sock_def
      c_bpf_sock_tuple_def c_bpf_tunnel_key_def c_bpf_insn_def c_bpf_map_info_def
      c_bpf_prog_info_def c_bpf_attr_def)

section \<open>Well-formedness\<close>

text \<open>Every declaration is well formed, so its layout is sound.\<close>

lemma vmlinux_uapi_wf_1 [simp]:
  "wf_cty c_ethhdr" "wf_cty c_iphdr" "wf_cty c_udphdr" "wf_cty c_tcphdr" "wf_cty c_vlan_hdr"
  "wf_cty c_geneve_opt" "wf_cty c___sk_buff" "wf_cty c_sk_msg_md"
  by (simp_all add: layout_eval vmlinux_uapi_names c_ethhdr_def c_iphdr_def c_udphdr_def
      c_tcphdr_def c_vlan_hdr_def c_geneve_opt_def c___sk_buff_def c_sk_msg_md_def)

lemma vmlinux_uapi_wf_2 [simp]:
  "wf_cty c_bpf_sock_ops" "wf_cty c_bpf_sock" "wf_cty c_bpf_sock_tuple"
  "wf_cty c_bpf_tunnel_key" "wf_cty c_bpf_insn" "wf_cty c_bpf_map_info"
  "wf_cty c_bpf_prog_info" "wf_cty c_bpf_attr"
  by (simp_all add: layout_eval vmlinux_uapi_names c_bpf_sock_ops_def c_bpf_sock_def
      c_bpf_sock_tuple_def c_bpf_tunnel_key_def c_bpf_insn_def c_bpf_map_info_def
      c_bpf_prog_info_def c_bpf_attr_def)

end
