(* ===== verification/Vmlinux_Net.thy ===== *)
theory Vmlinux_Net
  imports Vmlinux_Uapi
begin

text \<open>
  Declarations of \<^verbatim>\<open>bpf/include/vmlinux.h\<close>: the kernel's packet buffer and the chain of socket structs
  behind a TCP socket, with the small structs they are made of.
\<close>

section \<open>Declarations\<close>

definition c_rb_node :: cty where
  "c_rb_node = CStruct [(''__rb_parent_color'', CInt 8), (''rb_right'', CPtr),
    (''rb_left'', CPtr)]"

definition c_list_head :: cty where
  "c_list_head = CStruct [(''next'', CPtr), (''prev'', CPtr)]"

definition c___s64 :: cty where
  "c___s64 = CInt 8"

definition c_s64 :: cty where
  "c_s64 = c___s64"

definition c_ktime_t :: cty where
  "c_ktime_t = c_s64"

definition c_u64 :: cty where
  "c_u64 = c___u64"

definition c___wsum :: cty where
  "c___wsum = c___u32"

definition c_sk_buff_data_t :: cty where
  "c_sk_buff_data_t = CInt 4"

definition c_atomic_t :: cty where
  "c_atomic_t = CStruct [(''counter'', CInt 4)]"

definition c_refcount_struct :: cty where
  "c_refcount_struct = CStruct [(''refs'', c_atomic_t)]"

definition c_refcount_t :: cty where
  "c_refcount_t = c_refcount_struct"

definition c_sk_buff :: cty where
  "c_sk_buff = CStruct [('''', CUnion [('''', CStruct [(''next'', CPtr), (''prev'', CPtr),
    ('''', CUnion [(''dev'', CPtr), (''dev_scratch'', CInt 8)])]), (''rbnode'', c_rb_node),
    (''list'', c_list_head)]), (''sk'', CPtr), ('''', CUnion [(''tstamp'', c_ktime_t),
    (''skb_mstamp_ns'', c_u64)]), (''cb'', CArr 48 (CInt 1)),
    ('''', CUnion [('''', CStruct [(''_skb_refdst'', CInt 8), (''destructor'', CPtr)]),
    (''tcp_tsorted_anchor'', c_list_head), (''_sk_redir'', CInt 8)]), (''_nfct'', CInt 8),
    (''len'', CInt 4), (''data_len'', CInt 4), (''mac_len'', c___u16), (''hdr_len'', c___u16),
    (''queue_mapping'', c___u16), (''__cloned_offset'', CArr 0 c___u8),
    (''cloned'', CBits 1 1), (''nohdr'', CBits 1 1), (''fclone'', CBits 1 2),
    (''peeked'', CBits 1 1), (''head_frag'', CBits 1 1), (''pfmemalloc'', CBits 1 1),
    (''pp_recycle'', CBits 1 1), (''active_extensions'', c___u8),
    (''headers_start'', CArr 0 c___u32), (''__pkt_type_offset'', CArr 0 c___u8),
    (''pkt_type'', CBits 1 3), (''ignore_df'', CBits 1 1), (''nf_trace'', CBits 1 1),
    (''ip_summed'', CBits 1 2), (''ooo_okay'', CBits 1 1), (''l4_hash'', CBits 1 1),
    (''sw_hash'', CBits 1 1), (''wifi_acked_valid'', CBits 1 1), (''wifi_acked'', CBits 1 1),
    (''no_fcs'', CBits 1 1), (''encapsulation'', CBits 1 1), (''encap_hdr_csum'', CBits 1 1),
    (''csum_valid'', CBits 1 1), (''__pkt_vlan_present_offset'', CArr 0 c___u8),
    (''vlan_present'', CBits 1 1), (''csum_complete_sw'', CBits 1 1),
    (''csum_level'', CBits 1 2), (''csum_not_inet'', CBits 1 1),
    (''dst_pending_confirm'', CBits 1 1), (''ndisc_nodetype'', CBits 1 2),
    (''ipvs_property'', CBits 1 1), (''inner_protocol_type'', CBits 1 1),
    (''remcsum_offload'', CBits 1 1), (''offload_fwd_mark'', CBits 1 1),
    (''offload_l3_fwd_mark'', CBits 1 1), (''tc_skip_classify'', CBits 1 1),
    (''tc_at_ingress'', CBits 1 1), (''redirected'', CBits 1 1), (''from_ingress'', CBits 1 1),
    (''decrypted'', CBits 1 1), (''slow_gro'', CBits 1 1), (''scm_io_uring'', CBits 1 1),
    (''tc_index'', c___u16), ('''', CUnion [(''csum'', c___wsum),
    ('''', CStruct [(''csum_start'', c___u16), (''csum_offset'', c___u16)])]),
    (''priority'', c___u32), (''skb_iif'', CInt 4), (''hash'', c___u32),
    (''vlan_proto'', c___be16), (''vlan_tci'', c___u16), ('''', CUnion [(''napi_id'', CInt 4),
    (''sender_cpu'', CInt 4)]), (''secmark'', c___u32), ('''', CUnion [(''mark'', c___u32),
    (''reserved_tailroom'', c___u32)]), ('''', CUnion [(''inner_protocol'', c___be16),
    (''inner_ipproto'', c___u8)]), (''inner_transport_header'', c___u16),
    (''inner_network_header'', c___u16), (''inner_mac_header'', c___u16),
    (''protocol'', c___be16), (''transport_header'', c___u16), (''network_header'', c___u16),
    (''mac_header'', c___u16), (''headers_end'', CArr 0 c___u32), (''tail'', c_sk_buff_data_t),
    (''end'', c_sk_buff_data_t), (''head'', CPtr), (''data'', CPtr), (''truesize'', CInt 4),
    (''users'', c_refcount_t), (''extensions'', CPtr)]"

definition c___addrpair :: cty where
  "c___addrpair = c___u64"

definition c___portpair :: cty where
  "c___portpair = c___u32"

definition c_hlist_node :: cty where
  "c_hlist_node = CStruct [(''next'', CPtr), (''pprev'', CPtr)]"

definition c_possible_net_t :: cty where
  "c_possible_net_t = CStruct [(''net'', CPtr)]"

definition c_in6_addr :: cty where
  "c_in6_addr = CStruct [(''in6_u'', CUnion [(''u6_addr8'', CArr 16 c___u8),
    (''u6_addr16'', CArr 8 c___be16), (''u6_addr32'', CArr 4 c___be32)])]"

definition c_atomic64_t :: cty where
  "c_atomic64_t = CStruct [(''counter'', c_s64)]"

definition c_hlist_nulls_node :: cty where
  "c_hlist_nulls_node = CStruct [(''next'', CPtr), (''pprev'', CPtr)]"

definition c_u32 :: cty where
  "c_u32 = c___u32"

definition c_sock_common :: cty where
  "c_sock_common = CStruct [('''', CUnion [(''skc_addrpair'', c___addrpair),
    ('''', CStruct [(''skc_daddr'', c___be32), (''skc_rcv_saddr'', c___be32)])]),
    ('''', CUnion [(''skc_hash'', CInt 4), (''skc_u16hashes'', CArr 2 c___u16)]),
    ('''', CUnion [(''skc_portpair'', c___portpair), ('''', CStruct [(''skc_dport'', c___be16),
    (''skc_num'', c___u16)])]), (''skc_family'', CInt 2), (''skc_state'', CInt 1),
    (''skc_reuse'', CBits 1 4), (''skc_reuseport'', CBits 1 1), (''skc_ipv6only'', CBits 1 1),
    (''skc_net_refcnt'', CBits 1 1), (''skc_bound_dev_if'', CInt 4),
    ('''', CUnion [(''skc_bind_node'', c_hlist_node), (''skc_portaddr_node'', c_hlist_node)]),
    (''skc_prot'', CPtr), (''skc_net'', c_possible_net_t), (''skc_v6_daddr'', c_in6_addr),
    (''skc_v6_rcv_saddr'', c_in6_addr), (''skc_cookie'', c_atomic64_t),
    ('''', CUnion [(''skc_flags'', CInt 8), (''skc_listener'', CPtr), (''skc_tw_dr'', CPtr)]),
    (''skc_dontcopy_begin'', CArr 0 (CInt 4)), ('''', CUnion [(''skc_node'', c_hlist_node),
    (''skc_nulls_node'', c_hlist_nulls_node)]), (''skc_tx_queue_mapping'', CInt 2),
    (''skc_rx_queue_mapping'', CInt 2), ('''', CUnion [(''skc_incoming_cpu'', CInt 4),
    (''skc_rcv_wnd'', c_u32), (''skc_tw_rcv_nxt'', c_u32)]), (''skc_refcnt'', c_refcount_t),
    (''skc_dontcopy_end'', CArr 0 (CInt 4)), ('''', CUnion [(''skc_rxhash'', c_u32),
    (''skc_window_clamp'', c_u32), (''skc_tw_snd_nxt'', c_u32)])]"

definition c_u16 :: cty where
  "c_u16 = c___u16"

definition c_qspinlock :: cty where
  "c_qspinlock = CStruct [('''', CUnion [(''val'', c_atomic_t),
    ('''', CStruct [(''locked'', c_u8), (''pending'', c_u8)]),
    ('''', CStruct [(''locked_pending'', c_u16), (''tail'', c_u16)])])]"

definition c_arch_spinlock_t :: cty where
  "c_arch_spinlock_t = c_qspinlock"

definition c_raw_spinlock :: cty where
  "c_raw_spinlock = CStruct [(''raw_lock'', c_arch_spinlock_t)]"

definition c_spinlock :: cty where
  "c_spinlock = CStruct [('''', CUnion [(''rlock'', c_raw_spinlock)])]"

definition c_spinlock_t :: cty where
  "c_spinlock_t = c_spinlock"

definition c_wait_queue_head :: cty where
  "c_wait_queue_head = CStruct [(''lock'', c_spinlock_t), (''head'', c_list_head)]"

definition c_wait_queue_head_t :: cty where
  "c_wait_queue_head_t = c_wait_queue_head"

definition c_socket_lock_t :: cty where
  "c_socket_lock_t = CStruct [(''slock'', c_spinlock_t), (''owned'', CInt 4),
    (''wq'', c_wait_queue_head_t)]"

definition c_sk_buff_head :: cty where
  "c_sk_buff_head = CStruct [(''next'', CPtr), (''prev'', CPtr), (''qlen'', c___u32),
    (''lock'', c_spinlock_t)]"

definition c_rb_root :: cty where
  "c_rb_root = CStruct [(''rb_node'', CPtr)]"

definition c_timer_list :: cty where
  "c_timer_list = CStruct [(''entry'', c_hlist_node), (''expires'', CInt 8),
    (''function'', CPtr), (''flags'', c_u32)]"

definition c_page_frag :: cty where
  "c_page_frag = CStruct [(''page'', CPtr), (''offset'', c___u32), (''size'', c___u32)]"

definition c_netdev_features_t :: cty where
  "c_netdev_features_t = c_u64"

definition c_gfp_t :: cty where
  "c_gfp_t = CInt 4"

definition c_qrwlock :: cty where
  "c_qrwlock = CStruct [('''', CUnion [(''cnts'', c_atomic_t),
    ('''', CStruct [(''wlocked'', c_u8), (''__lstate'', CArr 3 c_u8)])]),
    (''wait_lock'', c_arch_spinlock_t)]"

definition c_arch_rwlock_t :: cty where
  "c_arch_rwlock_t = c_qrwlock"

definition c_rwlock_t :: cty where
  "c_rwlock_t = CStruct [(''raw_lock'', c_arch_rwlock_t)]"

definition c___kernel_uid32_t :: cty where
  "c___kernel_uid32_t = CInt 4"

definition c_uid_t :: cty where
  "c_uid_t = c___kernel_uid32_t"

definition c_kuid_t :: cty where
  "c_kuid_t = CStruct [(''val'', c_uid_t)]"

definition c_sock_cgroup_data :: cty where
  "c_sock_cgroup_data = CStruct [(''cgroup'', CPtr), (''classid'', c_u32),
    (''prioidx'', c_u16)]"

definition c_callback_head :: cty where
  "c_callback_head = CStruct [(''next'', CPtr), (''func'', CPtr)]"

definition c_sock :: cty where
  "c_sock = CStruct [(''__sk_common'', c_sock_common), (''sk_lock'', c_socket_lock_t),
    (''sk_drops'', c_atomic_t), (''sk_rcvlowat'', CInt 4),
    (''sk_error_queue'', c_sk_buff_head), (''sk_rx_skb_cache'', CPtr),
    (''sk_receive_queue'', c_sk_buff_head),
    (''sk_backlog'', CStruct [(''rmem_alloc'', c_atomic_t), (''len'', CInt 4),
    (''head'', CPtr), (''tail'', CPtr)]), (''sk_forward_alloc'', CInt 4),
    (''sk_ll_usec'', CInt 4), (''sk_napi_id'', CInt 4), (''sk_rcvbuf'', CInt 4),
    (''sk_wait_pending'', CInt 4), (''sk_filter'', CPtr), ('''', CUnion [(''sk_wq'', CPtr),
    (''sk_wq_raw'', CPtr)]), (''sk_policy'', CArr 2 CPtr), (''sk_rx_dst'', CPtr),
    (''sk_rx_dst_ifindex'', CInt 4), (''sk_rx_dst_cookie'', c_u32), (''sk_dst_cache'', CPtr),
    (''sk_omem_alloc'', c_atomic_t), (''sk_sndbuf'', CInt 4), (''sk_wmem_queued'', CInt 4),
    (''sk_wmem_alloc'', c_refcount_t), (''sk_tsq_flags'', CInt 8),
    ('''', CUnion [(''sk_send_head'', CPtr), (''tcp_rtx_queue'', c_rb_root)]),
    (''sk_tx_skb_cache'', CPtr), (''sk_write_queue'', c_sk_buff_head),
    (''sk_peek_off'', c___s32), (''sk_write_pending'', CInt 4),
    (''sk_dst_pending_confirm'', c___u32), (''sk_pacing_status'', c_u32),
    (''sk_sndtimeo'', CInt 8), (''sk_timer'', c_timer_list), (''sk_priority'', c___u32),
    (''sk_mark'', c___u32), (''sk_pacing_rate'', CInt 8), (''sk_max_pacing_rate'', CInt 8),
    (''sk_frag'', c_page_frag), (''sk_route_caps'', c_netdev_features_t),
    (''sk_route_nocaps'', c_netdev_features_t),
    (''sk_route_forced_caps'', c_netdev_features_t), (''sk_gso_type'', CInt 4),
    (''sk_gso_max_size'', CInt 4), (''sk_allocation'', c_gfp_t), (''sk_txhash'', c___u32),
    (''sk_padding'', CBits 1 1), (''sk_kern_sock'', CBits 1 1),
    (''sk_no_check_tx'', CBits 1 1), (''sk_no_check_rx'', CBits 1 1),
    (''sk_userlocks'', CBits 1 4), (''sk_pacing_shift'', c_u8), (''sk_type'', c_u16),
    (''sk_protocol'', c_u16), (''sk_gso_max_segs'', c_u16), (''sk_lingertime'', CInt 8),
    (''sk_prot_creator'', CPtr), (''sk_callback_lock'', c_rwlock_t), (''sk_err'', CInt 4),
    (''sk_err_soft'', CInt 4), (''sk_ack_backlog'', c_u32), (''sk_max_ack_backlog'', c_u32),
    (''sk_uid'', c_kuid_t), (''sk_prefer_busy_poll'', c_u8), (''sk_busy_poll_budget'', c_u16),
    (''sk_peer_lock'', c_spinlock_t), (''sk_peer_pid'', CPtr), (''sk_peer_cred'', CPtr),
    (''sk_rcvtimeo'', CInt 8), (''sk_stamp'', c_ktime_t), (''sk_tsflags'', c_u16),
    (''sk_bind_phc'', CInt 4), (''sk_shutdown'', c_u8), (''sk_tskey'', c_atomic_t),
    (''sk_zckey'', c_atomic_t), (''sk_clockid'', c_u8),
    (''sk_txtime_deadline_mode'', CBits 1 1), (''sk_txtime_report_errors'', CBits 1 1),
    (''sk_txtime_unused'', CBits 1 6), (''sk_socket'', CPtr), (''sk_user_data'', CPtr),
    (''sk_security'', CPtr), (''sk_cgrp_data'', c_sock_cgroup_data), (''sk_memcg'', CPtr),
    (''sk_state_change'', CPtr), (''sk_data_ready'', CPtr), (''sk_write_space'', CPtr),
    (''sk_error_report'', CPtr), (''sk_backlog_rcv'', CPtr), (''sk_validate_xmit_skb'', CPtr),
    (''sk_destruct'', CPtr), (''sk_reuseport_cb'', CPtr), (''sk_bpf_storage'', CPtr),
    (''sk_rcu'', c_callback_head)]"

definition c_inet_cork :: cty where
  "c_inet_cork = CStruct [(''flags'', CInt 4), (''addr'', c___be32), (''opt'', CPtr),
    (''fragsize'', CInt 4), (''length'', CInt 4), (''dst'', CPtr), (''tx_flags'', c_u8),
    (''ttl'', c___u8), (''tos'', c___s16), (''priority'', CInt 1), (''gso_size'', c___u16),
    (''transmit_time'', c_u64), (''mark'', c_u32)]"

definition c___be64 :: cty where
  "c___be64 = c___u64"

definition c_flowi_tunnel :: cty where
  "c_flowi_tunnel = CStruct [(''tun_id'', c___be64)]"

definition c_flowi_common :: cty where
  "c_flowi_common = CStruct [(''flowic_oif'', CInt 4), (''flowic_iif'', CInt 4),
    (''flowic_l3mdev'', CInt 4), (''flowic_mark'', c___u32), (''flowic_tos'', c___u8),
    (''flowic_scope'', c___u8), (''flowic_proto'', c___u8), (''flowic_flags'', c___u8),
    (''flowic_secid'', c___u32), (''flowic_uid'', c_kuid_t),
    (''flowic_multipath_hash'', c___u32), (''flowic_tun_key'', c_flowi_tunnel)]"

definition c_flowi_uli :: cty where
  "c_flowi_uli = CUnion [(''ports'', CStruct [(''dport'', c___be16), (''sport'', c___be16)]),
    (''icmpt'', CStruct [(''type'', c___u8), (''code'', c___u8)]), (''gre_key'', c___be32),
    (''mht'', CStruct [(''type'', c___u8)])]"

definition c_flowi4 :: cty where
  "c_flowi4 = CStruct [(''__fl_common'', c_flowi_common), (''saddr'', c___be32),
    (''daddr'', c___be32), (''uli'', c_flowi_uli)]"

definition c_flowi6 :: cty where
  "c_flowi6 = CStruct [(''__fl_common'', c_flowi_common), (''daddr'', c_in6_addr),
    (''saddr'', c_in6_addr), (''flowlabel'', c___be32), (''uli'', c_flowi_uli),
    (''mp_hash'', c___u32)]"

definition c_flowi :: cty where
  "c_flowi = CStruct [(''u'', CUnion [(''__fl_common'', c_flowi_common), (''ip4'', c_flowi4),
    (''ip6'', c_flowi6)])]"

definition c_inet_cork_full :: cty where
  "c_inet_cork_full = CStruct [(''base'', c_inet_cork), (''fl'', c_flowi)]"

definition c_inet_sock :: cty where
  "c_inet_sock = CStruct [(''sk'', c_sock), (''pinet6'', CPtr), (''inet_saddr'', c___be32),
    (''uc_ttl'', c___s16), (''cmsg_flags'', c___u16), (''inet_opt'', CPtr),
    (''inet_sport'', c___be16), (''inet_id'', c___u16), (''tos'', c___u8),
    (''min_ttl'', c___u8), (''mc_ttl'', c___u8), (''pmtudisc'', c___u8),
    (''recverr'', CBits 1 1), (''is_icsk'', CBits 1 1), (''freebind'', CBits 1 1),
    (''hdrincl'', CBits 1 1), (''mc_loop'', CBits 1 1), (''transparent'', CBits 1 1),
    (''mc_all'', CBits 1 1), (''nodefrag'', CBits 1 1), (''bind_address_no_port'', CBits 1 1),
    (''recverr_rfc4884'', CBits 1 1), (''defer_connect'', CBits 1 1), (''rcv_tos'', c___u8),
    (''convert_csum'', c___u8), (''uc_index'', CInt 4), (''mc_index'', CInt 4),
    (''mc_addr'', c___be32), (''mc_list'', CPtr), (''cork'', c_inet_cork_full)]"

definition c_fastopen_queue :: cty where
  "c_fastopen_queue = CStruct [(''rskq_rst_head'', CPtr), (''rskq_rst_tail'', CPtr),
    (''lock'', c_spinlock_t), (''qlen'', CInt 4), (''max_qlen'', CInt 4), (''ctx'', CPtr)]"

definition c_request_sock_queue :: cty where
  "c_request_sock_queue = CStruct [(''rskq_lock'', c_spinlock_t),
    (''rskq_defer_accept'', c_u8), (''synflood_warned'', c_u32), (''qlen'', c_atomic_t),
    (''young'', c_atomic_t), (''rskq_accept_head'', CPtr), (''rskq_accept_tail'', CPtr),
    (''fastopenq'', c_fastopen_queue)]"

definition c_inet_connection_sock :: cty where
  "c_inet_connection_sock = CStruct [(''icsk_inet'', c_inet_sock),
    (''icsk_accept_queue'', c_request_sock_queue), (''icsk_bind_hash'', CPtr),
    (''icsk_timeout'', CInt 8), (''icsk_retransmit_timer'', c_timer_list),
    (''icsk_delack_timer'', c_timer_list), (''icsk_rto'', c___u32),
    (''icsk_rto_min'', c___u32), (''icsk_delack_max'', c___u32),
    (''icsk_pmtu_cookie'', c___u32), (''icsk_ca_ops'', CPtr), (''icsk_af_ops'', CPtr),
    (''icsk_ulp_ops'', CPtr), (''icsk_ulp_data'', CPtr), (''icsk_clean_acked'', CPtr),
    (''icsk_sync_mss'', CPtr), (''icsk_ca_state'', CBits 1 5),
    (''icsk_ca_initialized'', CBits 1 1), (''icsk_ca_setsockopt'', CBits 1 1),
    (''icsk_ca_dst_locked'', CBits 1 1), (''icsk_retransmits'', c___u8),
    (''icsk_pending'', c___u8), (''icsk_backoff'', c___u8), (''icsk_syn_retries'', c___u8),
    (''icsk_probes_out'', c___u8), (''icsk_ext_hdr_len'', c___u16),
    (''icsk_ack'', CStruct [(''pending'', c___u8), (''quick'', c___u8), (''pingpong'', c___u8),
    (''retry'', c___u8), (''ato'', c___u32), (''timeout'', CInt 8), (''lrcvtime'', c___u32),
    (''last_seg_size'', c___u16), (''rcv_mss'', c___u16)]),
    (''icsk_mtup'', CStruct [(''search_high'', CInt 4), (''search_low'', CInt 4),
    (''probe_size'', CBits 4 31), (''enabled'', CBits 4 1), (''probe_timestamp'', c_u32)]),
    (''icsk_probes_tstamp'', c_u32), (''icsk_user_timeout'', c_u32),
    (''icsk_ca_priv'', CArr 13 c_u64)]"

definition c_tcp_rack :: cty where
  "c_tcp_rack = CStruct [(''mstamp'', c_u64), (''rtt_us'', c_u32), (''end_seq'', c_u32),
    (''last_delivered'', c_u32), (''reo_wnd_steps'', c_u8), (''reo_wnd_persist'', CBits 1 5),
    (''dsack_seen'', CBits 1 1), (''advanced'', CBits 1 1)]"

definition c_minmax_sample :: cty where
  "c_minmax_sample = CStruct [(''t'', c_u32), (''v'', c_u32)]"

definition c_minmax :: cty where
  "c_minmax = CStruct [(''s'', CArr 3 c_minmax_sample)]"

definition c_tcp_options_received :: cty where
  "c_tcp_options_received = CStruct [(''ts_recent_stamp'', CInt 4), (''ts_recent'', c_u32),
    (''rcv_tsval'', c_u32), (''rcv_tsecr'', c_u32), (''saw_tstamp'', CBits 2 1),
    (''tstamp_ok'', CBits 2 1), (''dsack'', CBits 2 1), (''wscale_ok'', CBits 2 1),
    (''sack_ok'', CBits 2 3), (''smc_ok'', CBits 2 1), (''snd_wscale'', CBits 2 4),
    (''rcv_wscale'', CBits 2 4), (''saw_unknown'', CBits 1 1), (''unused'', CBits 1 7),
    (''num_sacks'', c_u8), (''user_mss'', c_u16), (''mss_clamp'', c_u16)]"

definition c_timerqueue_node :: cty where
  "c_timerqueue_node = CStruct [(''node'', c_rb_node), (''expires'', c_ktime_t)]"

definition c_hrtimer :: cty where
  "c_hrtimer = CStruct [(''node'', c_timerqueue_node), (''_softexpires'', c_ktime_t),
    (''function'', CPtr), (''base'', CPtr), (''state'', c_u8), (''is_rel'', c_u8),
    (''is_soft'', c_u8), (''is_hard'', c_u8)]"

definition c_tcp_sack_block :: cty where
  "c_tcp_sack_block = CStruct [(''start_seq'', c_u32), (''end_seq'', c_u32)]"

definition c_tcp_sock :: cty where
  "c_tcp_sock = CStruct [(''inet_conn'', c_inet_connection_sock), (''tcp_header_len'', c_u16),
    (''gso_segs'', c_u16), (''pred_flags'', c___be32), (''bytes_received'', c_u64),
    (''segs_in'', c_u32), (''data_segs_in'', c_u32), (''rcv_nxt'', c_u32),
    (''copied_seq'', c_u32), (''rcv_wup'', c_u32), (''snd_nxt'', c_u32), (''segs_out'', c_u32),
    (''data_segs_out'', c_u32), (''bytes_sent'', c_u64), (''bytes_acked'', c_u64),
    (''dsack_dups'', c_u32), (''snd_una'', c_u32), (''snd_sml'', c_u32),
    (''rcv_tstamp'', c_u32), (''lsndtime'', c_u32), (''last_oow_ack_time'', c_u32),
    (''compressed_ack_rcv_nxt'', c_u32), (''tsoffset'', c_u32), (''tsq_node'', c_list_head),
    (''tsorted_sent_queue'', c_list_head), (''snd_wl1'', c_u32), (''snd_wnd'', c_u32),
    (''max_window'', c_u32), (''mss_cache'', c_u32), (''window_clamp'', c_u32),
    (''rcv_ssthresh'', c_u32), (''rack'', c_tcp_rack), (''advmss'', c_u16),
    (''compressed_ack'', c_u8), (''dup_ack_counter'', CBits 1 2), (''tlp_retrans'', CBits 1 1),
    (''unused'', CBits 1 5), (''chrono_start'', c_u32), (''chrono_stat'', CArr 3 c_u32),
    (''chrono_type'', CBits 1 2), (''rate_app_limited'', CBits 1 1),
    (''fastopen_connect'', CBits 1 1), (''fastopen_no_cookie'', CBits 1 1),
    (''is_sack_reneg'', CBits 1 1), (''fastopen_client_fail'', CBits 1 2),
    (''nonagle'', CBits 1 4), (''thin_lto'', CBits 1 1), (''recvmsg_inq'', CBits 1 1),
    (''repair'', CBits 1 1), (''frto'', CBits 1 1), (''repair_queue'', c_u8),
    (''save_syn'', CBits 1 2), (''syn_data'', CBits 1 1), (''syn_fastopen'', CBits 1 1),
    (''syn_fastopen_exp'', CBits 1 1), (''syn_fastopen_ch'', CBits 1 1),
    (''syn_data_acked'', CBits 1 1), (''is_cwnd_limited'', CBits 1 1),
    (''tlp_high_seq'', c_u32), (''tcp_tx_delay'', c_u32), (''tcp_wstamp_ns'', c_u64),
    (''tcp_clock_cache'', c_u64), (''tcp_mstamp'', c_u64), (''srtt_us'', c_u32),
    (''mdev_us'', c_u32), (''mdev_max_us'', c_u32), (''rttvar_us'', c_u32),
    (''rtt_seq'', c_u32), (''rtt_min'', c_minmax), (''packets_out'', c_u32),
    (''retrans_out'', c_u32), (''max_packets_out'', c_u32), (''cwnd_usage_seq'', c_u32),
    (''urg_data'', c_u16), (''ecn_flags'', c_u8), (''keepalive_probes'', c_u8),
    (''reordering'', c_u32), (''reord_seen'', c_u32), (''snd_up'', c_u32),
    (''rx_opt'', c_tcp_options_received), (''snd_ssthresh'', c_u32), (''snd_cwnd'', c_u32),
    (''snd_cwnd_cnt'', c_u32), (''snd_cwnd_clamp'', c_u32), (''snd_cwnd_used'', c_u32),
    (''snd_cwnd_stamp'', c_u32), (''prior_cwnd'', c_u32), (''prr_delivered'', c_u32),
    (''prr_out'', c_u32), (''delivered'', c_u32), (''delivered_ce'', c_u32), (''lost'', c_u32),
    (''app_limited'', c_u32), (''first_tx_mstamp'', c_u64), (''delivered_mstamp'', c_u64),
    (''rate_delivered'', c_u32), (''rate_interval_us'', c_u32), (''rcv_wnd'', c_u32),
    (''write_seq'', c_u32), (''notsent_lowat'', c_u32), (''pushed_seq'', c_u32),
    (''lost_out'', c_u32), (''sacked_out'', c_u32), (''pacing_timer'', c_hrtimer),
    (''compressed_ack_timer'', c_hrtimer), (''lost_skb_hint'', CPtr),
    (''retransmit_skb_hint'', CPtr), (''out_of_order_queue'', c_rb_root),
    (''ooo_last_skb'', CPtr), (''duplicate_sack'', CArr 1 c_tcp_sack_block),
    (''selective_acks'', CArr 4 c_tcp_sack_block),
    (''recv_sack_cache'', CArr 4 c_tcp_sack_block), (''highest_sack'', CPtr),
    (''lost_cnt_hint'', CInt 4), (''prior_ssthresh'', c_u32), (''high_seq'', c_u32),
    (''retrans_stamp'', c_u32), (''undo_marker'', c_u32), (''undo_retrans'', CInt 4),
    (''bytes_retrans'', c_u64), (''total_retrans'', c_u32), (''urg_seq'', c_u32),
    (''keepalive_time'', CInt 4), (''keepalive_intvl'', CInt 4), (''linger2'', CInt 4),
    (''bpf_sock_ops_cb_flags'', c_u8), (''timeout_rehash'', c_u16), (''rcv_ooopack'', c_u32),
    (''rcv_rtt_last_tsecr'', c_u32), (''rcv_rtt_est'', CStruct [(''rtt_us'', c_u32),
    (''seq'', c_u32), (''time'', c_u64)]), (''rcvq_space'', CStruct [(''space'', c_u32),
    (''seq'', c_u32), (''time'', c_u64)]),
    (''mtu_probe'', CStruct [(''probe_seq_start'', c_u32), (''probe_seq_end'', c_u32)]),
    (''mtu_info'', c_u32), (''is_mptcp'', CInt 1), (''syn_smc'', CInt 1),
    (''af_specific'', CPtr), (''md5sig_info'', CPtr), (''fastopen_req'', CPtr),
    (''fastopen_rsk'', CPtr), (''saved_syn'', CPtr)]"

lemmas vmlinux_net_names =
  c___s64_def c_s64_def c_ktime_t_def c_u64_def c___wsum_def c_sk_buff_data_t_def
  c_refcount_t_def c___addrpair_def c___portpair_def c_u32_def c_u16_def c_arch_spinlock_t_def
  c_spinlock_t_def c_wait_queue_head_t_def c_netdev_features_t_def c_gfp_t_def
  c_arch_rwlock_t_def c___kernel_uid32_t_def c_uid_t_def c___be64_def

section \<open>Sizes\<close>

text \<open>Alignment and size of each declaration, in the order in which they build on each other.\<close>

lemma vmlinux_net_shapes_1 [simp]:
  "shape_of c_rb_node = Object 8 24" "shape_of c_list_head = Object 8 16"
  "shape_of c_atomic_t = Object 4 4" "shape_of c_refcount_struct = Object 4 4"
  "shape_of c_sk_buff = Object 8 224" "shape_of c_hlist_node = Object 8 16"
  "shape_of c_possible_net_t = Object 8 8" "shape_of c_in6_addr = Object 4 16"
  by (simp_all add: layout_eval vmlinux_uapi_names vmlinux_net_names c_rb_node_def
      c_list_head_def c_atomic_t_def c_refcount_struct_def c_sk_buff_def c_hlist_node_def
      c_possible_net_t_def c_in6_addr_def)

lemma vmlinux_net_shapes_2 [simp]:
  "shape_of c_atomic64_t = Object 8 8" "shape_of c_hlist_nulls_node = Object 8 16"
  "shape_of c_sock_common = Object 8 136" "shape_of c_qspinlock = Object 4 4"
  "shape_of c_raw_spinlock = Object 4 4" "shape_of c_spinlock = Object 4 4"
  "shape_of c_wait_queue_head = Object 8 24" "shape_of c_socket_lock_t = Object 8 32"
  by (simp_all add: layout_eval vmlinux_uapi_names vmlinux_net_names c_atomic64_t_def
      c_hlist_nulls_node_def c_sock_common_def c_qspinlock_def c_raw_spinlock_def c_spinlock_def
      c_wait_queue_head_def c_socket_lock_t_def)

lemma vmlinux_net_shapes_3 [simp]:
  "shape_of c_sk_buff_head = Object 8 24" "shape_of c_rb_root = Object 8 8"
  "shape_of c_timer_list = Object 8 40" "shape_of c_page_frag = Object 8 16"
  "shape_of c_qrwlock = Object 4 8" "shape_of c_rwlock_t = Object 4 8"
  "shape_of c_kuid_t = Object 4 4" "shape_of c_sock_cgroup_data = Object 8 16"
  by (simp_all add: layout_eval vmlinux_uapi_names vmlinux_net_names c_sk_buff_head_def
      c_rb_root_def c_timer_list_def c_page_frag_def c_qrwlock_def c_rwlock_t_def c_kuid_t_def
      c_sock_cgroup_data_def)

lemma vmlinux_net_shapes_4 [simp]:
  "shape_of c_callback_head = Object 8 16" "shape_of c_sock = Object 8 800"
  "shape_of c_inet_cork = Object 8 56" "shape_of c_flowi_tunnel = Object 8 8"
  "shape_of c_flowi_common = Object 8 40" "shape_of c_flowi_uli = Object 4 4"
  "shape_of c_flowi4 = Object 8 56" "shape_of c_flowi6 = Object 8 88"
  by (simp_all add: layout_eval vmlinux_uapi_names vmlinux_net_names c_callback_head_def
      c_sock_def c_inet_cork_def c_flowi_tunnel_def c_flowi_common_def c_flowi_uli_def
      c_flowi4_def c_flowi6_def)

lemma vmlinux_net_shapes_5 [simp]:
  "shape_of c_flowi = Object 8 88" "shape_of c_inet_cork_full = Object 8 144"
  "shape_of c_inet_sock = Object 8 1000" "shape_of c_fastopen_queue = Object 8 40"
  "shape_of c_request_sock_queue = Object 8 80" "shape_of c_inet_connection_sock = Object 8 1400"
  "shape_of c_tcp_rack = Object 8 24" "shape_of c_minmax_sample = Object 4 8"
  by (simp_all add: layout_eval vmlinux_uapi_names vmlinux_net_names c_flowi_def
      c_inet_cork_full_def c_inet_sock_def c_fastopen_queue_def c_request_sock_queue_def
      c_inet_connection_sock_def c_tcp_rack_def c_minmax_sample_def)

lemma vmlinux_net_shapes_6 [simp]:
  "shape_of c_minmax = Object 4 24" "shape_of c_tcp_options_received = Object 4 24"
  "shape_of c_timerqueue_node = Object 8 32" "shape_of c_hrtimer = Object 8 64"
  "shape_of c_tcp_sack_block = Object 4 8" "shape_of c_tcp_sock = Object 8 2224"
  by (simp_all add: layout_eval vmlinux_uapi_names vmlinux_net_names c_minmax_def
      c_tcp_options_received_def c_timerqueue_node_def c_hrtimer_def c_tcp_sack_block_def
      c_tcp_sock_def)

section \<open>Well-formedness\<close>

text \<open>Every declaration is well formed, so its layout is sound.\<close>

lemma vmlinux_net_wf_1 [simp]:
  "wf_cty c_rb_node" "wf_cty c_list_head" "wf_cty c_atomic_t" "wf_cty c_refcount_struct"
  "wf_cty c_sk_buff" "wf_cty c_hlist_node" "wf_cty c_possible_net_t" "wf_cty c_in6_addr"
  by (simp_all add: layout_eval vmlinux_uapi_names vmlinux_net_names c_rb_node_def
      c_list_head_def c_atomic_t_def c_refcount_struct_def c_sk_buff_def c_hlist_node_def
      c_possible_net_t_def c_in6_addr_def)

lemma vmlinux_net_wf_2 [simp]:
  "wf_cty c_atomic64_t" "wf_cty c_hlist_nulls_node" "wf_cty c_sock_common" "wf_cty c_qspinlock"
  "wf_cty c_raw_spinlock" "wf_cty c_spinlock" "wf_cty c_wait_queue_head"
  "wf_cty c_socket_lock_t"
  by (simp_all add: layout_eval vmlinux_uapi_names vmlinux_net_names c_atomic64_t_def
      c_hlist_nulls_node_def c_sock_common_def c_qspinlock_def c_raw_spinlock_def c_spinlock_def
      c_wait_queue_head_def c_socket_lock_t_def)

lemma vmlinux_net_wf_3 [simp]:
  "wf_cty c_sk_buff_head" "wf_cty c_rb_root" "wf_cty c_timer_list" "wf_cty c_page_frag"
  "wf_cty c_qrwlock" "wf_cty c_rwlock_t" "wf_cty c_kuid_t" "wf_cty c_sock_cgroup_data"
  by (simp_all add: layout_eval vmlinux_uapi_names vmlinux_net_names c_sk_buff_head_def
      c_rb_root_def c_timer_list_def c_page_frag_def c_qrwlock_def c_rwlock_t_def c_kuid_t_def
      c_sock_cgroup_data_def)

lemma vmlinux_net_wf_4 [simp]:
  "wf_cty c_callback_head" "wf_cty c_sock" "wf_cty c_inet_cork" "wf_cty c_flowi_tunnel"
  "wf_cty c_flowi_common" "wf_cty c_flowi_uli" "wf_cty c_flowi4" "wf_cty c_flowi6"
  by (simp_all add: layout_eval vmlinux_uapi_names vmlinux_net_names c_callback_head_def
      c_sock_def c_inet_cork_def c_flowi_tunnel_def c_flowi_common_def c_flowi_uli_def
      c_flowi4_def c_flowi6_def)

lemma vmlinux_net_wf_5 [simp]:
  "wf_cty c_flowi" "wf_cty c_inet_cork_full" "wf_cty c_inet_sock" "wf_cty c_fastopen_queue"
  "wf_cty c_request_sock_queue" "wf_cty c_inet_connection_sock" "wf_cty c_tcp_rack"
  "wf_cty c_minmax_sample"
  by (simp_all add: layout_eval vmlinux_uapi_names vmlinux_net_names c_flowi_def
      c_inet_cork_full_def c_inet_sock_def c_fastopen_queue_def c_request_sock_queue_def
      c_inet_connection_sock_def c_tcp_rack_def c_minmax_sample_def)

lemma vmlinux_net_wf_6 [simp]:
  "wf_cty c_minmax" "wf_cty c_tcp_options_received" "wf_cty c_timerqueue_node"
  "wf_cty c_hrtimer" "wf_cty c_tcp_sack_block" "wf_cty c_tcp_sock"
  by (simp_all add: layout_eval vmlinux_uapi_names vmlinux_net_names c_minmax_def
      c_tcp_options_received_def c_timerqueue_node_def c_hrtimer_def c_tcp_sack_block_def
      c_tcp_sock_def)

end
