(* ===== verification/Vmlinux_Bpf.thy ===== *)
theory Vmlinux_Bpf
  imports Vmlinux_Net
begin

text \<open>
  Declarations of \<^verbatim>\<open>bpf/include/vmlinux.h\<close>: the kernel objects behind BPF maps, programs and helpers,
  and the socket-map structs that the \<open>sock_ops\<close> and \<open>sk_msg\<close> hooks work on.
\<close>

section \<open>Declarations\<close>

definition c_atomic_long_t :: cty where
  "c_atomic_long_t = c_atomic64_t"

definition c_work_func_t :: cty where
  "c_work_func_t = CPtr"

definition c_work_struct :: cty where
  "c_work_struct = CStruct [(''data'', c_atomic_long_t), (''entry'', c_list_head),
    (''func'', c_work_func_t)]"

definition c_raw_spinlock_t :: cty where
  "c_raw_spinlock_t = c_raw_spinlock"

definition c_optimistic_spin_queue :: cty where
  "c_optimistic_spin_queue = CStruct [(''tail'', c_atomic_t)]"

definition c_mutex :: cty where
  "c_mutex = CStruct [(''owner'', c_atomic_long_t), (''wait_lock'', c_raw_spinlock_t),
    (''osq'', c_optimistic_spin_queue), (''wait_list'', c_list_head)]"

definition c_bpf_map :: cty where
  "c_bpf_map = CStruct [(''ops'', CPtr), (''inner_map_meta'', CPtr), (''security'', CPtr),
    (''map_type'', CInt 4), (''key_size'', c_u32), (''value_size'', c_u32),
    (''max_entries'', c_u32), (''map_flags'', c_u32), (''spin_lock_off'', CInt 4),
    (''timer_off'', CInt 4), (''id'', c_u32), (''numa_node'', CInt 4),
    (''btf_key_type_id'', c_u32), (''btf_value_type_id'', c_u32), (''btf'', CPtr),
    (''memcg'', CPtr), (''name'', CArr 16 (CInt 1)), (''btf_vmlinux_value_type_id'', c_u32),
    (''bypass_spec_v1'', CInt 1), (''frozen'', CInt 1), ('''', CBits 8 64), ('''', CBits 8 64),
    (''refcnt'', c_atomic64_t), (''usercnt'', c_atomic64_t),
    ('''', CUnion [(''work'', c_work_struct), (''rcu'', c_callback_head)]),
    (''freeze_mutex'', c_mutex), (''writecnt'', c_atomic64_t), (''owner_lock'', c_spinlock_t),
    (''owner'', CPtr), (''free_after_mult_rcu_gp'', CInt 1), (''cookie'', c_u64),
    ('''', CBits 8 64)]"

definition c_bpf_map_ops :: cty where
  "c_bpf_map_ops = CStruct [(''map_alloc_check'', CPtr), (''map_alloc'', CPtr),
    (''map_release'', CPtr), (''map_free'', CPtr), (''map_get_next_key'', CPtr),
    (''map_release_uref'', CPtr), (''map_lookup_elem_sys_only'', CPtr),
    (''map_lookup_batch'', CPtr), (''map_lookup_and_delete_elem'', CPtr),
    (''map_lookup_and_delete_batch'', CPtr), (''map_update_batch'', CPtr),
    (''map_delete_batch'', CPtr), (''map_lookup_elem'', CPtr), (''map_update_elem'', CPtr),
    (''map_delete_elem'', CPtr), (''map_push_elem'', CPtr), (''map_pop_elem'', CPtr),
    (''map_peek_elem'', CPtr), (''map_fd_get_ptr'', CPtr), (''map_fd_put_ptr'', CPtr),
    (''map_gen_lookup'', CPtr), (''map_fd_sys_lookup_elem'', CPtr),
    (''map_seq_show_elem'', CPtr), (''map_check_btf'', CPtr), (''map_poke_track'', CPtr),
    (''map_poke_untrack'', CPtr), (''map_poke_run'', CPtr), (''map_direct_value_addr'', CPtr),
    (''map_direct_value_meta'', CPtr), (''map_mmap'', CPtr), (''map_poll'', CPtr),
    (''map_local_storage_charge'', CPtr), (''map_local_storage_uncharge'', CPtr),
    (''map_owner_storage_ptr'', CPtr), (''map_redirect'', CPtr), (''map_meta_equal'', CPtr),
    (''map_set_for_each_callback_args'', CPtr), (''map_for_each_callback'', CPtr),
    (''map_btf_name'', CPtr), (''map_btf_id'', CPtr), (''iter_seq_info'', CPtr)]"

definition c_sock_filter :: cty where
  "c_sock_filter = CStruct [(''code'', c___u16), (''jt'', c___u8), (''jf'', c___u8),
    (''k'', c___u32)]"

definition c_bpf_prog :: cty where
  "c_bpf_prog = CStruct [(''pages'', c_u16), (''jited'', CBits 2 1),
    (''jit_requested'', CBits 2 1), (''gpl_compatible'', CBits 2 1),
    (''cb_access'', CBits 2 1), (''dst_needed'', CBits 2 1), (''blinded'', CBits 2 1),
    (''is_func'', CBits 2 1), (''kprobe_override'', CBits 2 1),
    (''has_callchain_buf'', CBits 2 1), (''enforce_expected_attach_type'', CBits 2 1),
    (''call_get_stack'', CBits 2 1), (''call_get_func_ip'', CBits 2 1), (''type'', CInt 4),
    (''expected_attach_type'', CInt 4), (''len'', c_u32), (''jited_len'', c_u32),
    (''tag'', CArr 8 c_u8), (''stats'', CPtr), (''active'', CPtr), (''bpf_func'', CPtr),
    (''aux'', CPtr), (''orig_prog'', CPtr), (''insns'', CArr 0 c_sock_filter),
    (''insnsi'', CArr 0 c_bpf_insn)]"

definition c_latch_tree_node :: cty where
  "c_latch_tree_node = CStruct [(''node'', CArr 2 c_rb_node)]"

definition c_bpf_ksym :: cty where
  "c_bpf_ksym = CStruct [(''start'', CInt 8), (''end'', CInt 8), (''name'', CArr 128 (CInt 1)),
    (''lnode'', c_list_head), (''tnode'', c_latch_tree_node), (''prog'', CInt 1)]"

definition c_bpf_prog_aux :: cty where
  "c_bpf_prog_aux = CStruct [(''refcnt'', c_atomic64_t), (''used_map_cnt'', c_u32),
    (''used_btf_cnt'', c_u32), (''max_ctx_offset'', c_u32), (''max_pkt_offset'', c_u32),
    (''max_tp_access'', c_u32), (''stack_depth'', c_u32), (''id'', c_u32),
    (''func_cnt'', c_u32), (''func_idx'', c_u32), (''attach_btf_id'', c_u32),
    (''ctx_arg_info_size'', c_u32), (''max_rdonly_access'', c_u32),
    (''max_rdwr_access'', c_u32), (''attach_btf'', CPtr), (''ctx_arg_info'', CPtr),
    (''dst_mutex'', c_mutex), (''dst_prog'', CPtr), (''dst_trampoline'', CPtr),
    (''saved_dst_prog_type'', CInt 4), (''saved_dst_attach_type'', CInt 4),
    (''verifier_zext'', CInt 1), (''offload_requested'', CInt 1),
    (''attach_btf_trace'', CInt 1), (''func_proto_unreliable'', CInt 1),
    (''sleepable'', CInt 1), (''tail_call_reachable'', CInt 1),
    (''tramp_hlist'', c_hlist_node), (''attach_func_proto'', CPtr),
    (''attach_func_name'', CPtr), (''func'', CPtr), (''jit_data'', CPtr), (''poke_tab'', CPtr),
    (''kfunc_tab'', CPtr), (''size_poke_tab'', c_u32), (''ksym'', c_bpf_ksym), (''ops'', CPtr),
    (''used_maps'', CPtr), (''used_maps_mutex'', c_mutex), (''used_btfs'', CPtr),
    (''prog'', CPtr), (''user'', CPtr), (''load_time'', c_u64),
    (''cgroup_storage'', CArr 2 CPtr), (''name'', CArr 16 (CInt 1)), (''security'', CPtr),
    (''offload'', CPtr), (''btf'', CPtr), (''func_info'', CPtr), (''func_info_aux'', CPtr),
    (''linfo'', CPtr), (''jited_linfo'', CPtr), (''func_info_cnt'', c_u32),
    (''nr_linfo'', c_u32), (''linfo_idx'', c_u32), (''num_exentries'', c_u32),
    (''extable'', CPtr), ('''', CUnion [(''work'', c_work_struct),
    (''rcu'', c_callback_head)])]"

definition c_bpf_func_proto :: cty where
  "c_bpf_func_proto = CStruct [(''func'', CPtr), (''gpl_only'', CInt 1),
    (''pkt_access'', CInt 1), (''ret_type'', CInt 4),
    ('''', CUnion [('''', CStruct [(''arg1_type'', CInt 4), (''arg2_type'', CInt 4),
    (''arg3_type'', CInt 4), (''arg4_type'', CInt 4), (''arg5_type'', CInt 4)]),
    (''arg_type'', CArr 5 (CInt 4))]), ('''', CUnion [('''', CStruct [(''arg1_btf_id'', CPtr),
    (''arg2_btf_id'', CPtr), (''arg3_btf_id'', CPtr), (''arg4_btf_id'', CPtr),
    (''arg5_btf_id'', CPtr)]), (''arg_btf_id'', CArr 5 CPtr)]), (''ret_btf_id'', CPtr),
    (''allowed'', CPtr)]"

definition c_pcpu_freelist_head :: cty where
  "c_pcpu_freelist_head = CStruct [(''first'', CPtr), (''lock'', c_raw_spinlock_t)]"

definition c_pcpu_freelist :: cty where
  "c_pcpu_freelist = CStruct [(''freelist'', CPtr), (''extralist'', c_pcpu_freelist_head)]"

definition c_bpf_lru_list :: cty where
  "c_bpf_lru_list = CStruct [(''lists'', CArr 3 c_list_head), (''counts'', CArr 2 (CInt 4)),
    (''next_inactive_rotation'', CPtr), (''lock'', c_raw_spinlock_t), ('''', CBits 8 64),
    ('''', CBits 8 64), ('''', CBits 8 64), ('''', CBits 8 64), ('''', CBits 8 64),
    ('''', CBits 8 64), ('''', CBits 8 64)]"

definition c_bpf_common_lru :: cty where
  "c_bpf_common_lru = CStruct [(''lru_list'', c_bpf_lru_list), (''local_list'', CPtr),
    ('''', CBits 8 64), ('''', CBits 8 64), ('''', CBits 8 64), ('''', CBits 8 64),
    ('''', CBits 8 64), ('''', CBits 8 64), ('''', CBits 8 64)]"

definition c_del_from_htab_func :: cty where
  "c_del_from_htab_func = CPtr"

definition c_bpf_lru :: cty where
  "c_bpf_lru = CStruct [('''', CUnion [(''common_lru'', c_bpf_common_lru),
    (''percpu_lru'', CPtr)]), (''del_from_htab'', c_del_from_htab_func), (''del_arg'', CPtr),
    (''hash_offset'', CInt 4), (''nr_scans'', CInt 4), (''percpu'', CInt 1),
    ('''', CBits 8 64), ('''', CBits 8 64), ('''', CBits 8 64), ('''', CBits 8 64)]"

definition c_lock_class_key :: cty where
  "c_lock_class_key = CStruct []"

definition c_bpf_htab :: cty where
  "c_bpf_htab = CStruct [(''map'', c_bpf_map), (''buckets'', CPtr), (''elems'', CPtr),
    ('''', CBits 8 64), ('''', CBits 8 64), ('''', CBits 8 64), ('''', CBits 8 64),
    ('''', CBits 8 64), ('''', CBits 8 64), ('''', CUnion [(''freelist'', c_pcpu_freelist),
    (''lru'', c_bpf_lru)]), (''extra_elems'', CPtr), (''count'', c_atomic_t),
    (''n_buckets'', c_u32), (''elem_size'', c_u32), (''hashrnd'', c_u32),
    (''lockdep_key'', c_lock_class_key), (''map_locked'', CArr 8 CPtr), ('''', CBits 8 64),
    ('''', CBits 8 64), ('''', CBits 8 64), ('''', CBits 8 64), ('''', CBits 8 64)]"

definition c_dma_addr_t :: cty where
  "c_dma_addr_t = c_u64"

definition c_scatterlist :: cty where
  "c_scatterlist = CStruct [(''page_link'', CInt 8), (''offset'', CInt 4),
    (''length'', CInt 4), (''dma_address'', c_dma_addr_t), (''dma_length'', CInt 4)]"

definition c_sk_msg_sg :: cty where
  "c_sk_msg_sg = CStruct [(''start'', c_u32), (''curr'', c_u32), (''end'', c_u32),
    (''size'', c_u32), (''copybreak'', c_u32), (''copy'', CArr 1 (CInt 8)),
    (''data'', CArr 19 c_scatterlist)]"

definition c_sk_msg :: cty where
  "c_sk_msg = CStruct [(''sg'', c_sk_msg_sg), (''data'', CPtr), (''data_end'', CPtr),
    (''apply_bytes'', c_u32), (''cork_bytes'', c_u32), (''flags'', c_u32), (''skb'', CPtr),
    (''sk_redir'', CPtr), (''sk'', CPtr), (''list'', c_list_head)]"

definition c_sk_psock_progs :: cty where
  "c_sk_psock_progs = CStruct [(''msg_parser'', CPtr), (''stream_parser'', CPtr),
    (''stream_verdict'', CPtr), (''skb_verdict'', CPtr)]"

definition c_delayed_work :: cty where
  "c_delayed_work = CStruct [(''work'', c_work_struct), (''timer'', c_timer_list),
    (''wq'', CPtr), (''cpu'', CInt 4)]"

definition c_strp_stats :: cty where
  "c_strp_stats = CStruct [(''msgs'', CInt 8), (''bytes'', CInt 8), (''mem_fail'', CInt 4),
    (''need_more_hdr'', CInt 4), (''msg_too_big'', CInt 4), (''msg_timeouts'', CInt 4),
    (''bad_hdr_len'', CInt 4)]"

definition c_strp_callbacks :: cty where
  "c_strp_callbacks = CStruct [(''parse_msg'', CPtr), (''rcv_msg'', CPtr),
    (''read_sock_done'', CPtr), (''abort_parser'', CPtr), (''lock'', CPtr),
    (''unlock'', CPtr)]"

definition c_strparser :: cty where
  "c_strparser = CStruct [(''sk'', CPtr), (''stopped'', CBits 4 1), (''paused'', CBits 4 1),
    (''aborted'', CBits 4 1), (''interrupted'', CBits 4 1), (''unrecov_intr'', CBits 4 1),
    (''skb_nextp'', CPtr), (''skb_head'', CPtr), (''need_bytes'', CInt 4),
    (''msg_timer_work'', c_delayed_work), (''work'', c_work_struct), (''stats'', c_strp_stats),
    (''cb'', c_strp_callbacks)]"

definition c_sk_psock_work_state :: cty where
  "c_sk_psock_work_state = CStruct [(''len'', c_u32), (''off'', c_u32)]"

definition c_rcu_work :: cty where
  "c_rcu_work = CStruct [(''work'', c_work_struct), (''rcu'', c_callback_head),
    (''wq'', CPtr)]"

definition c_sk_psock :: cty where
  "c_sk_psock = CStruct [(''sk'', CPtr), (''sk_redir'', CPtr), (''apply_bytes'', c_u32),
    (''cork_bytes'', c_u32), (''eval'', c_u32), (''redir_ingress'', CInt 1), (''cork'', CPtr),
    (''progs'', c_sk_psock_progs), (''strp'', c_strparser), (''ingress_skb'', c_sk_buff_head),
    (''ingress_msg'', c_list_head), (''ingress_lock'', c_spinlock_t), (''state'', CInt 8),
    (''link'', c_list_head), (''link_lock'', c_spinlock_t), (''refcnt'', c_refcount_t),
    (''saved_unhash'', CPtr), (''saved_destroy'', CPtr), (''saved_close'', CPtr),
    (''saved_write_space'', CPtr), (''saved_data_ready'', CPtr),
    (''psock_update_sk_prot'', CPtr), (''sk_proto'', CPtr), (''work_mutex'', c_mutex),
    (''work_state'', c_sk_psock_work_state), (''work'', c_delayed_work),
    (''rwork'', c_rcu_work)]"

definition c_bpf_sock_ops_kern :: cty where
  "c_bpf_sock_ops_kern = CStruct [(''sk'', CPtr), ('''', CUnion [(''args'', CArr 4 c_u32),
    (''reply'', c_u32), (''replylong'', CArr 4 c_u32)]), (''syn_skb'', CPtr), (''skb'', CPtr),
    (''skb_data_end'', CPtr), (''op'', c_u8), (''is_fullsock'', c_u8),
    (''remaining_opt_len'', c_u8), (''temp'', c_u64)]"

lemmas vmlinux_bpf_names =
  c_atomic_long_t_def c_work_func_t_def c_raw_spinlock_t_def c_del_from_htab_func_def
  c_dma_addr_t_def

section \<open>Sizes\<close>

text \<open>Alignment and size of each declaration, in the order in which they build on each other.\<close>

lemma vmlinux_bpf_shapes_1 [simp]:
  "shape_of c_work_struct = Object 8 32" "shape_of c_optimistic_spin_queue = Object 4 4"
  "shape_of c_mutex = Object 8 32" "shape_of c_bpf_map = Object 8 256"
  "shape_of c_bpf_map_ops = Object 8 328" "shape_of c_sock_filter = Object 4 8"
  "shape_of c_bpf_prog = Object 8 72" "shape_of c_latch_tree_node = Object 8 48"
  by (simp_all add: layout_eval vmlinux_uapi_names vmlinux_net_names vmlinux_bpf_names
      c_work_struct_def c_optimistic_spin_queue_def c_mutex_def c_bpf_map_def c_bpf_map_ops_def
      c_sock_filter_def c_bpf_prog_def c_latch_tree_node_def)

lemma vmlinux_bpf_shapes_2 [simp]:
  "shape_of c_bpf_ksym = Object 8 216" "shape_of c_bpf_prog_aux = Object 8 656"
  "shape_of c_bpf_func_proto = Object 8 96" "shape_of c_pcpu_freelist_head = Object 8 16"
  "shape_of c_pcpu_freelist = Object 8 24" "shape_of c_bpf_lru_list = Object 8 128"
  "shape_of c_bpf_common_lru = Object 8 192" "shape_of c_bpf_lru = Object 8 256"
  by (simp_all add: layout_eval vmlinux_uapi_names vmlinux_net_names vmlinux_bpf_names
      c_bpf_ksym_def c_bpf_prog_aux_def c_bpf_func_proto_def c_pcpu_freelist_head_def
      c_pcpu_freelist_def c_bpf_lru_list_def c_bpf_common_lru_def c_bpf_lru_def)

lemma vmlinux_bpf_shapes_3 [simp]:
  "shape_of c_lock_class_key = Object 1 0" "shape_of c_bpf_htab = Object 8 704"
  "shape_of c_scatterlist = Object 8 32" "shape_of c_sk_msg_sg = Object 8 640"
  "shape_of c_sk_msg = Object 8 712" "shape_of c_sk_psock_progs = Object 8 32"
  "shape_of c_delayed_work = Object 8 88" "shape_of c_strp_stats = Object 8 40"
  by (simp_all add: layout_eval vmlinux_uapi_names vmlinux_net_names vmlinux_bpf_names
      c_lock_class_key_def c_bpf_htab_def c_scatterlist_def c_sk_msg_sg_def c_sk_msg_def
      c_sk_psock_progs_def c_delayed_work_def c_strp_stats_def)

lemma vmlinux_bpf_shapes_4 [simp]:
  "shape_of c_strp_callbacks = Object 8 48" "shape_of c_strparser = Object 8 248"
  "shape_of c_sk_psock_work_state = Object 4 8" "shape_of c_rcu_work = Object 8 56"
  "shape_of c_sk_psock = Object 8 640" "shape_of c_bpf_sock_ops_kern = Object 8 64"
  by (simp_all add: layout_eval vmlinux_uapi_names vmlinux_net_names vmlinux_bpf_names
      c_strp_callbacks_def c_strparser_def c_sk_psock_work_state_def c_rcu_work_def
      c_sk_psock_def c_bpf_sock_ops_kern_def)

section \<open>Well-formedness\<close>

text \<open>Every declaration is well formed, so its layout is sound.\<close>

lemma vmlinux_bpf_wf_1 [simp]:
  "wf_cty c_work_struct" "wf_cty c_optimistic_spin_queue" "wf_cty c_mutex" "wf_cty c_bpf_map"
  "wf_cty c_bpf_map_ops" "wf_cty c_sock_filter" "wf_cty c_bpf_prog" "wf_cty c_latch_tree_node"
  by (simp_all add: layout_eval vmlinux_uapi_names vmlinux_net_names vmlinux_bpf_names
      c_work_struct_def c_optimistic_spin_queue_def c_mutex_def c_bpf_map_def c_bpf_map_ops_def
      c_sock_filter_def c_bpf_prog_def c_latch_tree_node_def)

lemma vmlinux_bpf_wf_2 [simp]:
  "wf_cty c_bpf_ksym" "wf_cty c_bpf_prog_aux" "wf_cty c_bpf_func_proto"
  "wf_cty c_pcpu_freelist_head" "wf_cty c_pcpu_freelist" "wf_cty c_bpf_lru_list"
  "wf_cty c_bpf_common_lru" "wf_cty c_bpf_lru"
  by (simp_all add: layout_eval vmlinux_uapi_names vmlinux_net_names vmlinux_bpf_names
      c_bpf_ksym_def c_bpf_prog_aux_def c_bpf_func_proto_def c_pcpu_freelist_head_def
      c_pcpu_freelist_def c_bpf_lru_list_def c_bpf_common_lru_def c_bpf_lru_def)

lemma vmlinux_bpf_wf_3 [simp]:
  "wf_cty c_lock_class_key" "wf_cty c_bpf_htab" "wf_cty c_scatterlist" "wf_cty c_sk_msg_sg"
  "wf_cty c_sk_msg" "wf_cty c_sk_psock_progs" "wf_cty c_delayed_work" "wf_cty c_strp_stats"
  by (simp_all add: layout_eval vmlinux_uapi_names vmlinux_net_names vmlinux_bpf_names
      c_lock_class_key_def c_bpf_htab_def c_scatterlist_def c_sk_msg_sg_def c_sk_msg_def
      c_sk_psock_progs_def c_delayed_work_def c_strp_stats_def)

lemma vmlinux_bpf_wf_4 [simp]:
  "wf_cty c_strp_callbacks" "wf_cty c_strparser" "wf_cty c_sk_psock_work_state"
  "wf_cty c_rcu_work" "wf_cty c_sk_psock" "wf_cty c_bpf_sock_ops_kern"
  by (simp_all add: layout_eval vmlinux_uapi_names vmlinux_net_names vmlinux_bpf_names
      c_strp_callbacks_def c_strparser_def c_sk_psock_work_state_def c_rcu_work_def
      c_sk_psock_def c_bpf_sock_ops_kern_def)

end
