(* ===== verification/Abi_Check.thy ===== *)
theory Abi_Check
  imports Struct_Layout Vmlinux_Bpf Vmlinux_Enums Meridian_Parse Socket_Programs
begin

text \<open>
  The model against the declarations of \<^verbatim>\<open>bpf/include/vmlinux.h\<close>. The packet fields that the parsers
  read are at the computed offsets of the header structs, the context fields are aligned words
  inside their context, the constants are the enumerators of the kernel, and the kernel's socket
  structs extend one another at offset zero.
\<close>

section \<open>All declarations\<close>

text \<open>The structs of the program and the structs of the header that are modelled.\<close>

definition declared_structs :: "cty list" where
  "declared_structs =
     [c_flow_event, c_policy_key, c_policy_verdict, c_flow_key, c_deny_info, c_sock_key,
      c_ethhdr, c_iphdr, c_udphdr, c_tcphdr, c_vlan_hdr, c_geneve_opt, c___sk_buff,
      c_sk_msg_md, c_bpf_sock_ops, c_bpf_sock, c_bpf_sock_tuple, c_bpf_tunnel_key, c_bpf_insn,
      c_bpf_map_info, c_bpf_prog_info, c_rb_node, c_list_head, c_atomic_t, c_refcount_struct,
      c_sk_buff, c_hlist_node, c_possible_net_t, c_in6_addr, c_atomic64_t, c_hlist_nulls_node,
      c_sock_common, c_qspinlock, c_raw_spinlock, c_spinlock, c_wait_queue_head,
      c_socket_lock_t, c_sk_buff_head, c_rb_root, c_timer_list, c_page_frag, c_qrwlock,
      c_rwlock_t, c_kuid_t, c_sock_cgroup_data, c_callback_head, c_sock, c_inet_cork,
      c_flowi_tunnel, c_flowi_common, c_flowi4, c_flowi6, c_flowi, c_inet_cork_full,
      c_inet_sock, c_fastopen_queue, c_request_sock_queue, c_inet_connection_sock, c_tcp_rack,
      c_minmax_sample, c_minmax, c_tcp_options_received, c_timerqueue_node, c_hrtimer,
      c_tcp_sack_block, c_tcp_sock, c_work_struct, c_optimistic_spin_queue, c_mutex, c_bpf_map,
      c_bpf_map_ops, c_sock_filter, c_bpf_prog, c_latch_tree_node, c_bpf_ksym, c_bpf_prog_aux,
      c_bpf_func_proto, c_pcpu_freelist_head, c_pcpu_freelist, c_bpf_lru_list,
      c_bpf_common_lru, c_bpf_lru, c_lock_class_key, c_bpf_htab, c_scatterlist, c_sk_msg_sg,
      c_sk_msg, c_sk_psock_progs, c_delayed_work, c_strp_stats, c_strp_callbacks, c_strparser,
      c_sk_psock_work_state, c_rcu_work, c_sk_psock, c_bpf_sock_ops_kern]"

lemma declared_structs_wf: "list_all wf_cty declared_structs"
  by (simp add: declared_structs_def)

text \<open>
  The layout of every declared struct is sound: each member lies inside the object and behind
  the members before it; a member that is not a bit-field occupies its size at a multiple of its
  alignment, which divides the alignment of the struct (so the members of an aligned object are
  aligned); and the size of the struct is a multiple of its alignment (so the elements of an array
  are aligned).
\<close>

theorem declared_layouts_sound:
  assumes "CStruct ms \<in> set declared_structs" and "i < length ms"
    and "members (CStruct ms) ! i = (name, s, l)"
  shows "name = fst (ms ! i) \<and> s + l \<le> 8 * sizeof (CStruct ms) \<and>
    (\<forall>j < i. fst (snd (members (CStruct ms) ! j)) + snd (snd (members (CStruct ms) ! j)) \<le> s) \<and>
    (\<not> is_bits (snd (ms ! i)) \<longrightarrow>
       l = 8 * sizeof (snd (ms ! i)) \<and> 8 * alignof (snd (ms ! i)) dvd s \<and>
       alignof (snd (ms ! i)) dvd alignof (CStruct ms)) \<and>
    alignof (CStruct ms) dvd sizeof (CStruct ms)"
proof -
  have "wf_cty (CStruct ms)" using declared_structs_wf assms(1) unfolding list_all_iff by blast
  then show ?thesis by (rule layout_sound [OF _ assms(2,3)])
qed

text \<open>The latency field of an event, behind a hole-free prefix and aligned to eight bytes.\<close>

theorem declared_layouts_sound_witness:
  "members c_flow_event ! 12 = (''latency_ns'', 320, 64) \<and> 320 + 64 \<le> 8 * sizeof c_flow_event \<and>
   8 * alignof (CInt 8) dvd (320 :: nat)"
proof -
  have m: "members c_flow_event ! 12 = (''latency_ns'', 320, 64)"
    by (simp add: c_flow_event_def layout_eval)
  have "c_flow_event \<in> set declared_structs" by (simp add: declared_structs_def)
  from declared_layouts_sound [OF this [unfolded c_flow_event_def], of 12 "''latency_ns''" 320 64] m
  show ?thesis by (simp add: c_flow_event_def)
qed

section \<open>Packet headers\<close>

lemmas header_decls =
  c_ethhdr_def c_iphdr_def c_udphdr_def c_vlan_hdr_def vmlinux_uapi_names layout_eval offsetof_def expand_def

lemma low_nibble: "(b :: byte) AND 15 = take_bit 4 b"
  by (simp add: take_bit_eq_mask mask_eq_exp_minus_1)

text \<open>
  Every header field that the parsers read is read at the offset at which \<open>struct ethhdr\<close>,
  \<open>struct iphdr\<close>, \<open>struct udphdr\<close> and \<open>struct vlan_hdr\<close> declare it, the two four-bit fields of the
  first IPv4 byte included, and the header sizes that the parsers advance by are the sizes of the
  structs.
\<close>

theorem parser_offsets_match_headers:
  "sizeof_ethhdr = sizeof c_ethhdr \<and> sizeof_iphdr = sizeof c_iphdr \<and> sizeof_udphdr = sizeof c_udphdr \<and>
   VLAN_INNER_HDR_BYTES = sizeof c_vlan_hdr \<and>
   (\<exists>i. offsetof c_ethhdr ''h_proto'' = Some i \<and> eth_h_proto d p = rd16 d (p + i)) \<and>
   offsetof c_vlan_hdr ''h_vlan_encapsulated_proto'' = Some 2 \<and>
   map_of (members c_iphdr) ''ihl'' = Some (0, 4) \<and>
   ip_ihl d p = map_option (\<lambda>b. unat (take_bit 4 b)) (rd8 d p) \<and>
   map_of (members c_iphdr) ''version'' = Some (4, 4) \<and>
   ip_version d p = map_option (drop_bit 4) (rd8 d p) \<and>
   (\<exists>i. offsetof c_iphdr ''protocol'' = Some i \<and> ip_protocol d p = rd8 d (p + i)) \<and>
   (\<exists>i. offsetof c_iphdr ''saddr'' = Some i \<and> ip_saddr d p = rd32 d (p + i)) \<and>
   (\<exists>i. offsetof c_iphdr ''daddr'' = Some i \<and> ip_daddr d p = rd32 d (p + i)) \<and>
   (\<exists>i. offsetof c_udphdr ''dest'' = Some i \<and> udp_dest d p = rd16 d (p + i))"
  by (intro conjI; simp add: header_decls header_field_defs low_nibble)

section \<open>Program contexts\<close>

text \<open>A 32-bit field of a context: an aligned word inside the object.\<close>

definition word_field :: "cty \<Rightarrow> string \<Rightarrow> nat \<Rightarrow> bool" where
  "word_field t name off \<longleftrightarrow>
     map_of (named_members t) name = Some (8 * off, 32) \<and> off mod 4 = 0 \<and> off + 4 \<le> sizeof t"

text \<open>
  The context fields that the programs read are aligned 32-bit words of their context: the
  length, mark and packet bounds of \<open>struct __sk_buff\<close>, the operation, family, addresses and ports
  of \<open>struct bpf_sock_ops\<close>, and the family, address and port of \<open>struct sk_msg_md\<close>.
\<close>

theorem context_fields:
  "word_field c___sk_buff ''len'' 0 \<and> word_field c___sk_buff ''mark'' 8 \<and>
   word_field c___sk_buff ''data'' 76 \<and> word_field c___sk_buff ''data_end'' 80 \<and>
   word_field c_bpf_sock_ops ''op'' 0 \<and> word_field c_bpf_sock_ops ''family'' 20 \<and>
   word_field c_bpf_sock_ops ''remote_ip4'' 24 \<and> word_field c_bpf_sock_ops ''local_ip4'' 28 \<and>
   word_field c_bpf_sock_ops ''remote_port'' 64 \<and> word_field c_bpf_sock_ops ''local_port'' 68 \<and>
   word_field c_sk_msg_md ''family'' 16 \<and> word_field c_sk_msg_md ''remote_ip4'' 20 \<and>
   word_field c_sk_msg_md ''remote_port'' 60"
  by (intro conjI; simp add: word_field_def c___sk_buff_def c_bpf_sock_ops_def c_sk_msg_md_def
      vmlinux_uapi_names layout_eval expand_def)

section \<open>Constants\<close>

definition enumerator :: "(string \<times> int) list \<Rightarrow> string \<Rightarrow> int" where
  "enumerator e name = the (map_of e name)"

text \<open>
  The constants that the programs define for themselves, and those they take from the kernel,
  are the enumerators of the header.
\<close>

theorem constants_match_header:
  "uint IPPROTO_TCP = enumerator enum_ipproto ''IPPROTO_TCP'' \<and>
   uint IPPROTO_UDP = enumerator enum_ipproto ''IPPROTO_UDP'' \<and>
   uint BPF_F_NO_PREALLOC = enumerator enum_bpf_map_flags ''BPF_F_NO_PREALLOC'' \<and>
   uint BPF_F_RECOMPUTE_CSUM = enumerator enum_skb_store_flags ''BPF_F_RECOMPUTE_CSUM'' \<and>
   uint BPF_F_INGRESS = enumerator enum_redirect_flags ''BPF_F_INGRESS'' \<and>
   SK_DROP = enumerator enum_sk_action ''SK_DROP'' \<and> SK_PASS = enumerator enum_sk_action ''SK_PASS'' \<and>
   uint BPF_SOCK_OPS_ACTIVE_ESTABLISHED_CB =
     enumerator enum_sock_ops_op ''BPF_SOCK_OPS_ACTIVE_ESTABLISHED_CB'' \<and>
   uint BPF_SOCK_OPS_PASSIVE_ESTABLISHED_CB =
     enumerator enum_sock_ops_op ''BPF_SOCK_OPS_PASSIVE_ESTABLISHED_CB''"
  by (intro conjI; simp add: enumerator_def enum_ipproto_def enum_bpf_map_flags_def
      enum_skb_store_flags_def enum_redirect_flags_def enum_sk_action_def enum_sock_ops_op_def)

text \<open>
  The tables of the system call are dense: map types, program types, attach types and helper
  numbers are numbered from zero without gaps in declaration order, and the TCP states that BPF
  programs see are the kernel's own, under a prefix.
\<close>

theorem uapi_enums_dense:
  "map snd enum_bpf_map_type = map int [0..<30] \<and> map snd enum_bpf_prog_type = map int [0..<32] \<and>
   map snd enum_bpf_attach_type = map int [0..<43] \<and> map snd enum_bpf_func_id = map int [0..<177] \<and>
   map snd enum_sock_ops_op = map int [0..<16] \<and>
   map (\<lambda>(name, v). (''BPF_'' @ name, v)) enum_tcp_states = enum_bpf_tcp_states"
  by (intro conjI; simp add: enum_bpf_map_type_def enum_bpf_prog_type_def enum_bpf_attach_type_def
      enum_bpf_func_id_def enum_sock_ops_op_def enum_tcp_states_def enum_bpf_tcp_states_def upt_rec)

section \<open>Kernel objects\<close>

text \<open>A type that starts with an object of another type, so that a pointer to one is a pointer to both.\<close>

fun starts_with :: "cty \<Rightarrow> cty \<Rightarrow> bool" where
  "starts_with (CStruct ((name, t) # ms)) u \<longleftrightarrow> t = u"
| "starts_with t u \<longleftrightarrow> False"

text \<open>
  The socket structs extend one another: a TCP socket starts with a connection socket, which
  starts with an internet socket, which starts with a socket, which starts with the common part;
  each part is at offset zero and no longer than the whole. A hash map starts with its
  \<open>struct bpf_map\<close>.
\<close>

theorem kernel_objects_extend:
  "starts_with c_tcp_sock c_inet_connection_sock \<and> starts_with c_inet_connection_sock c_inet_sock \<and>
   starts_with c_inet_sock c_sock \<and> starts_with c_sock c_sock_common \<and> starts_with c_bpf_htab c_bpf_map \<and>
   sizeof c_sock_common \<le> sizeof c_sock \<and> sizeof c_sock \<le> sizeof c_inet_sock \<and>
   sizeof c_inet_sock \<le> sizeof c_inet_connection_sock \<and>
   sizeof c_inet_connection_sock \<le> sizeof c_tcp_sock \<and> sizeof c_bpf_map \<le> sizeof c_bpf_htab"
proof (intro conjI)
  show "starts_with c_tcp_sock c_inet_connection_sock" unfolding c_tcp_sock_def by simp
  show "starts_with c_inet_connection_sock c_inet_sock" unfolding c_inet_connection_sock_def by simp
  show "starts_with c_inet_sock c_sock" unfolding c_inet_sock_def by simp
  show "starts_with c_sock c_sock_common" unfolding c_sock_def by simp
  show "starts_with c_bpf_htab c_bpf_map" unfolding c_bpf_htab_def by simp
qed (simp_all add: sizeof_def)

end
