(* ===== verification/Map_Schema.thy ===== *)
theory Map_Schema
  imports Struct_Layout Vmlinux_Enums
begin

text \<open>
  The map declarations of \<^verbatim>\<open>bpf/include/meridian_maps.h\<close> and \<^verbatim>\<open>bpf/tc_ingress.c\<close> as data: type,
  capacity, key and value types, flags and pinning. The properties are the load-time rules that
  the comments of the source rely on, and that the declared key and value types are the structs
  whose byte images the model uses.
\<close>

section \<open>Declarations\<close>

record map_decl =
  mp_name :: string
  mp_type :: string
  mp_max_entries :: nat
  mp_key :: "cty option"
  mp_value :: "cty option"
  mp_flags :: u32
  mp_pinned :: bool

definition decl_flow_events :: map_decl where
  "decl_flow_events =
     \<lparr>mp_name = ''flow_events'', mp_type = ''BPF_MAP_TYPE_RINGBUF'', mp_max_entries = MERIDIAN_RINGBUF_BYTES,
      mp_key = None, mp_value = Some c_flow_event, mp_flags = 0, mp_pinned = True\<rparr>"

definition decl_metrics_map :: map_decl where
  "decl_metrics_map =
     \<lparr>mp_name = ''metrics_map'', mp_type = ''BPF_MAP_TYPE_PERCPU_ARRAY'', mp_max_entries = METRIC_ID_MAX,
      mp_key = Some (CInt 4), mp_value = Some (CInt 8), mp_flags = 0, mp_pinned = True\<rparr>"

definition decl_schema_sentinel_map :: map_decl where
  "decl_schema_sentinel_map =
     \<lparr>mp_name = ''schema_sentinel_map'', mp_type = ''BPF_MAP_TYPE_ARRAY'', mp_max_entries = 1,
      mp_key = Some (CInt 4), mp_value = Some (CInt 4), mp_flags = 0, mp_pinned = True\<rparr>"

definition decl_identity_map :: map_decl where
  "decl_identity_map =
     \<lparr>mp_name = ''identity_map'', mp_type = ''BPF_MAP_TYPE_HASH'',
      mp_max_entries = MERIDIAN_IDENTITY_MAP_ENTRIES, mp_key = Some (CInt 4), mp_value = Some (CInt 4),
      mp_flags = BPF_F_NO_PREALLOC, mp_pinned = True\<rparr>"

definition decl_policy_map :: map_decl where
  "decl_policy_map =
     \<lparr>mp_name = ''policy_map'', mp_type = ''BPF_MAP_TYPE_HASH'', mp_max_entries = MERIDIAN_POLICY_MAP_ENTRIES,
      mp_key = Some c_policy_key, mp_value = Some c_policy_verdict, mp_flags = BPF_F_NO_PREALLOC,
      mp_pinned = True\<rparr>"

definition decl_runtime_config_map :: map_decl where
  "decl_runtime_config_map =
     \<lparr>mp_name = ''runtime_config_map'', mp_type = ''BPF_MAP_TYPE_ARRAY'', mp_max_entries = 1,
      mp_key = Some (CInt 4), mp_value = Some (CInt 4), mp_flags = 0, mp_pinned = True\<rparr>"

definition decl_denied_flows_map :: map_decl where
  "decl_denied_flows_map =
     \<lparr>mp_name = ''denied_flows_map'', mp_type = ''BPF_MAP_TYPE_LRU_HASH'',
      mp_max_entries = MERIDIAN_DENIED_FLOWS_ENTRIES, mp_key = Some c_flow_key,
      mp_value = Some c_deny_info, mp_flags = 0, mp_pinned = True\<rparr>"

definition decl_sockhash :: map_decl where
  "decl_sockhash =
     \<lparr>mp_name = ''sockhash'', mp_type = ''BPF_MAP_TYPE_SOCKHASH'', mp_max_entries = MERIDIAN_SOCKHASH_ENTRIES,
      mp_key = Some c_sock_key, mp_value = Some (CInt 8), mp_flags = 0, mp_pinned = True\<rparr>"

definition decl_udp_seen_flows_map :: map_decl where
  "decl_udp_seen_flows_map =
     \<lparr>mp_name = ''udp_seen_flows_map'', mp_type = ''BPF_MAP_TYPE_LRU_HASH'',
      mp_max_entries = MERIDIAN_UDP_SEEN_FLOWS_ENTRIES, mp_key = Some c_flow_key,
      mp_value = Some (CInt 1), mp_flags = 0, mp_pinned = False\<rparr>"

definition shared_maps :: "map_decl list" where
  "shared_maps =
     [decl_flow_events, decl_metrics_map, decl_schema_sentinel_map, decl_identity_map, decl_policy_map,
      decl_runtime_config_map, decl_denied_flows_map, decl_sockhash]"

section \<open>Rules\<close>

text \<open>
  What the kernel checks when a map is created: the type exists, the map has room, a ring buffer
  is a power of two of whole pages, an array is indexed by a 32-bit key, an LRU hash is
  preallocated, and a SOCKHASH stores 4 or 8 bytes per socket.
\<close>

definition load_rules :: "map_decl \<Rightarrow> bool" where
  "load_rules m \<longleftrightarrow>
     mp_type m \<in> set (map fst enum_bpf_map_type) \<and> 0 < mp_max_entries m \<and>
     (mp_type m = ''BPF_MAP_TYPE_RINGBUF'' \<longrightarrow>
        mp_key m = None \<and> mp_max_entries m AND (mp_max_entries m - 1) = 0 \<and> 4096 dvd mp_max_entries m) \<and>
     (mp_type m \<in> {''BPF_MAP_TYPE_ARRAY'', ''BPF_MAP_TYPE_PERCPU_ARRAY''} \<longrightarrow>
        map_option sizeof (mp_key m) = Some 4) \<and>
     (mp_type m = ''BPF_MAP_TYPE_LRU_HASH'' \<longrightarrow> mp_flags m AND BPF_F_NO_PREALLOC = 0) \<and>
     (mp_type m = ''BPF_MAP_TYPE_SOCKHASH'' \<longrightarrow> map_option sizeof (mp_value m) \<in> {Some 4, Some 8}) \<and>
     (mp_type m \<noteq> ''BPF_MAP_TYPE_RINGBUF'' \<longrightarrow> mp_key m \<noteq> None \<and> mp_value m \<noteq> None)"

lemmas decl_defs =
  decl_flow_events_def decl_metrics_map_def decl_schema_sentinel_map_def decl_identity_map_def
  decl_policy_map_def decl_runtime_config_map_def decl_denied_flows_map_def decl_sockhash_def
  decl_udp_seen_flows_map_def

lemma ring_power_of_two: "(4194304 :: nat) AND 4194303 = 0"
  by (simp add: and_nat_def)

text \<open>
  Every declared map satisfies the rules that the kernel enforces when it is created; the
  shared maps have different names and are all pinned, and only the map that the ingress program
  keeps for itself is not.
\<close>

theorem map_declarations_load:
  "list_all load_rules (decl_udp_seen_flows_map # shared_maps) \<and> list_all mp_pinned shared_maps \<and>
   \<not> mp_pinned decl_udp_seen_flows_map \<and> distinct (map mp_name (decl_udp_seen_flows_map # shared_maps))"
  using ring_power_of_two
  by (simp add: shared_maps_def decl_defs load_rules_def enum_bpf_map_type_def sizeof_def)

text \<open>
  The declared keys and values are as long as the byte images that the model stores under
  them.
\<close>

theorem map_sizes_match_images:
  "map_option sizeof (mp_key decl_policy_map) = Some (length (policy_key_bytes pk)) \<and>
   map_option sizeof (mp_value decl_policy_map) = Some (length (policy_verdict_bytes pv)) \<and>
   map_option sizeof (mp_key decl_denied_flows_map) = Some (length (flow_key_bytes fk)) \<and>
   map_option sizeof (mp_value decl_denied_flows_map) = Some (length (deny_info_bytes di)) \<and>
   map_option sizeof (mp_key decl_udp_seen_flows_map) = Some (length (flow_key_bytes fk)) \<and>
   map_option sizeof (mp_key decl_sockhash) = Some (length (sock_key_bytes sk)) \<and>
   map_option sizeof (mp_value decl_flow_events) = Some (length (flow_event_bytes ev))"
  by (simp add: decl_defs c_struct_defs layout_eval struct_bytes_defs)

end
