(* ===== verification/Go_Prelude.thy ===== *)
theory Go_Prelude
  imports Meridian_Prelude "HOL-Library.AList" "HOL-Library.Product_Lexorder" "HOL-Library.Multiset"
begin

text \<open>
  What the user-space components share: results that are an error or a value, loops that stop at
  the first error, Go maps as association lists whose iteration order is not fixed, and the parts
  of the Go standard library the components call (decimal formatting, \<open>strings\<close>, \<open>netip\<close>).
\<close>

named_theorems res_simps \<open>results and loops with early return\<close>

section \<open>Results\<close>

definition and_then :: "'e + 'a \<Rightarrow> ('a \<Rightarrow> 'e + 'b) \<Rightarrow> 'e + 'b" where
  "and_then m f = (case m of Inl e \<Rightarrow> Inl e | Inr x \<Rightarrow> f x)"

definition is_ok :: "'e + 'a \<Rightarrow> bool" where
  "is_ok m = (case m of Inl _ \<Rightarrow> False | Inr _ \<Rightarrow> True)"

lemma and_then_simps [simp, res_simps]:
  "and_then (Inl e) f = Inl e"
  "and_then (Inr x) f = f x"
  by (simp_all add: and_then_def)

lemma is_ok_simps [simp, res_simps]: "\<not> is_ok (Inl e)" "is_ok (Inr x)"
  by (simp_all add: is_ok_def)

lemma is_okE [elim]:
  assumes "is_ok m"
  obtains x where "m = Inr x"
  using assms by (cases m) auto

lemma is_ok_iff: "is_ok m \<longleftrightarrow> (\<exists>x. m = Inr x)"
  by (cases m) auto

lemma and_then_Inr_iff [res_simps]: "and_then m f = Inr y \<longleftrightarrow> (\<exists>x. m = Inr x \<and> f x = Inr y)"
  by (cases m) auto

lemma and_then_InrE:
  assumes "and_then m f = Inr y"
  obtains x where "m = Inr x" "f x = Inr y"
  using assms by (cases m) auto

text \<open>A \<open>for range\<close> loop whose body may return an error.\<close>

primrec for_each :: "('a \<Rightarrow> 's \<Rightarrow> 'e + 's) \<Rightarrow> 'a list \<Rightarrow> 's \<Rightarrow> 'e + 's" where
  "for_each f [] s = Inr s"
| "for_each f (x # xs) s = and_then (f x s) (for_each f xs)"

lemma for_each_append: "for_each f (xs @ ys) s = and_then (for_each f xs s) (for_each f ys)"
proof (induction xs arbitrary: s)
  case (Cons x xs) then show ?case by (cases "f x s") simp_all
qed simp

text \<open>
  The loop rule: a relation between the elements already visited and the state, kept by every
  successful iteration, holds of the whole list when the loop ends without an error.
\<close>

lemma for_each_invariant:
  assumes "for_each f xs s = Inr t" and "I [] s"
    and "\<And>ys x zs u v. xs = ys @ x # zs \<Longrightarrow> I ys u \<Longrightarrow> f x u = Inr v \<Longrightarrow> I (ys @ [x]) v"
  shows "I xs t"
proof -
  have "for_each f zs u = Inr t \<Longrightarrow> xs = ys @ zs \<Longrightarrow> I ys u \<Longrightarrow> I xs t" for ys zs u
  proof (induction zs arbitrary: ys u)
    case (Cons x zs)
    then obtain v where v: "f x u = Inr v" "for_each f zs v = Inr t" by (auto simp: and_then_Inr_iff)
    show ?case by (rule Cons.IH [of _ "ys @ [x]"]) (use Cons.prems v assms(3) in auto)
  qed simp
  from this [of xs s "[]"] assms(1,2) show ?thesis by simp
qed

lemma for_each_progress:
  assumes "I [] s"
    and "\<And>ys x zs u. xs = ys @ x # zs \<Longrightarrow> I ys u \<Longrightarrow> \<exists>v. f x u = Inr v \<and> I (ys @ [x]) v"
  shows "\<exists>t. for_each f xs s = Inr t \<and> I xs t"
proof -
  have "xs = ys @ zs \<Longrightarrow> I ys u \<Longrightarrow> \<exists>t. for_each f zs u = Inr t \<and> I xs t" for ys zs u
  proof (induction zs arbitrary: ys u)
    case (Cons x zs)
    then obtain v where "f x u = Inr v" "I (ys @ [x]) v" using assms(2) by blast
    then show ?case using Cons.IH [of "ys @ [x]" v] Cons.prems(1) by auto
  qed simp
  from this [of "[]" xs s] assms(1) show ?thesis by simp
qed

text \<open>A loop that only checks its elements succeeds exactly when every check does.\<close>

lemma for_each_check:
  assumes "\<And>x u. f x u = (if P x then Inr u else Inl (err x))"
  shows "for_each f xs s = Inr t \<longleftrightarrow> (\<forall>x\<in>set xs. P x) \<and> t = s"
  by (induction xs) (auto simp: assms)

text \<open>
  A loop over a mutable state whose body may return an error: the error ends the loop, and the
  state keeps what was done up to there.
\<close>

primrec run_each :: "('a \<Rightarrow> 's \<Rightarrow> 'e option \<times> 's) \<Rightarrow> 'a list \<Rightarrow> 's \<Rightarrow> 'e option \<times> 's" where
  "run_each f [] s = (None, s)"
| "run_each f (x # xs) s = (case f x s of (None, t) \<Rightarrow> run_each f xs t | (Some e, t) \<Rightarrow> (Some e, t))"

definition and_run ::
  "('e option \<times> 's) \<Rightarrow> ('s \<Rightarrow> 'e option \<times> 's) \<Rightarrow> 'e option \<times> 's" where
  "and_run r f = (case r of (None, t) \<Rightarrow> f t | (Some e, t) \<Rightarrow> (Some e, t))"

lemma and_run_simps [simp]:
  "and_run (None, t) f = f t"
  "and_run (Some e, t) f = (Some e, t)"
  by (simp_all add: and_run_def)

lemma and_run_None_iff: "and_run r f = (None, u) \<longleftrightarrow> (\<exists>t. r = (None, t) \<and> f t = (None, u))"
  by (cases r; cases "fst r") auto

lemma run_each_Cons: "run_each f (x # xs) s = and_run (f x s) (run_each f xs)"
  by (simp add: and_run_def)

lemma run_each_append: "run_each f (xs @ ys) s = and_run (run_each f xs s) (run_each f ys)"
proof (induction xs arbitrary: s)
  case (Cons x xs)
  then show ?case by (cases "f x s"; cases "fst (f x s)") auto
qed simp

text \<open>An invariant of the body is an invariant of the loop, on every path.\<close>

lemma run_each_keeps:
  assumes "I s" and "\<And>x u. x \<in> set xs \<Longrightarrow> I u \<Longrightarrow> I (snd (f x u))"
  shows "I (snd (run_each f xs s))"
  using assms
proof (induction xs arbitrary: s)
  case (Cons x xs)
  then show ?case by (cases "f x s"; cases "fst (f x s)") force+
qed simp

lemma run_each_all:
  assumes "\<And>x u. x \<in> set xs \<Longrightarrow> f x u = (None, g x u)"
  shows "run_each f xs s = (None, fold g xs s)"
  using assms by (induction xs arbitrary: s) simp_all

lemma run_each_none:
  assumes "\<And>x u. x \<in> set xs \<Longrightarrow> fst (f x u) = None"
  obtains t where "run_each f xs s = (None, t)"
proof -
  have "run_each f xs s = (None, fold (\<lambda>x u. snd (f x u)) xs s)"
    by (rule run_each_all) (use assms in \<open>metis prod.collapse\<close>)
  then show thesis by (rule that)
qed

section \<open>Go maps\<close>

text \<open>
  A Go map is an association list with one entry per key. Ranging over it visits the entries in an
  order the language leaves open; a function that ranges over a map takes that order as an
  argument.
\<close>

type_synonym ('k, 'v) gomap = "('k \<times> 'v) list"

definition wf_map :: "('k, 'v) gomap \<Rightarrow> bool" where
  "wf_map m \<longleftrightarrow> distinct (map fst m)"

definition map_keys :: "('k, 'v) gomap \<Rightarrow> 'k list" where
  "map_keys m = map fst m"

definition permutes_lists :: "('a list \<Rightarrow> 'a list) \<Rightarrow> bool" where
  "permutes_lists order \<longleftrightarrow> (\<forall>xs. mset (order xs) = mset xs)"

lemma wf_map_Nil [simp]: "wf_map []"
  by (simp add: wf_map_def)

lemma wf_map_update [simp]: "wf_map m \<Longrightarrow> wf_map (AList.update k v m)"
  by (simp add: wf_map_def distinct_update)

lemma wf_map_delete [simp]: "wf_map m \<Longrightarrow> wf_map (AList.delete k m)"
  by (simp add: wf_map_def distinct_delete)

lemma map_of_update [simp]: "map_of (AList.update k v m) = (map_of m)(k \<mapsto> v)"
  by (rule update_conv')

lemma map_of_delete [simp]: "map_of (AList.delete k m) = (map_of m)(k := None)"
  by (rule delete_conv')

lemma wf_map_entry: "wf_map m \<Longrightarrow> (k, v) \<in> set m \<longleftrightarrow> map_of m k = Some v"
  by (simp add: wf_map_def)

lemma permutes_lists_id [simp]: "permutes_lists (\<lambda>xs. xs)" "permutes_lists rev"
  by (simp_all add: permutes_lists_def)

lemma permutes_listsD:
  assumes "permutes_lists order"
  shows "mset (order xs) = mset xs" "set (order xs) = set xs" "length (order xs) = length xs"
    "distinct (order xs) = distinct xs"
proof -
  show m: "mset (order xs) = mset xs" using assms by (simp add: permutes_lists_def)
  show "set (order xs) = set xs" using m by (metis set_mset_mset)
  show "length (order xs) = length xs" using m by (metis size_mset)
  show "distinct (order xs) = distinct xs" using m by (metis mset_eq_imp_distinct_iff)
qed

section \<open>Tables\<close>

text \<open>A map filled from a list, and a map with a list of writes applied in order.\<close>

definition table :: "('a \<Rightarrow> 'k) \<Rightarrow> ('a \<Rightarrow> 'v) \<Rightarrow> 'a list \<Rightarrow> 'k \<rightharpoonup> 'v" where
  "table f g xs = map_of (map (\<lambda>x. (f x, g x)) xs)"

definition writes :: "('a \<Rightarrow> 'k) \<Rightarrow> ('a \<Rightarrow> 'v) \<Rightarrow> 'a list \<Rightarrow> ('k \<rightharpoonup> 'v) \<Rightarrow> 'k \<rightharpoonup> 'v" where
  "writes f g xs m = foldl (\<lambda>m x. m(f x \<mapsto> g x)) m xs"

lemma writes_simps [simp]:
  "writes f g [] m = m"
  "writes f g (x # xs) m = writes f g xs (m(f x \<mapsto> g x))"
  by (simp_all add: writes_def)

lemma table_Nil [simp]: "table f g [] = Map.empty"
  by (simp add: table_def)

lemma table_SomeD:
  assumes "table f g xs k = Some v"
  obtains x where "x \<in> set xs" "f x = k" "g x = v"
  using assms unfolding table_def by (auto dest!: map_of_SomeD)

lemma table_None_iff: "table f g xs k = None \<longleftrightarrow> k \<notin> f ` set xs"
  unfolding table_def map_of_eq_None_iff by (simp add: image_image)

lemma table_Some:
  assumes "distinct (map f xs)" and "x \<in> set xs"
  shows "table f g xs (f x) = Some (g x)"
proof -
  have "distinct (map fst (map (\<lambda>x. (f x, g x)) xs))" using assms(1) by (simp add: comp_def)
  then show ?thesis using assms(2) unfolding table_def by (auto simp: map_of_eq_Some_iff)
qed

lemma writes_other: "k \<notin> f ` set xs \<Longrightarrow> writes f g xs m k = m k"
  by (induction xs arbitrary: m) simp_all

lemma writes_Some:
  assumes "distinct (map f xs)" and "x \<in> set xs"
  shows "writes f g xs m (f x) = Some (g x)"
  using assms
proof (induction xs arbitrary: m)
  case (Cons y xs)
  show ?case
  proof (cases "x = y")
    case True
    then show ?thesis using Cons.prems writes_other [of "f y" f xs g "m(f y \<mapsto> g y)"] by auto
  next
    case False
    then show ?thesis using Cons by simp
  qed
qed simp

lemma writes_cases: "writes f g xs m k = m k \<or> (\<exists>x\<in>set xs. f x = k \<and> writes f g xs m k = Some (g x))"
proof (induction xs arbitrary: m)
  case (Cons x xs)
  define m' where "m' = m(f x \<mapsto> g x)"
  have "m' k = m k \<or> f x = k \<and> m' k = Some (g x)" by (auto simp: m'_def)
  then show ?case using Cons.IH [of m'] by (simp flip: m'_def) metis
qed simp

lemma writes_empty:
  assumes "distinct (map f xs)"
  shows "writes f g xs Map.empty = table f g xs"
proof (rule ext)
  fix k
  show "writes f g xs Map.empty k = table f g xs k"
  proof (cases "k \<in> f ` set xs")
    case True
    then show ?thesis using writes_Some [OF assms] table_Some [OF assms] by (metis imageE)
  next
    case False
    then show ?thesis using table_None_iff by (metis writes_other)
  qed
qed

text \<open>
  Writing what is new or changed and removing what is gone turns the table of one list into the
  table of another.
\<close>

lemma table_update:
  assumes "distinct (map f old)" and "distinct (map f new)" and "distinct (map f ups)"
    and "set ups \<subseteq> set new"
    and "\<And>x. x \<in> set new \<Longrightarrow> x \<notin> set ups \<Longrightarrow> \<exists>y\<in>set old. f y = f x \<and> g y = g x"
    and "\<And>k. k \<in> D \<longleftrightarrow> k \<in> f ` set old \<and> k \<notin> f ` set new"
  shows "(\<lambda>k. if k \<in> D then None else writes f g ups (table f g old) k) = table f g new"
proof (rule ext)
  fix k
  show "(if k \<in> D then None else writes f g ups (table f g old) k) = table f g new k"
  proof (cases "k \<in> f ` set new")
    case True
    then obtain x where x: "x \<in> set new" "k = f x" by blast
    have "writes f g ups (table f g old) k = Some (g x)"
    proof (cases "x \<in> set ups")
      case True
      then show ?thesis using writes_Some [OF assms(3)] x(2) by metis
    next
      case False
      then obtain y where y: "y \<in> set old" "f y = f x" "g y = g x" using assms(5) x(1) by blast
      have "k \<notin> f ` set ups"
        using False assms(2,4) x by (auto simp: distinct_map dest: inj_onD)
      then show ?thesis using writes_other table_Some [OF assms(1) y(1)] y x(2) by metis
    qed
    moreover have "k \<notin> D" using True assms(6) by blast
    ultimately show ?thesis using table_Some [OF assms(2) x(1), of g] x(2) by simp
  next
    case False
    then have "k \<notin> f ` set ups" using assms(4) by blast
    then have "writes f g ups (table f g old) k = table f g old k" by (rule writes_other)
    then show ?thesis using False assms(6) table_None_iff by metis
  qed
qed

section \<open>Decimal numbers\<close>

text \<open>\<open>strconv.FormatUint\<close> and \<open>strconv.Itoa\<close> in base ten, of a number that is not negative.\<close>

definition digit_char :: "nat \<Rightarrow> char" where
  "digit_char d = char_of (48 + d)"

fun itoa :: "nat \<Rightarrow> string" where
  "itoa n = (if n < 10 then [digit_char n] else itoa (n div 10) @ [digit_char (n mod 10)])"

declare itoa.simps [simp del]

definition char_digit :: "char \<Rightarrow> nat" where
  "char_digit c = of_char c - 48"

definition is_digit :: "char \<Rightarrow> bool" where
  "is_digit c \<longleftrightarrow> 48 \<le> (of_char c :: nat) \<and> (of_char c :: nat) \<le> 57"

definition digits_value :: "string \<Rightarrow> nat" where
  "digits_value = foldl (\<lambda>v c. v * 10 + char_digit c) 0"

lemma of_digit_char: "d < 10 \<Longrightarrow> (of_char (digit_char d) :: nat) = 48 + d"
  by (simp add: digit_char_def)

lemma digit_char_simps [simp]:
  "d < 10 \<Longrightarrow> char_digit (digit_char d) = d"
  "d < 10 \<Longrightarrow> is_digit (digit_char d)"
  by (simp_all add: char_digit_def is_digit_def of_digit_char)

lemma itoa_digits: "\<forall>c\<in>set (itoa n). is_digit c"
proof (induction n rule: itoa.induct)
  case (1 n)
  then show ?case by (subst itoa.simps) (simp add: digit_char_def [symmetric])
qed

lemma itoa_nonempty [simp]: "itoa n \<noteq> []"
  by (subst itoa.simps) simp

lemma digits_value_itoa [simp]: "digits_value (itoa n) = n"
proof (induction n rule: itoa.induct)
  case (1 n)
  then show ?case by (subst itoa.simps) (simp add: digits_value_def)
qed

lemma itoa_inject [simp]: "itoa m = itoa n \<longleftrightarrow> m = n"
  by (metis digits_value_itoa)

end
