(* ===== verification/Wire_Types.thy ===== *)
theory Wire_Types
  imports Go_Prelude
begin

text \<open>
  The contracts of \<^verbatim>\<open>pkg/wire\<close>: identities, declarative policy, compiled rules and the staged
  update of the kernel maps. Strings are the byte sequences Go compares. Compiled keys are ordered
  the way the compiler sorts them.
\<close>

unbundle bit_operations_syntax

section \<open>Identities and rules\<close>

definition IdentityUnknown :: u32 where [simp]: "IdentityUnknown = 0"

record Identity =
  ID :: u32
  PodIPv4 :: string
  SpiffeID :: string
  Namespace :: string
  Name :: string

definition DirectionIngress :: u8 where [simp]: "DirectionIngress = 0"
definition DirectionEgress :: u8 where [simp]: "DirectionEgress = 1"

record PolicyRuleKey =
  SrcIdentity :: u32
  DstIdentity :: u32
  DstPort :: u16
  Protocol :: u8
  Direction :: u8

definition PolicyActionAllow :: u8 where [simp]: "PolicyActionAllow = 0"
definition PolicyActionDeny :: u8 where [simp]: "PolicyActionDeny = 1"
definition PolicyActionRedirectProxy :: u8 where [simp]: "PolicyActionRedirectProxy = 2"

text \<open>The flags are declared as \<open>1 << iota\<close>: masks, not bit positions.\<close>

definition PolicyFlagSockmapEligible :: u8 where "PolicyFlagSockmapEligible = push_bit 0 1"
definition PolicyFlagL7Required :: u8 where "PolicyFlagL7Required = push_bit 1 1"
definition PolicyFlagMTLSRequired :: u8 where "PolicyFlagMTLSRequired = push_bit 2 1"
definition PolicyFlagAudit :: u8 where "PolicyFlagAudit = push_bit 3 1"

lemma PolicyFlag_values [simp]:
  "PolicyFlagSockmapEligible = 1" "PolicyFlagL7Required = 2"
  "PolicyFlagMTLSRequired = 4" "PolicyFlagAudit = 8"
  by (simp_all add: PolicyFlagSockmapEligible_def PolicyFlagL7Required_def
      PolicyFlagMTLSRequired_def PolicyFlagAudit_def push_bit_eq_mult)

record PolicyVerdict =
  Action :: u8
  Flags :: u8

record PolicyRule =
  Key :: PolicyRuleKey
  Verdict :: PolicyVerdict

lemma PolicyRule_collapse [simp]: "\<lparr>Key = Key r, Verdict = Verdict r\<rparr> = (r :: PolicyRule)"
  by (cases r) simp

section \<open>Declarative policy\<close>

record PolicyRuleSelector =
  sel_Name :: string
  Sources :: "string list"
  Destinations :: "string list"
  Ports :: "u16 list"
  Protocols :: "u8 list"
  Directions :: "u8 list"
  sel_Verdict :: PolicyVerdict

record Policy =
  pol_Name :: string
  Rules :: "PolicyRuleSelector list"

record PolicySpec =
  Policies :: "Policy list"

section \<open>Plans\<close>

record CommitPlan =
  IdentityUpserts :: "Identity list"
  IdentityDeletes :: "u32 list"
  PolicyUpserts :: "PolicyRule list"
  PolicyDeletes :: "PolicyRuleKey list"

section \<open>The order of keys\<close>

text \<open>Keys are ordered by source, destination, port, protocol and direction, in this order.\<close>

definition key_tuple :: "'a PolicyRuleKey_scheme \<Rightarrow> u32 \<times> u32 \<times> u16 \<times> u8 \<times> u8 \<times> 'a" where
  "key_tuple k = (SrcIdentity k, DstIdentity k, DstPort k, Protocol k, Direction k,
     PolicyRuleKey.more k)"

lemma key_tuple_inject [simp]: "key_tuple a = key_tuple b \<longleftrightarrow> a = b"
  by (auto simp: key_tuple_def)

instantiation PolicyRuleKey_ext :: (linorder) linorder
begin

definition less_eq_PolicyRuleKey_ext ::
  "'a PolicyRuleKey_scheme \<Rightarrow> 'a PolicyRuleKey_scheme \<Rightarrow> bool" where
  "less_eq_PolicyRuleKey_ext a b \<longleftrightarrow> key_tuple a \<le> key_tuple b"

definition less_PolicyRuleKey_ext ::
  "'a PolicyRuleKey_scheme \<Rightarrow> 'a PolicyRuleKey_scheme \<Rightarrow> bool" where
  "less_PolicyRuleKey_ext a b \<longleftrightarrow> key_tuple a < key_tuple b"

instance
proof
  fix a b c :: "'a PolicyRuleKey_scheme"
  show "a < b \<longleftrightarrow> a \<le> b \<and> \<not> b \<le> a"
    unfolding less_eq_PolicyRuleKey_ext_def less_PolicyRuleKey_ext_def by (rule less_le_not_le)
  show "a \<le> a" by (simp add: less_eq_PolicyRuleKey_ext_def)
  show "a \<le> b \<Longrightarrow> b \<le> c \<Longrightarrow> a \<le> c" unfolding less_eq_PolicyRuleKey_ext_def by (rule order_trans)
  show "a \<le> b \<Longrightarrow> b \<le> a \<Longrightarrow> a = b"
    unfolding less_eq_PolicyRuleKey_ext_def by (metis antisym key_tuple_inject)
  show "a \<le> b \<or> b \<le> a" unfolding less_eq_PolicyRuleKey_ext_def by (rule linear)
qed

end

lemma key_less_iff:
  fixes a b :: PolicyRuleKey
  shows "a < b \<longleftrightarrow> SrcIdentity a < SrcIdentity b \<or> SrcIdentity a = SrcIdentity b \<and>
    (DstIdentity a < DstIdentity b \<or> DstIdentity a = DstIdentity b \<and>
    (DstPort a < DstPort b \<or> DstPort a = DstPort b \<and>
    (Protocol a < Protocol b \<or> Protocol a = Protocol b \<and> Direction a < Direction b)))"
  by (auto simp: less_PolicyRuleKey_ext_def key_tuple_def less_prod_def)

section \<open>Blank names\<close>

text \<open>
  \<open>strings.TrimSpace (s) == ""\<close>: the string consists of white space runes, in UTF-8.
\<close>

definition ascii_space :: "nat \<Rightarrow> bool" where
  "ascii_space b \<longleftrightarrow> 9 \<le> b \<and> b \<le> 13 \<or> b = 32"

definition space2 :: "nat \<Rightarrow> nat \<Rightarrow> bool" where
  "space2 a b \<longleftrightarrow> a = 0xc2 \<and> (b = 0x85 \<or> b = 0xa0)"

definition space3 :: "nat \<Rightarrow> nat \<Rightarrow> nat \<Rightarrow> bool" where
  "space3 a b c \<longleftrightarrow>
     a = 0xe1 \<and> b = 0x9a \<and> c = 0x80 \<or>
     a = 0xe2 \<and> b = 0x80 \<and> (0x80 \<le> c \<and> c \<le> 0x8a \<or> c = 0xa8 \<or> c = 0xa9 \<or> c = 0xaf) \<or>
     a = 0xe2 \<and> b = 0x81 \<and> c = 0x9f \<or>
     a = 0xe3 \<and> b = 0x80 \<and> c = 0x80"

fun blank_bytes :: "nat list \<Rightarrow> bool" where
  "blank_bytes [] = True"
| "blank_bytes (a # bs) =
     (if ascii_space a then blank_bytes bs
      else case bs of
        [] \<Rightarrow> False
      | b # cs \<Rightarrow>
          if space2 a b then blank_bytes cs
          else case cs of [] \<Rightarrow> False | c # ds \<Rightarrow> space3 a b c \<and> blank_bytes ds)"

definition blank :: "string \<Rightarrow> bool" where
  "blank s = blank_bytes (map of_char s)"

lemma blank_Nil [simp]: "blank []"
  by (simp add: blank_def)

end
