(* ===== verification/Datapath_Writer.thy ===== *)
theory Datapath_Writer
  imports Wire_Types Meridian_Types
begin

text \<open>
  \<^verbatim>\<open>internal/agent/datapath\<close>: the translation of the wire types to the kernel's map entries
  (\<^verbatim>\<open>translate.go\<close>) and the writer that applies a staged update (\<^verbatim>\<open>writer_linux.go\<close>). The map
  handles come from \<^verbatim>\<open>cilium/ebpf\<close> and are a parameter: a record of the calls the writer makes,
  over an arbitrary state of the outside world. A call that fails leaves what was written before it.
\<close>

section \<open>Addresses\<close>

text \<open>
  \<open>netip.ParseAddr\<close> for dotted decimal: four octets of one to three digits, no leading zero, at
  most 255 each. The loop carries the previous character, the digits and the value of the current
  octet, and the octets read.
\<close>

fun parseIPv4Fields :: "char option \<Rightarrow> nat \<Rightarrow> nat \<Rightarrow> nat list \<Rightarrow> string \<Rightarrow> nat list option" where
  "parseIPv4Fields prev digLen val flds [] =
     (if length flds < 3 then None else Some (flds @ [val]))"
| "parseIPv4Fields prev digLen val flds (c # cs) =
     (if is_digit c
      then if digLen = 1 \<and> val = 0 then None
        else let val' = val * 10 + char_digit c
             in if val' > 255 then None
                else parseIPv4Fields (Some c) (digLen + 1) val' flds cs
      else if c = CHR ''.''
      then if prev = None \<or> cs = [] \<or> prev = Some (CHR ''.'') then None
        else if length flds = 3 then None
        else parseIPv4Fields (Some c) 0 0 (flds @ [val]) cs
      else None)"

text \<open>
  \<open>ParseAddr\<close> looks for the first of \<open>.\<close>, \<open>:\<close> and \<open>%\<close>. Only an address that starts like IPv4 can
  satisfy \<open>Is4\<close>; everything else ends in an error of \<open>identityIPv4NetworkKey\<close>.
\<close>

fun starts_ipv4 :: "string \<Rightarrow> bool" where
  "starts_ipv4 [] = False"
| "starts_ipv4 (c # cs) =
     (if c = CHR ''.'' then True else if c = CHR '':'' \<or> c = CHR ''%'' then False else starts_ipv4 cs)"

definition parseAddr4 :: "string \<Rightarrow> byte list option" where
  "parseAddr4 s =
     (if starts_ipv4 s then map_option (map of_nat) (parseIPv4Fields None 0 0 [] s) else None)"

section \<open>Translation\<close>

datatype translate_error =
    Missing_Pod_IPv4 u32
  | Bad_Pod_IPv4 u32 string

definition translatePolicyRuleKey :: "PolicyRuleKey \<Rightarrow> policy_key" where
  "translatePolicyRuleKey key =
     \<lparr>pk_src_id = SrcIdentity key, pk_dst_id = DstIdentity key, pk_dst_port = DstPort key,
      pk_proto = Protocol key, pk_direction = Direction key\<rparr>"

definition translatePolicyVerdict :: "PolicyVerdict \<Rightarrow> policy_verdict" where
  "translatePolicyVerdict verdict =
     \<lparr>pv_action = Action verdict, pv_flags = Flags verdict, pv_pad = 0\<rparr>"

definition identityIPv4NetworkKey :: "Identity \<Rightarrow> translate_error + u32" where
  "identityIPv4NetworkKey identity =
     (if PodIPv4 identity = [] then Inl (Missing_Pod_IPv4 (ID identity))
      else case parseAddr4 (PodIPv4 identity) of
        Some [a, b, c, d] \<Rightarrow> Inr (le32 a b c d)
      | _ \<Rightarrow> Inl (Bad_Pod_IPv4 (ID identity) (PodIPv4 identity)))"

definition translateIdentity :: "Identity \<Rightarrow> translate_error + (u32 \<times> u32)" where
  "translateIdentity identity =
     and_then (identityIPv4NetworkKey identity) (\<lambda>ipv4Key. Inr (ipv4Key, ID identity))"

section \<open>Map handles\<close>

datatype ebpf_error =
    ErrKeyNotExist
  | Ebpf_Errno int

record 'w ebpf =
  identity_update :: "'w \<Rightarrow> (u32 \<rightharpoonup> u32) \<Rightarrow> u32 \<Rightarrow> u32 \<Rightarrow> ebpf_error option \<times> (u32 \<rightharpoonup> u32) \<times> 'w"
  identity_delete :: "'w \<Rightarrow> (u32 \<rightharpoonup> u32) \<Rightarrow> u32 \<Rightarrow> ebpf_error option \<times> (u32 \<rightharpoonup> u32) \<times> 'w"
  policy_update :: "'w \<Rightarrow> (policy_key \<rightharpoonup> policy_verdict) \<Rightarrow> policy_key \<Rightarrow> policy_verdict \<Rightarrow>
    ebpf_error option \<times> (policy_key \<rightharpoonup> policy_verdict) \<times> 'w"
  policy_delete :: "'w \<Rightarrow> (policy_key \<rightharpoonup> policy_verdict) \<Rightarrow> policy_key \<Rightarrow>
    ebpf_error option \<times> (policy_key \<rightharpoonup> policy_verdict) \<times> 'w"

section \<open>The writer\<close>

record 'w writer =
  w_world :: 'w
  identityMap :: "u32 \<rightharpoonup> u32"
  policyMap :: "policy_key \<rightharpoonup> policy_verdict"
  identityKeyByID :: "u32 \<rightharpoonup> u32"

datatype write_error =
    Translate_Failed translate_error
  | Identity_Upsert_Failed u32 u32 ebpf_error
  | Policy_Upsert_Failed PolicyRuleKey ebpf_error
  | Policy_Delete_Failed PolicyRuleKey ebpf_error
  | Identity_Delete_Failed u32 u32 ebpf_error

definition newWriter ::
  "'w \<Rightarrow> (u32 \<rightharpoonup> u32) \<Rightarrow> (policy_key \<rightharpoonup> policy_verdict) \<Rightarrow> 'w writer" where
  "newWriter w ids pol =
     \<lparr>w_world = w, identityMap = ids, policyMap = pol, identityKeyByID = Map.empty\<rparr>"

definition upsertIdentity ::
  "'w ebpf \<Rightarrow> Identity \<Rightarrow> 'w writer \<Rightarrow> write_error option \<times> 'w writer" where
  "upsertIdentity E identity w =
     (case translateIdentity identity of
        Inl e \<Rightarrow> (Some (Translate_Failed e), w)
      | Inr (key, val) \<Rightarrow>
          (case identity_update E (w_world w) (identityMap w) key val of
             (err, m, x) \<Rightarrow>
               let w' = w\<lparr>w_world := x, identityMap := m\<rparr>
               in (case err of
                     Some e \<Rightarrow> (Some (Identity_Upsert_Failed (ID identity) key e), w')
                   | None \<Rightarrow>
                       (None, w'\<lparr>identityKeyByID := (identityKeyByID w)(ID identity \<mapsto> key)\<rparr>))))"

definition applyIdentityUpserts ::
  "'w ebpf \<Rightarrow> Identity list \<Rightarrow> 'w writer \<Rightarrow> write_error option \<times> 'w writer" where
  "applyIdentityUpserts E upserts = run_each (upsertIdentity E) upserts"

definition upsertPolicy ::
  "'w ebpf \<Rightarrow> PolicyRule \<Rightarrow> 'w writer \<Rightarrow> write_error option \<times> 'w writer" where
  "upsertPolicy E rule w =
     (case policy_update E (w_world w) (policyMap w)
         (translatePolicyRuleKey (Key rule)) (translatePolicyVerdict (Verdict rule)) of
        (err, m, x) \<Rightarrow>
          (map_option (Policy_Upsert_Failed (Key rule)) err, w\<lparr>w_world := x, policyMap := m\<rparr>))"

definition applyPolicyUpserts ::
  "'w ebpf \<Rightarrow> PolicyRule list \<Rightarrow> 'w writer \<Rightarrow> write_error option \<times> 'w writer" where
  "applyPolicyUpserts E upserts = run_each (upsertPolicy E) upserts"

definition deleteIdentity ::
  "'w ebpf \<Rightarrow> u32 \<Rightarrow> 'w writer \<Rightarrow> write_error option \<times> 'w writer" where
  "deleteIdentity E identityID w =
     (case identityKeyByID w identityID of
        None \<Rightarrow> (None, w)
      | Some ipKey \<Rightarrow>
          (case identity_delete E (w_world w) (identityMap w) ipKey of
             (err, m, x) \<Rightarrow>
               let w' = w\<lparr>w_world := x, identityMap := m\<rparr>
               in if err \<noteq> None \<and> err \<noteq> Some ErrKeyNotExist
                  then (Some (Identity_Delete_Failed identityID ipKey (the err)), w')
                  else (None, w'\<lparr>identityKeyByID := (identityKeyByID w)(identityID := None)\<rparr>)))"

definition applyIdentityDeletes ::
  "'w ebpf \<Rightarrow> u32 list \<Rightarrow> 'w writer \<Rightarrow> write_error option \<times> 'w writer" where
  "applyIdentityDeletes E deletes = run_each (deleteIdentity E) deletes"

definition deletePolicy ::
  "'w ebpf \<Rightarrow> PolicyRuleKey \<Rightarrow> 'w writer \<Rightarrow> write_error option \<times> 'w writer" where
  "deletePolicy E ruleKey w =
     (case policy_delete E (w_world w) (policyMap w) (translatePolicyRuleKey ruleKey) of
        (err, m, x) \<Rightarrow>
          let w' = w\<lparr>w_world := x, policyMap := m\<rparr>
          in if err \<noteq> None \<and> err \<noteq> Some ErrKeyNotExist
             then (Some (Policy_Delete_Failed ruleKey (the err)), w')
             else (None, w'))"

definition applyPolicyDeletes ::
  "'w ebpf \<Rightarrow> PolicyRuleKey list \<Rightarrow> 'w writer \<Rightarrow> write_error option \<times> 'w writer" where
  "applyPolicyDeletes E deletes = run_each (deletePolicy E) deletes"

definition Apply :: "'w ebpf \<Rightarrow> CommitPlan \<Rightarrow> 'w writer \<Rightarrow> write_error option \<times> 'w writer" where
  "Apply E plan w =
     and_run (applyIdentityUpserts E (IdentityUpserts plan) w) (\<lambda>w.
     and_run (applyPolicyUpserts E (PolicyUpserts plan) w) (\<lambda>w.
     and_run (applyPolicyDeletes E (PolicyDeletes plan) w) (\<lambda>w.
     applyIdentityDeletes E (IdentityDeletes plan) w)))"

end
