(* ===== verification/Snapshot_Diff.thy ===== *)
theory Snapshot_Diff
  imports Datapath_Writer
begin

text \<open>
  \<^verbatim>\<open>internal/agent/xds/diff.go\<close> and what the writer makes of its plans. The locale
  \<open>ebpf_maps\<close> states what the map handles promise, \<open>live_ebpf\<close> adds that no call fails; the lemmas
  describe each write, the four passes of \<open>Apply\<close> and the maps they leave.
\<close>

section \<open>The difference of two snapshots\<close>

record snapshot =
  policies :: "PolicyRule list"
  identities :: "Identity list"

definition diff :: "snapshot \<Rightarrow> snapshot \<Rightarrow> CommitPlan" where
  "diff old new =
     (let oldIdent = foldl (\<lambda>m i. m(ID i \<mapsto> i)) Map.empty (identities old);
          nextIdent = set (map ID (identities new));
          oldPol = foldl (\<lambda>m p. m(Key p \<mapsto> p)) Map.empty (policies old);
          nextPol = set (map Key (policies new))
      in \<lparr>IdentityUpserts = filter (\<lambda>i. oldIdent (ID i) \<noteq> Some i) (identities new),
          IdentityDeletes = map ID (filter (\<lambda>i. ID i \<notin> nextIdent) (identities old)),
          PolicyUpserts = filter (\<lambda>p. oldPol (Key p) \<noteq> Some p) (policies new),
          PolicyDeletes = map Key (filter (\<lambda>p. Key p \<notin> nextPol) (policies old))\<rparr>)"

section \<open>What a map handle promises\<close>

text \<open>
  A successful update or deletion has exactly its effect, a failed one has none, and
  \<open>ErrKeyNotExist\<close> is only reported for an absent key.
\<close>

locale ebpf_maps =
  fixes E :: "'w ebpf"
  assumes identity_update_law:
      "identity_update E x m k v = (err, m', x') \<Longrightarrow> m' = (if err = None then m(k \<mapsto> v) else m)"
    and identity_delete_law:
      "identity_delete E x m k = (err, m', x') \<Longrightarrow>
        m' = (if err = None then m(k := None) else m) \<and> (err = Some ErrKeyNotExist \<longrightarrow> m k = None)"
    and policy_update_law:
      "policy_update E x p q u = (err, p', x') \<Longrightarrow> p' = (if err = None then p(q \<mapsto> u) else p)"
    and policy_delete_law:
      "policy_delete E x p q = (err, p', x') \<Longrightarrow>
        p' = (if err = None then p(q := None) else p) \<and> (err = Some ErrKeyNotExist \<longrightarrow> p q = None)"

locale live_ebpf = ebpf_maps +
  assumes identity_update_live: "fst (identity_update E x m k v) = None"
    and identity_delete_live: "fst (identity_delete E x m k) \<in> {None, Some ErrKeyNotExist}"
    and policy_update_live: "fst (policy_update E x p q u) = None"
    and policy_delete_live: "fst (policy_delete E x p q) \<in> {None, Some ErrKeyNotExist}"

lemma translatePolicyRuleKey_inject [simp]:
  "translatePolicyRuleKey a = translatePolicyRuleKey b \<longleftrightarrow> a = b"
  by (cases a; cases b) (simp add: translatePolicyRuleKey_def)

definition key_of :: "Identity \<Rightarrow> u32" where
  "key_of i = (case identityIPv4NetworkKey i of Inr k \<Rightarrow> k | Inl _ \<Rightarrow> 0)"

definition has_address :: "Identity \<Rightarrow> bool" where
  "has_address i \<longleftrightarrow> is_ok (identityIPv4NetworkKey i)"

lemma translateIdentity_address:
  "translateIdentity i = (if has_address i then Inr (key_of i, ID i)
     else Inl (projl (identityIPv4NetworkKey i)))"
  by (cases "identityIPv4NetworkKey i") (simp_all add: translateIdentity_def has_address_def key_of_def)

text \<open>The effects of the single writes on the maps, world aside.\<close>

definition same_identities :: "'w writer \<Rightarrow> 'w writer \<Rightarrow> bool" where
  "same_identities w w' \<longleftrightarrow> identityMap w' = identityMap w \<and> identityKeyByID w' = identityKeyByID w"

context ebpf_maps
begin

lemma upsertPolicy_effect:
  assumes "upsertPolicy E r w = (err, w')"
  shows "policyMap w' = (if err = None
      then (policyMap w)(translatePolicyRuleKey (Key r) \<mapsto> translatePolicyVerdict (Verdict r))
      else policyMap w) \<and> same_identities w w'"
  using assms unfolding upsertPolicy_def same_identities_def
  by (auto split: prod.splits dest!: policy_update_law)

lemma deletePolicy_effect:
  assumes "deletePolicy E k w = (err, w')"
  shows "policyMap w' = (if err = None then (policyMap w)(translatePolicyRuleKey k := None)
      else policyMap w) \<and> same_identities w w'"
proof -
  obtain e p x where d: "policy_delete E (w_world w) (policyMap w) (translatePolicyRuleKey k) = (e, p, x)"
    by (metis prod_cases3)
  have "(policyMap w)(translatePolicyRuleKey k := None) = policyMap w" if "e = Some ErrKeyNotExist"
    using policy_delete_law [OF d] that by (simp add: fun_upd_idem)
  then show ?thesis
    using assms policy_delete_law [OF d] unfolding deletePolicy_def same_identities_def d
    by (auto simp: Let_def split: if_splits)
qed

lemma upsertIdentity_effect:
  assumes "upsertIdentity E i w = (err, w')"
  shows "policyMap w' = policyMap w"
    and "err = None \<Longrightarrow> has_address i \<and> identityMap w' = (identityMap w)(key_of i \<mapsto> ID i) \<and>
      identityKeyByID w' = (identityKeyByID w)(ID i \<mapsto> key_of i)"
    and "err \<noteq> None \<Longrightarrow> same_identities w w'"
  using assms
  unfolding upsertIdentity_def same_identities_def translateIdentity_address
  by (auto simp: Let_def split: prod.splits option.splits if_splits dest!: identity_update_law)

lemma deleteIdentity_effect:
  assumes "deleteIdentity E i w = (err, w')"
  shows "policyMap w' = policyMap w"
    and "err = None \<Longrightarrow> identityKeyByID w' = (identityKeyByID w)(i := None) \<and>
      identityMap w' = (case identityKeyByID w i of None \<Rightarrow> identityMap w
        | Some a \<Rightarrow> (identityMap w)(a := None))"
    and "err \<noteq> None \<Longrightarrow> same_identities w w'"
proof -
  show "policyMap w' = policyMap w"
    using assms unfolding deleteIdentity_def by (auto simp: Let_def split: option.splits prod.splits if_splits)
  show "err \<noteq> None \<Longrightarrow> same_identities w w'"
    using assms unfolding deleteIdentity_def same_identities_def
    by (auto simp: Let_def split: option.splits prod.splits if_splits dest!: identity_delete_law)
  assume err: "err = None"
  show "identityKeyByID w' = (identityKeyByID w)(i := None) \<and>
      identityMap w' = (case identityKeyByID w i of None \<Rightarrow> identityMap w
        | Some a \<Rightarrow> (identityMap w)(a := None))"
  proof (cases "identityKeyByID w i")
    case None
    then show ?thesis using assms by (auto simp: deleteIdentity_def fun_upd_idem)
  next
    case (Some a)
    obtain e m x where d: "identity_delete E (w_world w) (identityMap w) a = (e, m, x)" by (metis prod_cases3)
    have "(identityMap w)(a := None) = identityMap w" if "e = Some ErrKeyNotExist"
      using identity_delete_law [OF d] that by (simp add: fun_upd_idem)
    then show ?thesis
      using assms err Some identity_delete_law [OF d] unfolding deleteIdentity_def
      by (auto simp: Let_def d split: if_splits)
  qed
qed

text \<open>The policy map after a pass, error or not: each entry is the old one or the one to be written.\<close>

lemma policy_upserts_effect:
  assumes "applyPolicyUpserts E rs w = (err, w')"
  shows "same_identities w w'"
    and "err = None \<Longrightarrow> policyMap w' =
      writes (translatePolicyRuleKey \<circ> Key) (translatePolicyVerdict \<circ> Verdict) rs (policyMap w)"
    and "policyMap w' q = policyMap w q \<or> (\<exists>r\<in>set rs. q = translatePolicyRuleKey (Key r) \<and>
      policyMap w' q = Some (translatePolicyVerdict (Verdict r)))"
proof -
  have "same_identities w w' \<and> (err = None \<longrightarrow> policyMap w' =
      writes (translatePolicyRuleKey \<circ> Key) (translatePolicyVerdict \<circ> Verdict) rs (policyMap w)) \<and>
    (policyMap w' q = policyMap w q \<or> (\<exists>r\<in>set rs. q = translatePolicyRuleKey (Key r) \<and>
      policyMap w' q = Some (translatePolicyVerdict (Verdict r))))"
    using assms unfolding applyPolicyUpserts_def
  proof (induction rs arbitrary: w)
    case (Cons r rs)
    obtain e u where u: "upsertPolicy E r w = (e, u)" by fastforce
    note eff = upsertPolicy_effect [OF u]
    show ?case
    proof (cases e)
      case None
      then have "run_each (upsertPolicy E) rs u = (err, w')" using Cons.prems u by simp
      from Cons.IH [OF this] eff None show ?thesis by (auto simp: same_identities_def fun_upd_def)
    next
      case (Some x)
      then show ?thesis using Cons.prems u eff by (auto simp: same_identities_def)
    qed
  qed (simp add: same_identities_def)
  then show "same_identities w w'"
    and "err = None \<Longrightarrow> policyMap w' =
      writes (translatePolicyRuleKey \<circ> Key) (translatePolicyVerdict \<circ> Verdict) rs (policyMap w)"
    and "policyMap w' q = policyMap w q \<or> (\<exists>r\<in>set rs. q = translatePolicyRuleKey (Key r) \<and>
      policyMap w' q = Some (translatePolicyVerdict (Verdict r)))" by blast+
qed

lemma policy_deletes_effect:
  assumes "applyPolicyDeletes E ks w = (err, w')"
  shows "same_identities w w'"
    and "err = None \<Longrightarrow> policyMap w' =
      (\<lambda>q. if q \<in> translatePolicyRuleKey ` set ks then None else policyMap w q)"
    and "policyMap w' q = policyMap w q \<or> q \<in> translatePolicyRuleKey ` set ks \<and> policyMap w' q = None"
proof -
  have "same_identities w w' \<and> (err = None \<longrightarrow> policyMap w' =
      (\<lambda>q. if q \<in> translatePolicyRuleKey ` set ks then None else policyMap w q)) \<and>
    (policyMap w' q = policyMap w q \<or> q \<in> translatePolicyRuleKey ` set ks \<and> policyMap w' q = None)"
    using assms unfolding applyPolicyDeletes_def
  proof (induction ks arbitrary: w)
    case (Cons k ks)
    obtain e u where u: "deletePolicy E k w = (e, u)" by fastforce
    note eff = deletePolicy_effect [OF u]
    show ?case
    proof (cases e)
      case None
      then have "run_each (deletePolicy E) ks u = (err, w')" using Cons.prems u by simp
      from Cons.IH [OF this] eff None show ?thesis by (auto simp: same_identities_def fun_eq_iff)
    next
      case (Some x)
      then show ?thesis using Cons.prems u eff by (auto simp: same_identities_def)
    qed
  qed (simp add: same_identities_def)
  then show "same_identities w w'"
    and "err = None \<Longrightarrow> policyMap w' =
      (\<lambda>q. if q \<in> translatePolicyRuleKey ` set ks then None else policyMap w q)"
    and "policyMap w' q = policyMap w q \<or> q \<in> translatePolicyRuleKey ` set ks \<and> policyMap w' q = None"
    by blast+
qed

lemma identity_upserts_effect:
  assumes "applyIdentityUpserts E is w = (err, w')"
  shows "policyMap w' = policyMap w"
    and "err = None \<Longrightarrow> (\<forall>i\<in>set is. has_address i) \<and>
      identityMap w' = writes key_of ID is (identityMap w) \<and>
      identityKeyByID w' = writes ID key_of is (identityKeyByID w)"
proof -
  have "policyMap w' = policyMap w \<and> (err = None \<longrightarrow> (\<forall>i\<in>set is. has_address i) \<and>
      identityMap w' = writes key_of ID is (identityMap w) \<and>
      identityKeyByID w' = writes ID key_of is (identityKeyByID w))"
    using assms unfolding applyIdentityUpserts_def
  proof (induction "is" arbitrary: w)
    case (Cons i js)
    obtain e u where u: "upsertIdentity E i w = (e, u)" by fastforce
    note eff = upsertIdentity_effect [OF u]
    show ?case
    proof (cases e)
      case None
      then have "run_each (upsertIdentity E) js u = (err, w')" using Cons.prems u by simp
      from Cons.IH [OF this] eff(1,2) None show ?thesis by (simp add: fun_upd_def)
    next
      case (Some x)
      then show ?thesis using Cons.prems u eff(1) by auto
    qed
  qed simp
  then show "policyMap w' = policyMap w"
    and "err = None \<Longrightarrow> (\<forall>i\<in>set is. has_address i) \<and>
      identityMap w' = writes key_of ID is (identityMap w) \<and>
      identityKeyByID w' = writes ID key_of is (identityKeyByID w)" by blast+
qed

lemma identity_deletes_effect:
  assumes "applyIdentityDeletes E ds w = (err, w')"
  shows "policyMap w' = policyMap w"
    and "err = None \<Longrightarrow>
      identityMap w' = (\<lambda>a. if \<exists>d\<in>set ds. identityKeyByID w d = Some a then None else identityMap w a) \<and>
      identityKeyByID w' = (\<lambda>d. if d \<in> set ds then None else identityKeyByID w d)"
proof -
  have "policyMap w' = policyMap w \<and> (err = None \<longrightarrow>
      identityMap w' = (\<lambda>a. if \<exists>d\<in>set ds. identityKeyByID w d = Some a then None else identityMap w a) \<and>
      identityKeyByID w' = (\<lambda>d. if d \<in> set ds then None else identityKeyByID w d))"
    using assms unfolding applyIdentityDeletes_def
  proof (induction ds arbitrary: w)
    case (Cons d ds)
    obtain e u where u: "deleteIdentity E d w = (e, u)" by fastforce
    note eff = deleteIdentity_effect [OF u]
    show ?case
    proof (cases e)
      case None
      then have "run_each (deleteIdentity E) ds u = (err, w')" using Cons.prems u by simp
      from Cons.IH [OF this] eff(1,2) None show ?thesis
        by (auto simp: fun_eq_iff split: option.splits)
    next
      case (Some x)
      then show ?thesis using Cons.prems u eff(1) by auto
    qed
  qed simp
  then show "policyMap w' = policyMap w"
    and "err = None \<Longrightarrow>
      identityMap w' = (\<lambda>a. if \<exists>d\<in>set ds. identityKeyByID w d = Some a then None else identityMap w a) \<and>
      identityKeyByID w' = (\<lambda>d. if d \<in> set ds then None else identityKeyByID w d)" by blast+
qed

end

end
