(* ===== verification/Datapath_Update.thy ===== *)
theory Datapath_Update
  imports Snapshot_Diff
begin

text \<open>
  Applying the difference of two snapshots. \<open>installed\<close> says that the kernel maps and the writer's
  index are those of a snapshot; a plan computed by \<open>diff\<close> takes the maps from one snapshot to the
  other where identities keep their addresses. The last section shows what happens where they do
  not, and after a plan that failed half way.
\<close>

section \<open>Whole plans\<close>

abbreviation policy_writes ::
  "PolicyRule list \<Rightarrow> (policy_key \<rightharpoonup> policy_verdict) \<Rightarrow> policy_key \<rightharpoonup> policy_verdict" where
  "policy_writes \<equiv> writes (translatePolicyRuleKey \<circ> Key) (translatePolicyVerdict \<circ> Verdict)"

context ebpf_maps
begin

lemma Apply_success:
  assumes "Apply E plan w = (None, w')"
  shows "\<forall>i\<in>set (IdentityUpserts plan). has_address i"
    and "policyMap w' = (\<lambda>q. if q \<in> translatePolicyRuleKey ` set (PolicyDeletes plan) then None
      else policy_writes (PolicyUpserts plan) (policyMap w) q)"
    and "identityMap w' = (\<lambda>a.
      if \<exists>d\<in>set (IdentityDeletes plan). writes ID key_of (IdentityUpserts plan) (identityKeyByID w) d = Some a
      then None else writes key_of ID (IdentityUpserts plan) (identityMap w) a)"
    and "identityKeyByID w' = (\<lambda>d. if d \<in> set (IdentityDeletes plan) then None
      else writes ID key_of (IdentityUpserts plan) (identityKeyByID w) d)"
proof -
  obtain u v x where u: "applyIdentityUpserts E (IdentityUpserts plan) w = (None, u)"
    and v: "applyPolicyUpserts E (PolicyUpserts plan) u = (None, v)"
    and x: "applyPolicyDeletes E (PolicyDeletes plan) v = (None, x)"
    and w': "applyIdentityDeletes E (IdentityDeletes plan) x = (None, w')"
    using assms unfolding Apply_def and_run_None_iff by blast
  note iu = identity_upserts_effect [OF u] and pu = policy_upserts_effect [OF v]
    and pd = policy_deletes_effect [OF x] and dd = identity_deletes_effect [OF w']
  show "\<forall>i\<in>set (IdentityUpserts plan). has_address i" using iu(2) by blast
  show "policyMap w' = (\<lambda>q. if q \<in> translatePolicyRuleKey ` set (PolicyDeletes plan) then None
      else policy_writes (PolicyUpserts plan) (policyMap w) q)"
    unfolding dd(1) pd(2) [OF refl] pu(2) [OF refl] iu(1) ..
  have ids: "identityMap x = writes key_of ID (IdentityUpserts plan) (identityMap w)"
    "identityKeyByID x = writes ID key_of (IdentityUpserts plan) (identityKeyByID w)"
    using iu(2) pu(1) pd(1) unfolding same_identities_def by auto
  show "identityMap w' = (\<lambda>a.
      if \<exists>d\<in>set (IdentityDeletes plan). writes ID key_of (IdentityUpserts plan) (identityKeyByID w) d = Some a
      then None else writes key_of ID (IdentityUpserts plan) (identityMap w) a)"
    and "identityKeyByID w' = (\<lambda>d. if d \<in> set (IdentityDeletes plan) then None
      else writes ID key_of (IdentityUpserts plan) (identityKeyByID w) d)"
    using dd(2) unfolding ids by blast+
qed

lemma Apply_policy_step:
  assumes "Apply E plan w = (err, w')"
  shows "policyMap w' q = policyMap w q \<or>
    (\<exists>r\<in>set (PolicyUpserts plan). q = translatePolicyRuleKey (Key r) \<and>
      policyMap w' q = Some (translatePolicyVerdict (Verdict r))) \<or>
    q \<in> translatePolicyRuleKey ` set (PolicyDeletes plan) \<and> policyMap w' q = None"
proof -
  obtain e u where u: "applyIdentityUpserts E (IdentityUpserts plan) w = (e, u)" by fastforce
  obtain f v where v: "applyPolicyUpserts E (PolicyUpserts plan) u = (f, v)" by fastforce
  obtain g x where x: "applyPolicyDeletes E (PolicyDeletes plan) v = (g, x)" by fastforce
  obtain h y where y: "applyIdentityDeletes E (IdentityDeletes plan) x = (h, y)" by fastforce
  have "w' \<in> {u, v, x, y}"
    using assms unfolding Apply_def by (auto simp: u v x y and_run_def split: option.splits)
  then show ?thesis
    using identity_upserts_effect(1) [OF u] policy_upserts_effect(3) [OF v, of q]
      policy_deletes_effect(3) [OF x, of q] identity_deletes_effect(1) [OF y] by auto
qed

end

context live_ebpf
begin

lemma Apply_live:
  assumes "\<forall>i\<in>set (IdentityUpserts plan). has_address i"
  obtains w' where "Apply E plan w = (None, w')"
proof -
  have iu: "fst (upsertIdentity E i v) = None" if "has_address i" for i v
    using that identity_update_live [of "w_world v" "identityMap v" "key_of i" "ID i"]
    by (cases "identity_update E (w_world v) (identityMap v) (key_of i) (ID i)")
      (simp add: upsertIdentity_def translateIdentity_address)
  have pu: "fst (upsertPolicy E r v) = None" for r v
    using policy_update_live [of "w_world v" "policyMap v" "translatePolicyRuleKey (Key r)"
        "translatePolicyVerdict (Verdict r)"] by (auto simp: upsertPolicy_def split: prod.split)
  have pd: "fst (deletePolicy E k v) = None" for k v
    using policy_delete_live [of "w_world v" "policyMap v" "translatePolicyRuleKey k"]
    by (auto simp: deletePolicy_def split: prod.split)
  have dd: "fst (deleteIdentity E d v) = None" for d v
  proof (cases "identityKeyByID v d")
    case (Some a)
    then show ?thesis
      using identity_delete_live [of "w_world v" "identityMap v" a]
      by (auto simp: deleteIdentity_def split: prod.split)
  qed (simp add: deleteIdentity_def)
  obtain a where a: "applyIdentityUpserts E (IdentityUpserts plan) w = (None, a)"
    unfolding applyIdentityUpserts_def using run_each_none iu assms by metis
  obtain b where b: "applyPolicyUpserts E (PolicyUpserts plan) a = (None, b)"
    unfolding applyPolicyUpserts_def using run_each_none pu by metis
  obtain c where c: "applyPolicyDeletes E (PolicyDeletes plan) b = (None, c)"
    unfolding applyPolicyDeletes_def using run_each_none pd by metis
  obtain d where "applyIdentityDeletes E (IdentityDeletes plan) c = (None, d)"
    unfolding applyIdentityDeletes_def using run_each_none dd by metis
  then have "Apply E plan w = (None, d)" by (simp add: Apply_def a b c)
  then show thesis using that by blast
qed

end

section \<open>Plans computed from two snapshots\<close>

definition wf_snapshot :: "snapshot \<Rightarrow> bool" where
  "wf_snapshot s \<longleftrightarrow> distinct (map Key (policies s)) \<and> distinct (map ID (identities s)) \<and>
     distinct (map key_of (identities s)) \<and> (\<forall>i\<in>set (identities s). has_address i)"

definition installed :: "snapshot \<Rightarrow> 'w writer \<Rightarrow> bool" where
  "installed s w \<longleftrightarrow>
     policyMap w = table (translatePolicyRuleKey \<circ> Key) (translatePolicyVerdict \<circ> Verdict) (policies s) \<and>
     identityMap w = table key_of ID (identities s) \<and>
     identityKeyByID w = table ID key_of (identities s)"

text \<open>An identity in both snapshots has one address, and no address passes to another identity.\<close>

definition keeps_addresses :: "snapshot \<Rightarrow> snapshot \<Rightarrow> bool" where
  "keeps_addresses old new \<longleftrightarrow> (\<forall>i\<in>set (identities old). \<forall>j\<in>set (identities new).
     ID i = ID j \<longleftrightarrow> key_of i = key_of j)"

lemma latest_entry:
  assumes "distinct (map f xs)"
  shows "foldl (\<lambda>m x. m(f x \<mapsto> x)) Map.empty xs (f y) = Some y \<longleftrightarrow> y \<in> set xs"
proof -
  have "foldl (\<lambda>m x. m(f x \<mapsto> x)) Map.empty xs = table f (\<lambda>x. x) xs"
    using writes_empty [OF assms, of "\<lambda>x. x"] by (simp add: writes_def)
  then show ?thesis using table_Some [OF assms, of y "\<lambda>x. x"] by (auto elim: table_SomeD)
qed

lemma diff_policy_sets:
  assumes "distinct (map Key (policies old))"
  shows "set (PolicyUpserts (diff old new)) = set (policies new) - set (policies old)"
    and "set (PolicyDeletes (diff old new)) = Key ` set (policies old) - Key ` set (policies new)"
  by (auto simp: diff_def Let_def latest_entry [OF assms])

lemma diff_identity_sets:
  assumes "distinct (map ID (identities old))"
  shows "set (IdentityUpserts (diff old new)) = set (identities new) - set (identities old)"
    and "set (IdentityDeletes (diff old new)) = ID ` set (identities old) - ID ` set (identities new)"
  by (auto simp: diff_def Let_def latest_entry [OF assms])

lemma diff_sets:
  assumes "wf_snapshot old"
  shows "set (IdentityUpserts (diff old new)) = set (identities new) - set (identities old)"
    and "set (PolicyUpserts (diff old new)) = set (policies new) - set (policies old)"
    and "set (IdentityDeletes (diff old new)) = ID ` set (identities old) - ID ` set (identities new)"
    and "set (PolicyDeletes (diff old new)) = Key ` set (policies old) - Key ` set (policies new)"
  using assms by (simp_all add: wf_snapshot_def diff_policy_sets diff_identity_sets)

lemma diff_distinct:
  "distinct (map f (identities new)) \<Longrightarrow> distinct (map f (IdentityUpserts (diff old new)))"
  "distinct (map g (policies new)) \<Longrightarrow> distinct (map g (PolicyUpserts (diff old new)))"
  by (simp_all add: diff_def Let_def distinct_map_filter)

lemma distinct_translated:
  "distinct (map Key rs) \<Longrightarrow> distinct (map (translatePolicyRuleKey \<circ> Key) rs)"
  by (auto simp: distinct_map inj_on_def)

lemma table_translated:
  "table (translatePolicyRuleKey \<circ> Key) g rs (translatePolicyRuleKey k) = map_option g (table Key (\<lambda>r. r) rs k)"
  by (induction rs) (simp_all add: table_def)

text \<open>The addresses a plan deletes: those of the identities that are gone.\<close>

lemma deleted_addresses:
  assumes "wf_snapshot old"
  shows "(\<exists>d\<in>set (IdentityDeletes (diff old new)).
      writes ID key_of (IdentityUpserts (diff old new)) (table ID key_of (identities old)) d = Some a) \<longleftrightarrow>
    (\<exists>i\<in>set (identities old). ID i \<notin> ID ` set (identities new) \<and> key_of i = a)" (is "?l \<longleftrightarrow> ?r")
proof -
  let ?m = "writes ID key_of (IdentityUpserts (diff old new)) (table ID key_of (identities old))"
  have d: "distinct (map ID (identities old))" using assms by (simp add: wf_snapshot_def)
  have "?m (ID i) = Some (key_of i)" if "i \<in> set (identities old)" "ID i \<notin> ID ` set (identities new)" for i
  proof -
    have "ID i \<notin> ID ` set (IdentityUpserts (diff old new))"
      using that(2) diff_sets(1) [OF assms] by blast
    then show ?thesis using writes_other table_Some [OF d that(1)] by metis
  qed
  then show ?thesis unfolding diff_sets(3) [OF assms] by auto
qed

context ebpf_maps
begin

lemma diff_policy_table:
  assumes d: "distinct (map Key (policies old))" "distinct (map Key (policies new))"
    and pol: "policyMap w = table (translatePolicyRuleKey \<circ> Key) (translatePolicyVerdict \<circ> Verdict) (policies old)"
    and "Apply E (diff old new) w = (None, w')"
  shows "policyMap w' =
    table (translatePolicyRuleKey \<circ> Key) (translatePolicyVerdict \<circ> Verdict) (policies new)"
  unfolding Apply_success(2) [OF assms(4)] pol
proof (rule table_update)
  fix q
  show "q \<in> translatePolicyRuleKey ` set (PolicyDeletes (diff old new)) \<longleftrightarrow>
      q \<in> (translatePolicyRuleKey \<circ> Key) ` set (policies old) \<and>
      q \<notin> (translatePolicyRuleKey \<circ> Key) ` set (policies new)"
    unfolding diff_policy_sets(2) [OF d(1)] by auto
qed (use d diff_policy_sets(1) [OF d(1)] in \<open>auto intro: distinct_translated diff_distinct\<close>)

lemma diff_policy_map:
  assumes "wf_snapshot old" and "wf_snapshot new" and "installed old w"
    and "Apply E (diff old new) w = (None, w')"
  shows "policyMap w' =
    table (translatePolicyRuleKey \<circ> Key) (translatePolicyVerdict \<circ> Verdict) (policies new)"
  by (rule diff_policy_table [OF _ _ _ assms(4)]) (use assms(1-3) in \<open>simp_all add: wf_snapshot_def installed_def\<close>)

lemma diff_identity_map:
  assumes "wf_snapshot old" and "installed old w" and "Apply E (diff old new) w = (None, w')"
  shows "identityMap w' a =
    (if \<exists>i\<in>set (identities old). ID i \<notin> ID ` set (identities new) \<and> key_of i = a then None
     else writes key_of ID (IdentityUpserts (diff old new)) (table key_of ID (identities old)) a)"
proof -
  have w: "identityMap w = table key_of ID (identities old)" "identityKeyByID w = table ID key_of (identities old)"
    using assms(2) by (simp_all add: installed_def)
  show ?thesis unfolding Apply_success(3) [OF assms(3)] w deleted_addresses [OF assms(1)] ..
qed

lemma diff_installed:
  assumes "wf_snapshot old" and "wf_snapshot new" and "installed old w" and "keeps_addresses old new"
    and "Apply E (diff old new) w = (None, w')"
  shows "installed new w'"
proof -
  have d: "distinct (map ID (identities old))" "distinct (map ID (identities new))"
    "distinct (map key_of (identities old))" "distinct (map key_of (identities new))"
    using assms(1,2) by (simp_all add: wf_snapshot_def)
  have kb: "identityKeyByID w = table ID key_of (identities old)" using assms(3) by (simp add: installed_def)
  have "identityMap w' = (\<lambda>a. if a \<in> {a. \<exists>i\<in>set (identities old). ID i \<notin> ID ` set (identities new) \<and> key_of i = a}
      then None else writes key_of ID (IdentityUpserts (diff old new)) (table key_of ID (identities old)) a)"
    using diff_identity_map [OF assms(1,3,5)] by (simp add: fun_eq_iff)
  also have "\<dots> = table key_of ID (identities new)"
  proof (rule table_update)
    fix a
    show "a \<in> {a. \<exists>i\<in>set (identities old). ID i \<notin> ID ` set (identities new) \<and> key_of i = a} \<longleftrightarrow>
        a \<in> key_of ` set (identities old) \<and> a \<notin> key_of ` set (identities new)"
      using assms(4) unfolding keeps_addresses_def by (auto simp: image_iff)
  qed (use d diff_sets(1) [OF assms(1)] in \<open>auto intro: diff_distinct\<close>)
  finally have ids: "identityMap w' = table key_of ID (identities new)" .
  have "identityKeyByID w' = table ID key_of (identities new)"
    unfolding Apply_success(4) [OF assms(5)] kb
  proof (rule table_update)
    fix i
    show "i \<in> set (IdentityDeletes (diff old new)) \<longleftrightarrow> i \<in> ID ` set (identities old) \<and> i \<notin> ID ` set (identities new)"
      unfolding diff_sets(3) [OF assms(1)] by blast
  qed (use d diff_sets(1) [OF assms(1)] in \<open>auto intro: diff_distinct\<close>)
  then show ?thesis using ids diff_policy_map [OF assms(1-3,5)] by (simp add: installed_def)
qed

text \<open>Where identities do not keep their addresses.\<close>

lemma moved_identity_keeps_old_address:
  assumes "wf_snapshot old" and "installed old w" and "Apply E (diff old new) w = (None, w')"
    and "i \<in> set (identities old)" and "ID i \<in> ID ` set (identities new)"
    and "key_of i \<notin> key_of ` set (identities new)"
  shows "identityMap w' (key_of i) = Some (ID i)"
proof -
  have d: "distinct (map key_of (identities old))" using assms(1) by (simp add: wf_snapshot_def)
  have "\<not> (\<exists>j\<in>set (identities old). ID j \<notin> ID ` set (identities new) \<and> key_of j = key_of i)"
    using d assms(4,5) by (metis distinct_map inj_onD)
  moreover have "key_of i \<notin> key_of ` set (IdentityUpserts (diff old new))"
    using assms(6) diff_sets(1) [OF assms(1)] by blast
  ultimately show ?thesis
    using diff_identity_map [OF assms(1-3)] writes_other table_Some [OF d assms(4)] by metis
qed

lemma reused_address_is_deleted:
  assumes "wf_snapshot old" and "installed old w" and "Apply E (diff old new) w = (None, w')"
    and "i \<in> set (identities old)" and "ID i \<notin> ID ` set (identities new)" and "key_of j = key_of i"
  shows "identityMap w' (key_of j) = None"
  using diff_identity_map [OF assms(1-3)] assms(4-6) by auto

text \<open>A plan only touches the keys of its two snapshots.\<close>

lemma diff_untouched:
  assumes "Apply E (diff old new) w = (err, w')"
    and "k \<notin> Key ` set (policies old)" and "k \<notin> Key ` set (policies new)"
  shows "policyMap w' (translatePolicyRuleKey k) = policyMap w (translatePolicyRuleKey k)"
proof -
  have "set (PolicyUpserts (diff old new)) \<subseteq> set (policies new)"
    "set (PolicyDeletes (diff old new)) \<subseteq> Key ` set (policies old)"
    by (auto simp: diff_def Let_def)
  then show ?thesis using Apply_policy_step [OF assms(1), of "translatePolicyRuleKey k"] assms(2,3) by auto
qed

lemma diff_between:
  assumes "wf_snapshot old" and "wf_snapshot new" and "installed old w"
    and "Apply E (diff old new) w = (err, w')"
  shows "policyMap w' q = policyMap w q \<or> policyMap w' q =
    table (translatePolicyRuleKey \<circ> Key) (translatePolicyVerdict \<circ> Verdict) (policies new) q"
proof -
  let ?t = "table (translatePolicyRuleKey \<circ> Key) (translatePolicyVerdict \<circ> Verdict) (policies new)"
  have d: "distinct (map (translatePolicyRuleKey \<circ> Key) (policies new))"
    using assms(2) distinct_translated unfolding wf_snapshot_def by blast
  consider "policyMap w' q = policyMap w q"
    | r where "r \<in> set (policies new)" "q = translatePolicyRuleKey (Key r)"
      "policyMap w' q = Some (translatePolicyVerdict (Verdict r))"
    | "q \<in> translatePolicyRuleKey ` (Key ` set (policies old) - Key ` set (policies new))" "policyMap w' q = None"
    using Apply_policy_step [OF assms(4), of q] unfolding diff_sets(2,4) [OF assms(1)]
    by (elim disjE bexE conjE) (simp_all only: Diff_iff, blast+)
  then show ?thesis
  proof cases
    case (2 r)
    then show ?thesis using table_Some [OF d 2(1), of "translatePolicyVerdict \<circ> Verdict"] by simp
  next
    case 3
    then have "?t q = None" unfolding table_None_iff by auto
    then show ?thesis using 3(2) by simp
  qed simp
qed

end

section \<open>Concrete map handles\<close>

text \<open>
  Handles that never fail, and handles that fail where a script says so: the world is the list of
  the outcomes of the coming calls, and a call past its end succeeds.
\<close>

definition delete_result :: "('k \<rightharpoonup> 'v) \<Rightarrow> 'k \<Rightarrow> ebpf_error option" where
  "delete_result m k = (if m k = None then Some ErrKeyNotExist else None)"

definition plain_ebpf :: "unit ebpf" where
  "plain_ebpf =
     \<lparr>identity_update = (\<lambda>x m k v. (None, m(k \<mapsto> v), x)),
      identity_delete = (\<lambda>x m k. (delete_result m k, m(k := None), x)),
      policy_update = (\<lambda>x m k v. (None, m(k \<mapsto> v), x)),
      policy_delete = (\<lambda>x m k. (delete_result m k, m(k := None), x))\<rparr>"

definition scripted ::
  "bool list \<Rightarrow> 'm \<Rightarrow> ebpf_error option \<times> 'm \<Rightarrow> ebpf_error option \<times> 'm \<times> bool list" where
  "scripted x old r =
     (case x of
        True # y \<Rightarrow> (Some (Ebpf_Errno 7), old, y)
      | False # y \<Rightarrow> (fst r, snd r, y)
      | [] \<Rightarrow> (fst r, snd r, []))"

definition scripted_ebpf :: "bool list ebpf" where
  "scripted_ebpf =
     \<lparr>identity_update = (\<lambda>x m k v. scripted x m (None, m(k \<mapsto> v))),
      identity_delete = (\<lambda>x m k. scripted x m (delete_result m k, m(k := None))),
      policy_update = (\<lambda>x m k v. scripted x m (None, m(k \<mapsto> v))),
      policy_delete = (\<lambda>x m k. scripted x m (delete_result m k, m(k := None)))\<rparr>"

interpretation plain: live_ebpf plain_ebpf
  by unfold_locales (auto simp: plain_ebpf_def delete_result_def fun_upd_idem split: if_splits)

interpretation scripted: ebpf_maps scripted_ebpf
  by unfold_locales
    (auto simp: scripted_ebpf_def scripted_def delete_result_def fun_upd_idem
      split: if_splits list.splits bool.splits)

end
