(* ===== verification/Go_Json.thy ===== *)
theory Go_Json
  imports Go_Prelude
begin

text \<open>
  The part of Go's \<open>encoding/json\<close> that the wire contract rests on: printing and parsing of text,
  decoding into a struct of unsigned integers, strings and raw messages with unknown fields
  disallowed, and \<open>Decoder.More\<close>. Text is the sequence of its bytes.
\<close>

unbundle bit_operations_syntax

section \<open>UTF-8\<close>

abbreviation byte_of :: "char \<Rightarrow> nat" where
  "byte_of \<equiv> of_char"

definition between :: "nat \<Rightarrow> nat \<Rightarrow> nat \<Rightarrow> bool" where
  "between lo hi b \<longleftrightarrow> lo \<le> b \<and> b \<le> hi"

definition cont :: "nat \<Rightarrow> bool" where
  "cont b \<longleftrightarrow> between 0x80 0xbf b"

text \<open>
  The length of the rune at the head of a string, and 0 where the bytes are not valid UTF-8
  (\<open>utf8.DecodeRuneInString\<close> returns \<open>RuneError\<close> with width 1).
\<close>

definition rune_len :: "string \<Rightarrow> nat" where
  "rune_len s =
     (case map byte_of (take 4 s) of
        [] \<Rightarrow> 0
      | a # bs \<Rightarrow>
          if a < 0x80 then 1
          else if between 0xc2 0xdf a then (case bs of b # _ \<Rightarrow> if cont b then 2 else 0 | _ \<Rightarrow> 0)
          else if between 0xe0 0xef a then
            (case bs of
               b # c # _ \<Rightarrow>
                 if between (if a = 0xe0 then 0xa0 else 0x80) (if a = 0xed then 0x9f else 0xbf) b \<and> cont c
                 then 3 else 0
             | _ \<Rightarrow> 0)
          else if between 0xf0 0xf4 a then
            (case bs of
               b # c # d # _ \<Rightarrow>
                 if between (if a = 0xf0 then 0x90 else 0x80) (if a = 0xf4 then 0x8f else 0xbf) b \<and>
                    cont c \<and> cont d then 4 else 0
             | _ \<Rightarrow> 0)
          else 0)"

text \<open>\<open>utf8.EncodeRune\<close>.\<close>

definition encode_rune :: "nat \<Rightarrow> string" where
  "encode_rune r =
     map char_of
       (if r < 0x80 then [r]
        else if r < 0x800 then [0xc0 + r div 64, 0x80 + r mod 64]
        else if r < 0x10000 then [0xe0 + r div 4096, 0x80 + r div 64 mod 64, 0x80 + r mod 64]
        else [0xf0 + r div 262144, 0x80 + r div 4096 mod 64, 0x80 + r div 64 mod 64, 0x80 + r mod 64])"

section \<open>Printing\<close>

definition quote :: char where [simp]: "quote = CHR 0x22"
definition backslash :: char where [simp]: "backslash = CHR 0x5c"

definition hex_digit :: "nat \<Rightarrow> char" where
  "hex_digit d = char_of (if d < 10 then 48 + d else 87 + d)"

definition u_escape :: "nat \<Rightarrow> string" where
  "u_escape r = [backslash, CHR ''u'', hex_digit (r div 4096), hex_digit (r div 256 mod 16),
     hex_digit (r div 16 mod 16), hex_digit (r mod 16)]"

text \<open>\<open>appendString\<close> with HTML escaping, for a byte below \<open>0x80\<close>.\<close>

definition escape_ascii :: "char \<Rightarrow> string" where
  "escape_ascii c =
     (if c = quote \<or> c = backslash then [backslash, c]
      else if c = CHR 0x08 then [backslash, CHR ''b'']
      else if c = CHR 0x0c then [backslash, CHR ''f'']
      else if c = CHR 0x0a then [backslash, CHR ''n'']
      else if c = CHR 0x0d then [backslash, CHR ''r'']
      else if c = CHR 0x09 then [backslash, CHR ''t'']
      else if byte_of c < 0x20 \<or> c = CHR ''<'' \<or> c = CHR ''>'' \<or> c = CHR ''&''
      then u_escape (byte_of c)
      else [c])"

function escape :: "string \<Rightarrow> string" where
  "escape s =
     (case s of
        [] \<Rightarrow> []
      | c # cs \<Rightarrow>
          if byte_of c < 0x80 then escape_ascii c @ escape cs
          else if rune_len s = 0 then u_escape 0xfffd @ escape cs
          else if take 3 s = encode_rune 0x2028 then u_escape 0x2028 @ escape (drop 3 s)
          else if take 3 s = encode_rune 0x2029 then u_escape 0x2029 @ escape (drop 3 s)
          else take (rune_len s) s @ escape (drop (rune_len s) s))"
  by pat_completeness auto
termination
  by (relation "measure length") auto

declare escape.simps [simp del]

definition print_string :: "string \<Rightarrow> string" where
  "print_string s = [quote] @ escape s @ [quote]"

text \<open>\<open>json.Marshal\<close> of a struct: the members in declaration order, already printed.\<close>

fun print_members :: "(string \<times> string) list \<Rightarrow> string" where
  "print_members [] = []"
| "print_members [(k, v)] = print_string k @ '':'' @ v"
| "print_members ((k, v) # m # ms) = print_string k @ '':'' @ v @ '','' @ print_members (m # ms)"

definition print_object :: "(string \<times> string) list \<Rightarrow> string" where
  "print_object ms = ''{'' @ print_members ms @ ''}''"

section \<open>Scanning\<close>

definition is_space :: "char \<Rightarrow> bool" where
  "is_space c \<longleftrightarrow> c = CHR '' '' \<or> c = CHR 0x09 \<or> c = CHR 0x0a \<or> c = CHR 0x0d"

definition skip_ws :: "string \<Rightarrow> string" where
  "skip_ws = dropWhile is_space"

definition hex_value :: "char \<Rightarrow> nat option" where
  "hex_value c =
     (let b = byte_of c
      in if between 48 57 b then Some (b - 48)
         else if between 97 102 b then Some (b - 87)
         else if between 65 70 b then Some (b - 55)
         else None)"

text \<open>\<open>getu4\<close>: the value of \<open>\\\<close>\<open>uXXXX\<close> at the head of the input.\<close>

definition hex4 :: "string \<Rightarrow> nat option" where
  "hex4 s =
     (case map hex_value (take 4 s) of
        [Some a, Some b, Some c, Some d] \<Rightarrow> Some (((a * 16 + b) * 16 + c) * 16 + d)
      | _ \<Rightarrow> None)"

definition getu4 :: "string \<Rightarrow> nat option" where
  "getu4 s = (if take 2 s = [backslash, CHR ''u''] then hex4 (drop 2 s) else None)"

definition is_surrogate :: "nat \<Rightarrow> bool" where
  "is_surrogate r \<longleftrightarrow> between 0xd800 0xdfff r"

definition surrogate_pair :: "nat \<Rightarrow> nat \<Rightarrow> nat option" where
  "surrogate_pair r r1 =
     (if between 0xd800 0xdbff r \<and> between 0xdc00 0xdfff r1
      then Some ((r - 0xd800) * 1024 + (r1 - 0xdc00) + 0x10000) else None)"

text \<open>What follows a backslash: the text it stands for and the rest of the input.\<close>

definition unescape :: "char \<Rightarrow> string \<Rightarrow> (string \<times> string) option" where
  "unescape e r =
     (if e = quote \<or> e = backslash \<or> e = CHR ''/'' then Some ([e], r)
      else if e = CHR ''b'' then Some ([CHR 0x08], r)
      else if e = CHR ''f'' then Some ([CHR 0x0c], r)
      else if e = CHR ''n'' then Some ([CHR 0x0a], r)
      else if e = CHR ''r'' then Some ([CHR 0x0d], r)
      else if e = CHR ''t'' then Some ([CHR 0x09], r)
      else if e = CHR ''u'' then
        (case hex4 r of
           None \<Rightarrow> None
         | Some rr \<Rightarrow>
             if \<not> is_surrogate rr then Some (encode_rune rr, drop 4 r)
             else case Option.bind (getu4 (drop 4 r)) (surrogate_pair rr) of
                 Some dec \<Rightarrow> Some (encode_rune dec, drop 10 r)
               | None \<Rightarrow> Some (encode_rune 0xfffd, drop 4 r))
      else None)"

lemma unescape_shorter: "unescape e r = Some (t, r') \<Longrightarrow> length r' \<le> length r"
  by (auto simp: unescape_def split: if_splits option.splits)

text \<open>A string literal after its opening quote.\<close>

function scan_string :: "string \<Rightarrow> (string \<times> string) option" where
  "scan_string s =
     (case s of
        [] \<Rightarrow> None
      | c # cs \<Rightarrow>
          if c = quote then Some ([], cs)
          else if c = backslash then
            (case cs of
               [] \<Rightarrow> None
             | e # r \<Rightarrow>
                 (case unescape e r of
                    None \<Rightarrow> None
                  | Some (t, r') \<Rightarrow> map_option (\<lambda>(u, q). (t @ u, q)) (scan_string r')))
          else if byte_of c < 0x20 then None
          else if byte_of c < 0x80 then map_option (\<lambda>(u, q). (c # u, q)) (scan_string cs)
          else if rune_len s = 0
          then map_option (\<lambda>(u, q). (encode_rune 0xfffd @ u, q)) (scan_string cs)
          else map_option (\<lambda>(u, q). (take (rune_len s) s @ u, q)) (scan_string (drop (rune_len s) s)))"
  by pat_completeness auto
termination
  by (relation "measure length") (auto dest!: unescape_shorter)

declare scan_string.simps [simp del]

text \<open>A number literal: sign, integer part, fraction and exponent.\<close>

definition digits :: "string \<Rightarrow> string \<times> string" where
  "digits s = (takeWhile is_digit s, dropWhile is_digit s)"

definition scan_sign :: "string \<Rightarrow> string \<times> string" where
  "scan_sign s = (case s of c # cs \<Rightarrow> if c = CHR ''-'' then ([c], cs) else ([], s) | [] \<Rightarrow> ([], []))"

definition scan_int :: "string \<Rightarrow> (string \<times> string) option" where
  "scan_int s =
     (case s of
        [] \<Rightarrow> None
      | c # cs \<Rightarrow>
          if c = CHR ''0'' then Some ([c], cs)
          else if is_digit c then Some (digits s)
          else None)"

definition scan_frac :: "string \<Rightarrow> (string \<times> string) option" where
  "scan_frac s =
     (case s of
        c # cs \<Rightarrow>
          if c = CHR ''.'' then
            (case digits cs of (ds, r) \<Rightarrow> if ds = [] then None else Some (c # ds, r))
          else Some ([], s)
      | [] \<Rightarrow> Some ([], []))"

definition scan_exp :: "string \<Rightarrow> (string \<times> string) option" where
  "scan_exp s =
     (case s of
        c # cs \<Rightarrow>
          if c = CHR ''e'' \<or> c = CHR ''E'' then
            (let (sg, t) = (case cs of x # xs \<Rightarrow> if x = CHR ''+'' \<or> x = CHR ''-'' then ([x], xs) else ([], cs)
                            | [] \<Rightarrow> ([], []))
             in case digits t of (ds, r) \<Rightarrow> if ds = [] then None else Some (c # sg @ ds, r))
          else Some ([], s)
      | [] \<Rightarrow> Some ([], []))"

definition scan_number :: "string \<Rightarrow> (string \<times> string) option" where
  "scan_number s =
     (case scan_sign s of (sg, a) \<Rightarrow>
      Option.bind (scan_int a) (\<lambda>(i, b).
      Option.bind (scan_frac b) (\<lambda>(f, c).
      map_option (\<lambda>(e, r). (sg @ i @ f @ e, r)) (scan_exp c))))"

section \<open>Parsing\<close>

text \<open>A member of an object is kept with the text of its value, for \<open>json.RawMessage\<close>.\<close>

datatype json =
    JNull
  | JBool bool
  | JNum string
  | JStr string
  | JArr "json list"
  | JObj "(string \<times> string \<times> json) list"

definition scan_literal :: "string \<Rightarrow> (json \<times> string) option" where
  "scan_literal s =
     (if take 4 s = ''null'' then Some (JNull, drop 4 s)
      else if take 4 s = ''true'' then Some (JBool True, drop 4 s)
      else if take 5 s = ''false'' then Some (JBool False, drop 5 s)
      else map_option (\<lambda>(l, r). (JNum l, r)) (scan_number s))"

text \<open>
  The first argument bounds the recursion; the input has more bytes than there are nested calls.
  The second is the nesting that \<open>maxNestingDepth\<close> still allows.
\<close>

fun parse_value :: "nat \<Rightarrow> nat \<Rightarrow> string \<Rightarrow> (json \<times> string) option"
  and parse_members :: "nat \<Rightarrow> nat \<Rightarrow> string \<Rightarrow> ((string \<times> string \<times> json) list \<times> string) option"
  and parse_elements :: "nat \<Rightarrow> nat \<Rightarrow> string \<Rightarrow> (json list \<times> string) option" where
  "parse_value 0 depth s = None"
| "parse_value (Suc n) depth s =
     (case skip_ws s of
        [] \<Rightarrow> None
      | c # cs \<Rightarrow>
          if c = CHR ''{'' then
            if depth = 0 then None
            else if take 1 (skip_ws cs) = ''}'' then Some (JObj [], drop 1 (skip_ws cs))
            else map_option (\<lambda>(ms, r). (JObj ms, r)) (parse_members n (depth - 1) cs)
          else if c = CHR ''['' then
            if depth = 0 then None
            else if take 1 (skip_ws cs) = '']'' then Some (JArr [], drop 1 (skip_ws cs))
            else map_option (\<lambda>(vs, r). (JArr vs, r)) (parse_elements n (depth - 1) cs)
          else if c = quote then map_option (\<lambda>(t, r). (JStr t, r)) (scan_string cs)
          else scan_literal (c # cs))"
| "parse_members 0 depth s = None"
| "parse_members (Suc n) depth s =
     (case skip_ws s of
        [] \<Rightarrow> None
      | c # cs \<Rightarrow>
          if c \<noteq> quote then None
          else case scan_string cs of
            None \<Rightarrow> None
          | Some (k, r) \<Rightarrow>
              if take 1 (skip_ws r) \<noteq> '':'' then None
              else let t = skip_ws (drop 1 (skip_ws r))
                   in case parse_value n depth t of
                        None \<Rightarrow> None
                      | Some (v, q) \<Rightarrow>
                          let m = (k, take (length t - length q) t, v)
                          in if take 1 (skip_ws q) = ''}'' then Some ([m], drop 1 (skip_ws q))
                             else if take 1 (skip_ws q) = '','' then
                               map_option (\<lambda>(ms, z). (m # ms, z)) (parse_members n depth (drop 1 (skip_ws q)))
                             else None)"
| "parse_elements 0 depth s = None"
| "parse_elements (Suc n) depth s =
     (case parse_value n depth s of
        None \<Rightarrow> None
      | Some (v, q) \<Rightarrow>
          if take 1 (skip_ws q) = '']'' then Some ([v], drop 1 (skip_ws q))
          else if take 1 (skip_ws q) = '','' then
            map_option (\<lambda>(vs, z). (v # vs, z)) (parse_elements n depth (drop 1 (skip_ws q)))
          else None)"

definition maxNestingDepth :: nat where "maxNestingDepth = 10000"

text \<open>
  \<open>Decoder.Decode\<close> reads one value. An object or array ends at its closing bracket; any other value
  must be followed by white space or the end of the input.
\<close>

definition read_value :: "string \<Rightarrow> (json \<times> string) option" where
  "read_value s =
     (case parse_value (Suc (2 * length s)) maxNestingDepth s of
        None \<Rightarrow> None
      | Some (v, r) \<Rightarrow>
          (case v of
             JObj _ \<Rightarrow> Some (v, r)
           | JArr _ \<Rightarrow> Some (v, r)
           | _ \<Rightarrow> if r = [] \<or> is_space (hd r) then Some (v, r) else None))"

text \<open>\<open>Decoder.More\<close> after a top-level value.\<close>

definition decoder_more :: "string \<Rightarrow> bool" where
  "decoder_more r =
     (case skip_ws r of [] \<Rightarrow> False | c # _ \<Rightarrow> c \<noteq> CHR '']'' \<and> c \<noteq> CHR ''}'')"

section \<open>Decoding into a struct\<close>

datatype field_kind =
    FUint nat
  | FString
  | FRaw

datatype field_value =
    VUint nat
  | VString string
  | VRaw string

definition zero_value :: "field_kind \<Rightarrow> field_value" where
  "zero_value k = (case k of FUint _ \<Rightarrow> VUint 0 | FString \<Rightarrow> VString [] | FRaw \<Rightarrow> VRaw [])"

text \<open>
  \<open>literalStore\<close>: a number must be a plain decimal in range, \<open>null\<close> leaves the field alone, and a
  raw message takes the text of any value.
\<close>

definition store_field :: "field_kind \<Rightarrow> string \<Rightarrow> json \<Rightarrow> field_value \<Rightarrow> field_value option" where
  "store_field k raw v old =
     (case k of
        FRaw \<Rightarrow> Some (VRaw raw)
      | FString \<Rightarrow> (case v of JStr t \<Rightarrow> Some (VString t) | JNull \<Rightarrow> Some old | _ \<Rightarrow> None)
      | FUint w \<Rightarrow>
          (case v of
             JNum l \<Rightarrow>
               if list_all is_digit l \<and> digits_value l < 2 ^ w then Some (VUint (digits_value l)) else None
           | JNull \<Rightarrow> Some old
           | _ \<Rightarrow> None))"

text \<open>\<open>foldName\<close>: ASCII letters in upper case, and the two other runes that fold to a letter.\<close>

fun fold_bytes :: "nat list \<Rightarrow> nat list" where
  "fold_bytes [] = []"
| "fold_bytes (a # as) =
     (if a = 0xc5 \<and> take 1 as = [0xbf] then 0x53 # fold_bytes (drop 1 as)
      else if a = 0xe2 \<and> take 2 as = [0x84, 0xaa] then 0x4b # fold_bytes (drop 2 as)
      else (if between 97 122 a then a - 32 else a) # fold_bytes as)"

definition fold_name :: "string \<Rightarrow> nat list" where
  "fold_name s = fold_bytes (map byte_of s)"

type_synonym layout = "(string \<times> field_kind) list"

definition find_field :: "layout \<Rightarrow> string \<Rightarrow> (string \<times> field_kind) option" where
  "find_field l k =
     (case find (\<lambda>f. fst f = k) l of
        Some f \<Rightarrow> Some f
      | None \<Rightarrow> find (\<lambda>f. fold_name (fst f) = fold_name k) l)"

definition store_member ::
  "layout \<Rightarrow> string \<times> string \<times> json \<Rightarrow> (string \<rightharpoonup> field_value) \<Rightarrow> unit + (string \<rightharpoonup> field_value)" where
  "store_member l = (\<lambda>(k, raw, v) vals.
     case find_field l k of
       None \<Rightarrow> Inl ()
     | Some (f, kind) \<Rightarrow>
         (case store_field kind raw v (case vals f of Some x \<Rightarrow> x | None \<Rightarrow> zero_value kind) of
            None \<Rightarrow> Inl ()
          | Some x \<Rightarrow> Inr (vals(f \<mapsto> x))))"

definition zero_struct :: "layout \<Rightarrow> string \<rightharpoonup> field_value" where
  "zero_struct l = map_of (map (\<lambda>(f, k). (f, zero_value k)) l)"

definition decode_struct :: "layout \<Rightarrow> json \<Rightarrow> unit + (string \<rightharpoonup> field_value)" where
  "decode_struct l v =
     (case v of
        JObj ms \<Rightarrow> for_each (store_member l) ms (zero_struct l)
      | JNull \<Rightarrow> Inr (zero_struct l)
      | _ \<Rightarrow> Inl ())"

end
