(* ===== verification/Cc2_Codec.thy ===== *)
theory Cc2_Codec
  imports Go_Json Wire_Types
begin

text \<open>
  \<^verbatim>\<open>internal/cc2/codec.go\<close>: the versioned JSON encoding of compiled rules and identities. The
  protobuf wrapping (\<open>anypb\<close> around \<open>wrapperspb.BytesValue\<close>) is a parameter: \<open>pack\<close> and \<open>unpack\<close>.
\<close>

section \<open>Layouts\<close>

definition SchemaVersion :: nat where [simp]: "SchemaVersion = 1"
definition KindPolicyRule :: string where [simp]: "KindPolicyRule = ''PolicyRule''"
definition KindIdentity :: string where [simp]: "KindIdentity = ''Identity''"

definition envelope :: layout where
  "envelope = [(''schema_version'', FUint 32), (''kind'', FString), (''spec'', FRaw)]"

definition policySpec :: layout where
  "policySpec =
     [(''src_identity'', FUint 32), (''dst_identity'', FUint 32), (''dst_port'', FUint 16),
      (''protocol'', FUint 8), (''direction'', FUint 8), (''action'', FUint 8), (''flags'', FUint 8)]"

definition identitySpec :: layout where
  "identitySpec =
     [(''id'', FUint 32), (''spiffe_id'', FString), (''pod_ipv4'', FString),
      (''namespace'', FString), (''name'', FString)]"

section \<open>Encoding\<close>

record 'a anypb =
  pack :: "string \<Rightarrow> 'a option"
  unpack :: "'a \<Rightarrow> string option"

definition encode :: "'a anypb \<Rightarrow> string \<Rightarrow> (string \<times> string) list \<Rightarrow> 'a option" where
  "encode P kind spec =
     pack P (print_object
       [(''schema_version'', itoa SchemaVersion), (''kind'', print_string kind),
        (''spec'', print_object spec)])"

definition EncodePolicyRule :: "'a anypb \<Rightarrow> PolicyRule \<Rightarrow> 'a option" where
  "EncodePolicyRule P r =
     encode P KindPolicyRule
       [(''src_identity'', itoa (unat (SrcIdentity (Key r)))),
        (''dst_identity'', itoa (unat (DstIdentity (Key r)))),
        (''dst_port'', itoa (unat (DstPort (Key r)))),
        (''protocol'', itoa (unat (Protocol (Key r)))),
        (''direction'', itoa (unat (Direction (Key r)))),
        (''action'', itoa (unat (Action (Verdict r)))),
        (''flags'', itoa (unat (Flags (Verdict r))))]"

definition EncodeIdentity :: "'a anypb \<Rightarrow> Identity \<Rightarrow> 'a option" where
  "EncodeIdentity P i =
     encode P KindIdentity
       [(''id'', itoa (unat (ID i))),
        (''spiffe_id'', print_string (SpiffeID i)),
        (''pod_ipv4'', print_string (PodIPv4 i)),
        (''namespace'', print_string (Namespace i)),
        (''name'', print_string (Name i))]"

section \<open>Decoding\<close>

datatype cc2_error =
    Not_Bytes_Value
  | Bad_Envelope
  | Unsupported_Version nat
  | Wrong_Kind string string
  | Empty_Spec
  | Bad_Spec
  | Direction_Range nat
  | Action_Range nat

definition strictDecode :: "layout \<Rightarrow> string \<Rightarrow> unit + (string \<rightharpoonup> field_value)" where
  "strictDecode l data =
     (case read_value data of
        None \<Rightarrow> Inl ()
      | Some (v, rest) \<Rightarrow>
          and_then (decode_struct l v) (\<lambda>vals. if decoder_more rest then Inl () else Inr vals))"

definition uint_field :: "(string \<rightharpoonup> field_value) \<Rightarrow> string \<Rightarrow> nat" where
  "uint_field vals f = (case vals f of Some (VUint n) \<Rightarrow> n | _ \<Rightarrow> 0)"

definition text_field :: "(string \<rightharpoonup> field_value) \<Rightarrow> string \<Rightarrow> string" where
  "text_field vals f = (case vals f of Some (VString t) \<Rightarrow> t | Some (VRaw t) \<Rightarrow> t | _ \<Rightarrow> [])"

definition openEnvelope :: "'a anypb \<Rightarrow> 'a \<Rightarrow> string \<Rightarrow> cc2_error + string" where
  "openEnvelope P a wantKind =
     (case unpack P a of
        None \<Rightarrow> Inl Not_Bytes_Value
      | Some doc \<Rightarrow>
          (case strictDecode envelope doc of
             Inl _ \<Rightarrow> Inl Bad_Envelope
           | Inr env \<Rightarrow>
               if uint_field env ''schema_version'' \<noteq> SchemaVersion
               then Inl (Unsupported_Version (uint_field env ''schema_version''))
               else if text_field env ''kind'' \<noteq> wantKind
               then Inl (Wrong_Kind (text_field env ''kind'') wantKind)
               else if text_field env ''spec'' = [] then Inl Empty_Spec
               else Inr (text_field env ''spec'')))"

definition DecodePolicyRule :: "'a anypb \<Rightarrow> 'a \<Rightarrow> cc2_error + PolicyRule" where
  "DecodePolicyRule P a =
     and_then (openEnvelope P a KindPolicyRule) (\<lambda>raw.
     case strictDecode policySpec raw of
       Inl _ \<Rightarrow> Inl Bad_Spec
     | Inr s \<Rightarrow>
         if uint_field s ''direction'' > 1 then Inl (Direction_Range (uint_field s ''direction''))
         else if uint_field s ''action'' > unat PolicyActionRedirectProxy
         then Inl (Action_Range (uint_field s ''action''))
         else Inr \<lparr>Key = \<lparr>SrcIdentity = of_nat (uint_field s ''src_identity''),
                          DstIdentity = of_nat (uint_field s ''dst_identity''),
                          DstPort = of_nat (uint_field s ''dst_port''),
                          Protocol = of_nat (uint_field s ''protocol''),
                          Direction = of_nat (uint_field s ''direction'')\<rparr>,
                   Verdict = \<lparr>Action = of_nat (uint_field s ''action''),
                              Flags = of_nat (uint_field s ''flags'')\<rparr>\<rparr>)"

definition DecodeIdentity :: "'a anypb \<Rightarrow> 'a \<Rightarrow> cc2_error + Identity" where
  "DecodeIdentity P a =
     and_then (openEnvelope P a KindIdentity) (\<lambda>raw.
     case strictDecode identitySpec raw of
       Inl _ \<Rightarrow> Inl Bad_Spec
     | Inr s \<Rightarrow>
         Inr \<lparr>ID = of_nat (uint_field s ''id''), PodIPv4 = text_field s ''pod_ipv4'',
              SpiffeID = text_field s ''spiffe_id'', Namespace = text_field s ''namespace'',
              Name = text_field s ''name''\<rparr>)"

end
