(* ===== verification/Xds_Messages.thy ===== *)
theory Xds_Messages
  imports Go_Prelude
begin

text \<open>
  The discovery messages that the ADS server and the agent's client exchange, with the fields they
  use. The resource types are constants of the xDS library; what matters is that they differ.
\<close>

datatype type_url = ClusterType | EndpointType | ListenerType | RouteType | OtherType string

record 'a DiscoveryResponse =
  resp_TypeUrl :: type_url
  resp_VersionInfo :: string
  resp_Nonce :: string
  Resources :: "'a list"

record 'e DiscoveryRequest =
  req_TypeUrl :: type_url
  req_VersionInfo :: string
  ResponseNonce :: string
  ErrorDetail :: "'e option"

end
