(* ===== verification/Xds_Client.thy ===== *)
theory Xds_Client
  imports Datapath_Update Cc2_Codec Xds_Messages
begin

text \<open>
  \<^verbatim>\<open>internal/agent/xds\<close>: the agent's ADS client (\<^verbatim>\<open>client.go\<close>) and its reconnect schedule
  (\<^verbatim>\<open>backoff.go\<close>). A response is decoded, merged with the applied snapshot, applied through the
  writer, and acknowledged; every error is the \<open>error_detail\<close> of a refusal.
\<close>

section \<open>The client\<close>

record Client =
  applied :: snapshot
  accepted :: "type_url \<Rightarrow> string"

datatype client_error =
    Bad_Resource nat cc2_error
  | Unexpected_Resources nat type_url
  | Apply_Failed write_error

definition NewClient :: Client where
  "NewClient = \<lparr>applied = \<lparr>policies = [], identities = []\<rparr>, accepted = (\<lambda>_. [])\<rparr>"

definition subscribeTypes :: "type_url list" where
  "subscribeTypes = [ClusterType, EndpointType]"

definition subscription :: "type_url \<Rightarrow> client_error DiscoveryRequest" where
  "subscription t = \<lparr>req_TypeUrl = t, req_VersionInfo = [], ResponseNonce = [], ErrorDetail = None\<rparr>"

text \<open>The decoding loop of a channel.\<close>

fun decode_from :: "('a \<Rightarrow> cc2_error + 'r) \<Rightarrow> nat \<Rightarrow> 'a list \<Rightarrow> client_error + 'r list" where
  "decode_from f i [] = Inr []"
| "decode_from f i (res # resources) =
     (case f res of
        Inl e \<Rightarrow> Inl (Bad_Resource i e)
      | Inr x \<Rightarrow> and_then (decode_from f (Suc i) resources) (\<lambda>xs. Inr (x # xs)))"

definition candidateFor :: "'a anypb \<Rightarrow> 'a DiscoveryResponse \<Rightarrow> Client \<Rightarrow> client_error + snapshot" where
  "candidateFor P resp c =
     (case resp_TypeUrl resp of
        ClusterType \<Rightarrow>
          and_then (decode_from (DecodePolicyRule P) 0 (Resources resp))
            (\<lambda>ps. Inr ((applied c)\<lparr>policies := ps\<rparr>))
      | EndpointType \<Rightarrow>
          and_then (decode_from (DecodeIdentity P) 0 (Resources resp))
            (\<lambda>is. Inr ((applied c)\<lparr>identities := is\<rparr>))
      | t \<Rightarrow>
          if Resources resp \<noteq> [] then Inl (Unexpected_Resources (length (Resources resp)) t)
          else Inr (applied c))"

definition commit :: "type_url \<Rightarrow> string \<Rightarrow> snapshot \<Rightarrow> Client \<Rightarrow> Client" where
  "commit t version snap c = c\<lparr>applied := snap, accepted := (accepted c)(t := version)\<rparr>"

definition nack :: "'a DiscoveryResponse \<Rightarrow> client_error \<Rightarrow> Client \<Rightarrow> client_error DiscoveryRequest" where
  "nack resp e c =
     \<lparr>req_TypeUrl = resp_TypeUrl resp, req_VersionInfo = accepted c (resp_TypeUrl resp),
      ResponseNonce = resp_Nonce resp, ErrorDetail = Some e\<rparr>"

definition ack :: "'a DiscoveryResponse \<Rightarrow> client_error DiscoveryRequest" where
  "ack resp =
     \<lparr>req_TypeUrl = resp_TypeUrl resp, req_VersionInfo = resp_VersionInfo resp,
      ResponseNonce = resp_Nonce resp, ErrorDetail = None\<rparr>"

text \<open>
  \<open>handle\<close>: the request it sends, the plan it hands to the post-apply hook, and the client and writer
  afterwards. A failed plan keeps what the writer had written when it stopped.
\<close>

definition handle ::
  "'w ebpf \<Rightarrow> 'a anypb \<Rightarrow> 'a DiscoveryResponse \<Rightarrow> Client \<times> 'w writer \<Rightarrow>
   client_error DiscoveryRequest \<times> CommitPlan option \<times> Client \<times> 'w writer" where
  "handle E P resp = (\<lambda>(c, w).
     case candidateFor P resp c of
       Inl e \<Rightarrow> (nack resp e c, None, c, w)
     | Inr candidate \<Rightarrow>
         let plan = diff (applied c) candidate
         in case Apply E plan w of
              (Some e, w') \<Rightarrow> (nack resp (Apply_Failed e) c, None, c, w')
            | (None, w') \<Rightarrow>
                (ack resp, Some plan, commit (resp_TypeUrl resp) (resp_VersionInfo resp) candidate c, w'))"

section \<open>Reconnecting\<close>

text \<open>Durations are nanoseconds in a signed 64-bit integer.\<close>

type_synonym duration = int

definition reconnectBase :: duration where "reconnectBase = 200 * 1000000"
definition reconnectJitter :: duration where "reconnectJitter = 200 * 1000000"
definition reconnectMax :: duration where "reconnectMax = 30 * 1000000000"

fun backoff_loop :: "nat \<Rightarrow> duration \<times> duration \<Rightarrow> duration \<times> duration" where
  "backoff_loop 0 (lo, jitter) = (lo, jitter)"
| "backoff_loop (Suc n) (lo, jitter) =
     (if lo \<ge> reconnectMax then (lo, jitter) else backoff_loop n (lo * 2, jitter * 2))"

definition reconnectBackoffRange :: "int \<Rightarrow> duration \<times> duration" where
  "reconnectBackoffRange attempt =
     (case backoff_loop (nat attempt) (reconnectBase, reconnectJitter) of
        (lo, jitter) \<Rightarrow>
          if lo \<ge> reconnectMax then (reconnectMax, reconnectMax)
          else (lo, if lo + jitter > reconnectMax then reconnectMax else lo + jitter))"

text \<open>\<open>rand.Int63n\<close> is an argument: any function with a result in its range.\<close>

definition reconnectDelay :: "(int \<Rightarrow> int) \<Rightarrow> int \<Rightarrow> duration" where
  "reconnectDelay int63n attempt =
     (case reconnectBackoffRange attempt of
        (lo, hi) \<Rightarrow> if hi \<le> lo then lo else lo + int63n (hi - lo))"

definition reconnectAttemptAfter :: "int \<Rightarrow> bool \<Rightarrow> int" where
  "reconnectAttemptAfter attempt progressed = (if progressed then 0 else attempt)"

text \<open>
  \<open>Run\<close> over a sequence of streams, each of which made progress or not: the delays before the
  reconnects.
\<close>

fun reconnect_delays :: "(int \<Rightarrow> int) \<Rightarrow> int \<Rightarrow> bool list \<Rightarrow> duration list" where
  "reconnect_delays int63n attempt [] = []"
| "reconnect_delays int63n attempt (progressed # streams) =
     (let a = reconnectAttemptAfter attempt progressed
      in reconnectDelay int63n a # reconnect_delays int63n (a + 1) streams)"

section \<open>The reconnect schedule\<close>

lemma backoff_loop_closed:
  assumes "0 < lo"
  shows "case backoff_loop n (lo, lo) of (lo', jitter') \<Rightarrow>
    jitter' = lo' \<and> (lo' = lo * 2 ^ n \<or> reconnectMax \<le> lo' \<and> lo' \<le> lo * 2 ^ n)"
  using assms
proof (induction n arbitrary: lo)
  case (Suc n)
  show ?case
  proof (cases "reconnectMax \<le> lo")
    case True
    moreover have "1 \<le> (2::int) * 2 ^ n" using one_le_power [of "2::int" "Suc n"] by simp
    ultimately show ?thesis using Suc.prems by simp
  next
    case False
    then show ?thesis using Suc.IH [of "lo * 2"] Suc.prems by (simp add: mult.assoc)
  qed
qed simp

lemma reconnectBackoffRange_closed:
  "reconnectBackoffRange (int k) = (min (reconnectBase * 2 ^ k) reconnectMax, min (2 * reconnectBase * 2 ^ k) reconnectMax)"
proof -
  obtain lo jitter where l: "backoff_loop k (reconnectBase, reconnectJitter) = (lo, jitter)" by fastforce
  have "reconnectJitter = reconnectBase" "0 < reconnectBase" by (simp_all add: reconnectJitter_def reconnectBase_def)
  then have lo: "jitter = lo" "lo = reconnectBase * 2 ^ k \<or> reconnectMax \<le> lo \<and> lo \<le> reconnectBase * 2 ^ k"
    using backoff_loop_closed [of reconnectBase k] l by simp_all
  have window: "(if lo \<ge> reconnectMax then (reconnectMax, reconnectMax)
      else (lo, if lo + jitter > reconnectMax then reconnectMax else lo + jitter)) = (min x reconnectMax, min (2 * x) reconnectMax)"
    if "0 < x" "lo = x \<or> reconnectMax \<le> lo \<and> lo \<le> x" for x
    using that lo(1) by (auto simp: min_def)
  have "0 < reconnectBase * 2 ^ k" using \<open>0 < reconnectBase\<close> by simp
  from window [OF this lo(2)] show ?thesis by (simp add: reconnectBackoffRange_def l mult.assoc)
qed

lemma reconnect_delays_tail:
  "last (reconnect_delays rng (int a) (replicate (Suc j) False)) = reconnectDelay rng (int (a + j))"
proof (induction j arbitrary: a)
  case (Suc j)
  have "last (reconnect_delays rng (int (Suc a)) (replicate (Suc j) False)) = reconnectDelay rng (int (Suc a + j))"
    by (rule Suc.IH)
  then show ?case by (simp add: Let_def reconnectAttemptAfter_def add.commute)
qed (simp add: Let_def reconnectAttemptAfter_def)

lemma reconnect_delays_nonempty [simp]: "reconnect_delays rng a xs = [] \<longleftrightarrow> xs = []"
  by (cases xs) (simp_all add: Let_def)

lemma reconnect_delays_last:
  "last (reconnect_delays rng a (xs @ True # replicate j False)) = reconnectDelay rng (int j)"
proof (induction xs arbitrary: a)
  case Nil
  show ?case
  proof (cases j)
    case (Suc i)
    then show ?thesis
      using reconnect_delays_tail [of rng 1 i] by (simp add: Let_def reconnectAttemptAfter_def)
  qed (simp add: Let_def reconnectAttemptAfter_def)
qed (simp add: Let_def)

text \<open>
  C38. The reconnect schedule of the agent: the delay after a stream that made progress followed by
  \<open>j\<close> streams that did not lies between \<open>200 ms * 2^j\<close> and twice that, both capped at 30 s, whatever
  happened before. So the first retry after a working stream waits less than 400 ms, and no retry waits
  longer than 30 s.
\<close>

theorem reconnect_schedule:
  assumes "\<And>n. 0 < n \<Longrightarrow> 0 \<le> rng n \<and> rng n < n"
  shows "last (reconnect_delays rng a (xs @ True # replicate j False)) \<in>
    {min (reconnectBase * 2 ^ j) reconnectMax .. min (2 * reconnectBase * 2 ^ j) reconnectMax}"
proof -
  define lo hi where "lo = min (reconnectBase * 2 ^ j) reconnectMax" and "hi = min (2 * reconnectBase * 2 ^ j) reconnectMax"
  have "reconnectBase * 2 ^ j \<le> 2 * reconnectBase * 2 ^ j" by (simp add: reconnectBase_def)
  then have "lo \<le> hi" unfolding lo_def hi_def by (rule min.mono) simp
  moreover have "reconnectDelay rng (int j) = (if hi \<le> lo then lo else lo + rng (hi - lo))"
    by (simp add: reconnectDelay_def reconnectBackoffRange_closed lo_def hi_def)
  ultimately show ?thesis
    using assms [of "hi - lo"] unfolding reconnect_delays_last lo_def [symmetric] hi_def [symmetric] by auto
qed

theorem reconnect_schedule_witness:
  "last (reconnect_delays (\<lambda>n. n - 1) 9 [False, True, False, False]) \<in> {800000000 .. 1600000000}"
proof -
  have "last (reconnect_delays (\<lambda>n. n - 1) 9 ([False] @ True # replicate 2 False)) \<in>
    {min (reconnectBase * 2 ^ 2) reconnectMax .. min (2 * reconnectBase * 2 ^ 2) reconnectMax}"
    by (rule reconnect_schedule) simp
  moreover have "[False] @ True # replicate 2 False = [False, True, False, False]" by (simp add: numeral_2_eq_2)
  ultimately show ?thesis by (simp only:) (simp add: reconnectBase_def reconnectMax_def)
qed

end
