(* ===== verification/Json_Roundtrip.thy ===== *)
theory Json_Roundtrip
  imports Go_Json
begin

text \<open>
  Printed text parses back. Strings of valid UTF-8, decimal numbers and objects of printed members
  are read as what was printed, with the text of each member, whatever follows the value.
\<close>

section \<open>Strings\<close>

function valid_utf8 :: "string \<Rightarrow> bool" where
  "valid_utf8 s = 
     (case s of [] \<Rightarrow> True
      | _ # _ \<Rightarrow> if rune_len s = 0 then False else valid_utf8 (drop (rune_len s) s))"
  by pat_completeness auto
termination
  by (relation "measure length") auto

declare valid_utf8.simps [simp del]

lemma hex_value_digit [simp]: "d < 16 \<Longrightarrow> hex_value (hex_digit d) = Some d"
  by (auto simp: hex_value_def hex_digit_def between_def Let_def)

lemma hex4_u_escape: "r < 65536 \<Longrightarrow> hex4 (drop 2 (u_escape r) @ t) = Some r"
proof -
  assume r: "r < 65536"
  then have "r div 4096 < 16" by (simp add: div_less_iff_less_mult)
  moreover have "((r div 4096 * 16 + r div 256 mod 16) * 16 + r div 16 mod 16) * 16 + r mod 16 = r"
    by (simp add: div_mult2_eq [of r 256 16, simplified] div_mult2_eq [of r 16 16, simplified])
  ultimately show ?thesis by (simp add: hex4_def u_escape_def)
qed

lemma scan_string_step:
  "scan_string (CHR 0x22 # r) = Some ([], r)"
  "scan_string (CHR 0x5c # e # r) = (case unescape e r of None \<Rightarrow> None
     | Some (t, r') \<Rightarrow> map_option (\<lambda>(u, q). (t @ u, q)) (scan_string r'))"
  "c \<noteq> CHR 0x22 \<Longrightarrow> c \<noteq> CHR 0x5c \<Longrightarrow> \<not> byte_of c < 0x20 \<Longrightarrow> byte_of c < 0x80 \<Longrightarrow>
     scan_string (c # r) = map_option (\<lambda>(u, q). (c # u, q)) (scan_string r)"
  using scan_string.simps [of "CHR 0x22 # r"] scan_string.simps [of "CHR 0x5c # e # r"]
    scan_string.simps [of "c # r"] by simp_all

lemma scan_u_escape:
  assumes "r < 65536" and "\<not> is_surrogate r"
  shows "scan_string (u_escape r @ t) = map_option (\<lambda>(u, q). (encode_rune r @ u, q)) (scan_string t)"
proof -
  obtain h where h: "u_escape r = CHR 0x5c # CHR ''u'' # h" "length h = 4" by (simp add: u_escape_def)
  have "hex4 (h @ t) = Some r" using hex4_u_escape [OF assms(1), of t] h by simp
  then have "unescape (CHR ''u'') (h @ t) = Some (encode_rune r, t)"
    using assms(2) h(2) by (simp add: unescape_def)
  then show ?thesis by (simp add: h scan_string_step)
qed

lemma scan_escape_ascii:
  assumes "byte_of c < 0x80"
  shows "scan_string (escape_ascii c @ t) = map_option (\<lambda>(u, q). (c # u, q)) (scan_string t)"
proof (cases "byte_of c < 0x20 \<or> c = CHR ''<'' \<or> c = CHR ''>'' \<or> c = CHR ''&''")
  case True
  have e: "encode_rune (byte_of c) = [c]" using assms by (simp add: encode_rune_def)
  have "\<not> is_surrogate (byte_of c)" using assms by (simp add: is_surrogate_def between_def)
  then have u: "scan_string (u_escape (byte_of c) @ t) = map_option (\<lambda>(u, q). (c # u, q)) (scan_string t)"
    using scan_u_escape [of "byte_of c" t] assms by (simp add: e)
  show ?thesis
  proof (cases "c = CHR 0x08 \<or> c = CHR 0x0c \<or> c = CHR 0x0a \<or> c = CHR 0x0d \<or> c = CHR 0x09")
    case True
    then show ?thesis
      by (elim disjE) (simp_all add: escape_ascii_def scan_string_step unescape_def)
  next
    case other: False
    have "c \<noteq> quote" "c \<noteq> backslash" using True by auto
    then have "escape_ascii c = u_escape (byte_of c)" using True other by (simp add: escape_ascii_def)
    then show ?thesis using u by simp
  qed
next
  case False
  then have "c \<noteq> CHR 0x08" "c \<noteq> CHR 0x0c" "c \<noteq> CHR 0x0a" "c \<noteq> CHR 0x0d" "c \<noteq> CHR 0x09" by auto
  then have "escape_ascii c = (if c = quote \<or> c = backslash then [backslash, c] else [c])"
    using False by (simp add: escape_ascii_def)
  then show ?thesis
    using False assms by (cases "c = quote \<or> c = backslash") (auto simp: scan_string_step unescape_def)
qed

text \<open>The four shapes of a valid rune.\<close>

definition wide2 :: "char \<Rightarrow> char \<Rightarrow> bool" where
  "wide2 a b \<longleftrightarrow> between 0xc2 0xdf (byte_of a) \<and> cont (byte_of b)"

definition wide3 :: "char \<Rightarrow> char \<Rightarrow> char \<Rightarrow> bool" where
  "wide3 a b c \<longleftrightarrow> between 0xe0 0xef (byte_of a) \<and> cont (byte_of c) \<and>
     between (if byte_of a = 0xe0 then 0xa0 else 0x80) (if byte_of a = 0xed then 0x9f else 0xbf) (byte_of b)"

definition wide4 :: "char \<Rightarrow> char \<Rightarrow> char \<Rightarrow> char \<Rightarrow> bool" where
  "wide4 a b c d \<longleftrightarrow> between 0xf0 0xf4 (byte_of a) \<and> cont (byte_of c) \<and> cont (byte_of d) \<and>
     between (if byte_of a = 0xf0 then 0x90 else 0x80) (if byte_of a = 0xf4 then 0x8f else 0xbf) (byte_of b)"

lemma rune_len_shapes:
  "rune_len [] = 0"
  "rune_len (a # s) = (if byte_of a < 0x80 then 1
     else if between 0xc2 0xdf (byte_of a) then (case s of b # _ \<Rightarrow> if wide2 a b then 2 else 0 | _ \<Rightarrow> 0)
     else if between 0xe0 0xef (byte_of a) then (case s of b # c # _ \<Rightarrow> if wide3 a b c then 3 else 0 | _ \<Rightarrow> 0)
     else if between 0xf0 0xf4 (byte_of a)
     then (case s of b # c # d # _ \<Rightarrow> if wide4 a b c d then 4 else 0 | _ \<Rightarrow> 0)
     else 0)"
proof -
  show "rune_len [] = 0" by (simp add: rune_len_def)
  consider "s = []" | b where "s = [b]" | b c where "s = [b, c]" | b c d t where "s = b # c # d # t"
    by (metis list.exhaust)
  then show "rune_len (a # s) = (if byte_of a < 0x80 then 1
     else if between 0xc2 0xdf (byte_of a) then (case s of b # _ \<Rightarrow> if wide2 a b then 2 else 0 | _ \<Rightarrow> 0)
     else if between 0xe0 0xef (byte_of a) then (case s of b # c # _ \<Rightarrow> if wide3 a b c then 3 else 0 | _ \<Rightarrow> 0)
     else if between 0xf0 0xf4 (byte_of a)
     then (case s of b # c # d # _ \<Rightarrow> if wide4 a b c d then 4 else 0 | _ \<Rightarrow> 0)
     else 0)"
    by cases (simp_all add: rune_len_def wide2_def wide3_def wide4_def conj_ac)
qed

lemma rune_cases:
  assumes "rune_len s \<noteq> 0"
  obtains a t where "s = a # t" "rune_len s = 1" "byte_of a < 0x80"
    | a b t where "s = a # b # t" "rune_len s = 2" "wide2 a b" "\<not> byte_of a < 0x80"
    | a b c t where "s = a # b # c # t" "rune_len s = 3" "wide3 a b c" "\<not> byte_of a < 0x80"
    | a b c d t where "s = a # b # c # d # t" "rune_len s = 4" "wide4 a b c d" "\<not> byte_of a < 0x80"
proof (cases s)
  case Nil
  then show thesis using assms by (simp add: rune_len_shapes)
next
  case (Cons a s')
  note len = assms [unfolded Cons rune_len_shapes]
  consider "byte_of a < 0x80" | b t where "s' = b # t" "wide2 a b" "rune_len s = 2" "\<not> byte_of a < 0x80"
    | b c t where "s' = b # c # t" "wide3 a b c" "rune_len s = 3" "\<not> byte_of a < 0x80"
    | b c d t where "s' = b # c # d # t" "wide4 a b c d" "rune_len s = 4" "\<not> byte_of a < 0x80"
    using len unfolding Cons rune_len_shapes by (simp split: if_splits list.splits)
  then show thesis
    by cases (use that Cons in \<open>simp_all add: rune_len_shapes\<close>)
qed

lemma rune_len_prefix: "rune_len s \<noteq> 0 \<Longrightarrow> rune_len (take (rune_len s) s @ t) = rune_len s"
  by (erule rune_cases) (auto simp: rune_len_shapes wide2_def wide3_def wide4_def between_def)

lemma rune_len_length: "rune_len s \<le> length s"
  by (cases "rune_len s = 0", simp, erule rune_cases) auto

lemma scan_rune:
  assumes "rune_len (c # cs) \<noteq> 0" and "\<not> byte_of c < 0x80"
  shows "scan_string (take (rune_len (c # cs)) (c # cs) @ t) =
    map_option (\<lambda>(u, q). (take (rune_len (c # cs)) (c # cs) @ u, q)) (scan_string t)"
proof -
  let ?n = "rune_len (c # cs)"
  obtain m where n: "?n = Suc m" using assms(1) not0_implies_Suc by blast
  have len: "length (take ?n (c # cs)) = ?n" using rune_len_length [of "c # cs"] by simp
  have "c \<noteq> quote" "c \<noteq> backslash" "\<not> byte_of c < 0x20" using assms(2) by auto
  moreover have "rune_len (c # take m cs @ t) = ?n" using rune_len_prefix [OF assms(1), of t] by (simp add: n)
  ultimately show ?thesis
    using assms(2) len by (subst scan_string.simps) (simp add: n)
qed

lemma line_separators:
  assumes "take 3 s = encode_rune r" and "r = 0x2028 \<or> r = 0x2029"
  shows "rune_len s = 3" "r < 65536" "\<not> is_surrogate r"
proof -
  have c: "char_of (226 :: nat) = CHR 0xe2" "char_of (128 :: nat) = CHR 0x80"
    "char_of (168 :: nat) = CHR 0xa8" "char_of (169 :: nat) = CHR 0xa9"
    using char_of_char [of "CHR 0xe2"] char_of_char [of "CHR 0x80"] char_of_char [of "CHR 0xa8"]
      char_of_char [of "CHR 0xa9"] by simp_all
  have "take 3 s = [CHR 0xe2, CHR 0x80, CHR 0xa8] \<or> take 3 s = [CHR 0xe2, CHR 0x80, CHR 0xa9]"
    using assms by (auto simp: encode_rune_def c)
  moreover have "s = take 3 s @ drop 3 s" by simp
  ultimately obtain x t where "s = CHR 0xe2 # CHR 0x80 # x # t" "x = CHR 0xa8 \<or> x = CHR 0xa9"
    by (metis append_Cons append_Nil)
  then show "rune_len s = 3" by (auto simp: rune_len_shapes wide3_def between_def cont_def)
  show "r < 65536" "\<not> is_surrogate r" using assms(2) by (auto simp: is_surrogate_def between_def)
qed

lemma scan_string_escape:
  "valid_utf8 s \<Longrightarrow> scan_string (escape s @ quote # rest) = Some (s, rest)"
proof (induction "length s" arbitrary: s rule: less_induct)
  case less
  show ?case
  proof (cases s)
    case Nil
    then show ?thesis by (simp add: escape.simps [of "[]"] scan_string_step)
  next
    case (Cons c cs)
    have len: "rune_len s \<noteq> 0" and rest: "valid_utf8 (drop (rune_len s) s)"
      using less.prems by (simp_all add: Cons valid_utf8.simps [of "c # cs"] split: if_splits)
    have IH: "scan_string (escape (drop (rune_len s) s) @ quote # rest) = Some (drop (rune_len s) s, rest)"
      using less.hyps [OF _ rest] len Cons by simp
    have E: "escape s = (if byte_of c < 0x80 then escape_ascii c @ escape cs
        else if rune_len s = 0 then u_escape 0xfffd @ escape cs
        else if take 3 s = encode_rune 0x2028 then u_escape 0x2028 @ escape (drop 3 s)
        else if take 3 s = encode_rune 0x2029 then u_escape 0x2029 @ escape (drop 3 s)
        else take (rune_len s) s @ escape (drop (rune_len s) s))"
      by (subst escape.simps) (simp only: Cons list.case)
    consider "byte_of c < 0x80" | r where "r = 0x2028 \<or> r = 0x2029" "take 3 s = encode_rune r"
        "escape s = u_escape r @ escape (drop 3 s)"
      | "\<not> byte_of c < 0x80" "escape s = take (rune_len s) s @ escape (drop (rune_len s) s)"
      using E len by metis
    then show ?thesis
    proof cases
      case 1
      then have "rune_len s = 1" by (simp add: Cons rune_len_def)
      then show ?thesis using IH 1 scan_escape_ascii [OF 1] by (simp add: Cons escape.simps [of "c # cs"])
    next
      case (2 r)
      note sep = line_separators [OF 2(2,1)]
      have "encode_rune r @ drop 3 s = s" by (simp flip: 2(2))
      then show ?thesis using scan_u_escape [OF sep(2,3)] IH by (simp add: 2(3) sep(1))
    next
      case 3
      then show ?thesis using scan_rune [of c cs] len IH by (simp add: Cons)
    qed
  qed
qed

section \<open>Numbers\<close>

definition stops :: "string \<Rightarrow> bool" where
  "stops rest \<longleftrightarrow> rest = [] \<or> hd rest = CHR '','' \<or> hd rest = CHR ''}''"

lemma stops_simps [simp]: "stops []" "stops (CHR '','' # r)" "stops (CHR ''}'' # r)"
  by (simp_all add: stops_def)

lemma digit_char_0: "digit_char 0 = CHR ''0''"
  using char_of_char [of "CHR ''0''"] by (simp add: digit_char_def)

lemma digit_char_neq_0: "0 < d \<Longrightarrow> d < 10 \<Longrightarrow> digit_char d \<noteq> CHR ''0''"
  using of_digit_char [of d] by auto

lemma itoa_leading: "0 < n \<Longrightarrow> hd (itoa n) \<noteq> CHR ''0''"
proof (induction n rule: itoa.induct)
  case (1 n)
  show ?case
  proof (cases "n < 10")
    case True
    then show ?thesis using 1(2) digit_char_neq_0 by (subst itoa.simps) simp
  next
    case False
    then have "hd (itoa (n div 10)) \<noteq> CHR ''0''" using 1(1) by simp
    then show ?thesis using False by (subst itoa.simps) simp
  qed
qed

lemma digits_itoa:
  assumes "stops rest"
  shows "digits (itoa n @ rest) = (itoa n, rest)"
proof -
  have "rest = [] \<or> \<not> is_digit (hd rest)" using assms by (auto simp: stops_def is_digit_def)
  then show ?thesis using itoa_digits [of n] by (cases rest) (auto simp: digits_def takeWhile_append2 dropWhile_append2)
qed

lemma scan_number_itoa:
  assumes "stops rest"
  shows "scan_number (itoa n @ rest) = Some (itoa n, rest)"
proof -
  obtain c cs where c: "itoa n = c # cs" by (metis itoa_nonempty list.exhaust)
  then have d: "is_digit c" using itoa_digits [of n] by simp
  have sign: "scan_sign (itoa n @ rest) = ([], itoa n @ rest)" using d by (auto simp: scan_sign_def c is_digit_def)
  have "scan_int (itoa n @ rest) = Some (itoa n, rest)"
  proof (cases "n = 0")
    case True
    then have "itoa n = [CHR ''0'']" by (subst itoa.simps) (simp add: digit_char_0)
    then show ?thesis by (simp add: scan_int_def)
  next
    case False
    then have "c \<noteq> CHR ''0''" using itoa_leading [of n] c by simp
    then show ?thesis using d digits_itoa [OF assms, of n] by (simp add: scan_int_def c)
  qed
  moreover have "scan_frac rest = Some ([], rest)" "scan_exp rest = Some ([], rest)"
    using assms by (cases rest; auto simp: scan_frac_def scan_exp_def stops_def)+
  ultimately show ?thesis by (simp add: scan_number_def sign)
qed

section \<open>Objects\<close>

text \<open>
  A text that reads as a value whenever the bounds are large enough, whatever follows.
\<close>

definition reads_as :: "nat \<Rightarrow> nat \<Rightarrow> string \<Rightarrow> json \<Rightarrow> bool" where
  "reads_as n\<^sub>0 d\<^sub>0 t v \<longleftrightarrow> t \<noteq> [] \<and> \<not> is_space (hd t) \<and>
     (\<forall>n \<ge> n\<^sub>0. \<forall>d \<ge> d\<^sub>0. \<forall>rest. stops rest \<longrightarrow> parse_value n d (t @ rest) = Some (v, rest))"

lemma reads_as_mono: "reads_as n d t v \<Longrightarrow> n \<le> n' \<Longrightarrow> d \<le> d' \<Longrightarrow> reads_as n' d' t v"
  unfolding reads_as_def by (meson order_trans)

lemma skip_ws_nonspace [simp]: "t \<noteq> [] \<Longrightarrow> \<not> is_space (hd t) \<Longrightarrow> skip_ws (t @ r) = t @ r"
  by (cases t) (simp_all add: skip_ws_def)

lemma skip_ws_Cons [simp]: "\<not> is_space c \<Longrightarrow> skip_ws (c # r) = c # r"
  by (simp add: skip_ws_def)

lemma not_spaces [simp]:
  "\<not> is_space (CHR '','')" "\<not> is_space (CHR ''}'')" "\<not> is_space (CHR '':'')" "\<not> is_space (CHR ''{'')"
  "\<not> is_space (CHR 0x22)"
  by (simp_all add: is_space_def)

lemma digit_facts:
  "is_digit c \<Longrightarrow> \<not> is_space c \<and> c \<noteq> CHR ''{'' \<and> c \<noteq> CHR ''['' \<and> c \<noteq> CHR 0x22 \<and> c \<noteq> CHR ''n'' \<and>
     c \<noteq> CHR ''t'' \<and> c \<noteq> CHR ''f''"
  by (auto simp: is_digit_def is_space_def)

lemma reads_number: "reads_as 1 0 (itoa n) (JNum (itoa n))"
proof -
  obtain c cs where c: "itoa n = c # cs" by (metis itoa_nonempty list.exhaust)
  then have d: "is_digit c" using itoa_digits [of n] by simp
  have "parse_value m d (itoa n @ rest) = Some (JNum (itoa n), rest)" if "1 \<le> m" "stops rest" for m d :: nat and rest
  proof -
    obtain k where m: "m = Suc k" using \<open>1 \<le> m\<close> by (metis Suc_le_D One_nat_def)
    have "scan_literal (itoa n @ rest) = Some (JNum (itoa n), rest)"
      using scan_number_itoa [OF that(2), of n] digit_facts [OF d] by (simp add: scan_literal_def c)
    then show ?thesis using digit_facts [OF d] by (simp add: m c)
  qed
  then show ?thesis using digit_facts [OF d] by (simp add: reads_as_def c)
qed

lemma reads_string: "valid_utf8 t \<Longrightarrow> reads_as 1 0 (print_string t) (JStr t)"
  unfolding reads_as_def print_string_def
proof (intro conjI allI impI)
  fix m d :: nat and rest assume "valid_utf8 t" "1 \<le> m" "stops rest"
  then show "parse_value m d (([quote] @ escape t @ [quote]) @ rest) = Some (JStr t, rest)"
    using scan_string_escape [of t rest] by (cases m) simp_all
qed simp_all

lemma parse_members_print:
  assumes "ms \<noteq> []" and "\<forall>(k, t, v)\<in>set ms. valid_utf8 k \<and> reads_as n\<^sub>0 d\<^sub>0 t v"
    and "n\<^sub>0 + length ms \<le> n" and "d\<^sub>0 \<le> d"
  shows "parse_members n d (print_members (map (\<lambda>(k, t, v). (k, t)) ms) @ CHR ''}'' # rest) = Some (ms, rest)"
  using assms
proof (induction ms arbitrary: n)
  case (Cons m ms)
  obtain k t v where m: "m = (k, t, v)" by (cases m)
  have kt: "valid_utf8 k" "t \<noteq> []" "\<not> is_space (hd t)"
    and val: "\<And>n' rest. n\<^sub>0 \<le> n' \<Longrightarrow> stops rest \<Longrightarrow> parse_value n' d (t @ rest) = Some (v, rest)"
    using Cons.prems(2,4) by (auto simp: m reads_as_def)
  obtain n' where n: "n = Suc n'" "n\<^sub>0 \<le> n'" "n\<^sub>0 + length ms \<le> n'" using Cons.prems(3) by (cases n) auto
  have key: "scan_string (escape k @ CHR 0x22 # r) = Some (k, r)" for r
    using scan_string_escape [OF kt(1)] by simp
  show ?case
  proof (cases ms)
    case Nil
    then show ?thesis using kt(2,3) by (simp add: n(1) m print_string_def key val [OF n(2)] Let_def)
  next
    case (Cons m' ms')
    have "parse_members n' d (print_members (map (\<lambda>(k, t, v). (k, t)) ms) @ CHR ''}'' # rest) = Some (ms, rest)"
      using Cons.IH [of n'] Cons.prems n Cons by simp
    moreover have "print_members (map (\<lambda>(k, t, v). (k, t)) (m # ms)) =
        print_string k @ '':'' @ t @ '','' @ print_members (map (\<lambda>(k, t, v). (k, t)) ms)"
      by (cases m') (simp add: Cons m)
    ultimately show ?thesis using kt(2,3)
      by (simp add: n(1) m print_string_def key val [OF n(2)] Let_def)
  qed
qed simp

lemma print_members_quote: "ms \<noteq> [] \<Longrightarrow> \<exists>r. print_members ms = CHR 0x22 # r"
  by (induction ms rule: print_members.induct) (simp_all add: print_string_def)

lemma reads_object:
  assumes "ms \<noteq> []" and "\<forall>(k, t, v)\<in>set ms. valid_utf8 k \<and> reads_as n d t v"
  shows "reads_as (Suc (n + length ms)) (Suc d) (print_object (map (\<lambda>(k, t, v). (k, t)) ms)) (JObj ms)"
  unfolding reads_as_def
proof (intro conjI allI impI)
  fix m e :: nat and rest assume m: "Suc (n + length ms) \<le> m" "Suc d \<le> e" "stops rest"
  obtain m' where m': "m = Suc m'" "n + length ms \<le> m'" using m(1) by (cases m) auto
  have "d \<le> e - 1" "e \<noteq> 0" using m(2) by auto
  moreover obtain r where "print_members (map (\<lambda>(k, t, v). (k, t)) ms) = CHR 0x22 # r"
    using print_members_quote [of "map (\<lambda>(k, t, v). (k, t)) ms"] assms(1) by auto
  ultimately show "parse_value m e (print_object (map (\<lambda>(k, t, v). (k, t)) ms) @ rest) = Some (JObj ms, rest)"
    using parse_members_print [OF assms m'(2), of "e - 1" rest] by (simp add: m'(1) print_object_def)
qed (simp_all add: print_object_def)

end
