(* ===== verification/Cc2_Roundtrip.thy ===== *)
theory Cc2_Roundtrip
  imports Json_Roundtrip Cc2_Codec
begin

text \<open>
  The wire contract between control plane and agent: what \<open>EncodePolicyRule\<close> and \<open>EncodeIdentity\<close>
  print is read back by the strict decoders, and two documents that the decoders should refuse.
\<close>

section \<open>Documents of one object\<close>

lemma valid_utf8_ascii: "\<forall>c\<in>set s. byte_of c < 0x80 \<Longrightarrow> valid_utf8 s"
proof (induction s)
  case (Cons c s)
  then have "rune_len (c # s) = 1" by (simp add: rune_len_shapes)
  then show ?case using Cons by (subst valid_utf8.simps) simp
qed (subst valid_utf8.simps, simp)

lemma length_print_members: "3 * length ms \<le> length (print_members ms)"
  by (induction ms rule: print_members.induct) (simp_all add: print_string_def)

lemma read_printed_object:
  assumes "ms \<noteq> []" and "\<forall>(k, t, v)\<in>set ms. valid_utf8 k \<and> reads_as n d t v"
    and "n \<le> 5 * length ms" and "d < maxNestingDepth"
    and "stops rest"
  shows "read_value (print_object (map (\<lambda>(k, t, v). (k, t)) ms) @ rest) = Some (JObj ms, rest)"
proof -
  let ?s = "print_object (map (\<lambda>(k, t, v). (k, t)) ms)"
  have "3 * length ms + 2 \<le> length ?s"
    using length_print_members [of "map (\<lambda>(k, t, v). (k, t)) ms"] by (simp add: print_object_def)
  then have "Suc (n + length ms) \<le> Suc (2 * length (?s @ rest))" using assms(3) by simp
  moreover have "Suc d \<le> maxNestingDepth" using assms(4) by simp
  ultimately have "parse_value (Suc (2 * length (?s @ rest))) maxNestingDepth (?s @ rest) = Some (JObj ms, rest)"
    using reads_object [OF assms(1,2)] assms(5) unfolding reads_as_def by blast
  then show ?thesis by (simp add: read_value_def)
qed

text \<open>
  The document may be followed by a closing brace and anything after it: \<open>Decoder.More\<close> looks at one
  character, and a closing bracket ends the stream for it.
\<close>

definition unseen_tail :: "string \<Rightarrow> bool" where
  "unseen_tail rest \<longleftrightarrow> rest = [] \<or> hd rest = CHR ''}''"

lemma strictDecode_print:
  assumes "ms \<noteq> []" and "\<forall>(k, t, v)\<in>set ms. valid_utf8 k \<and> reads_as n d t v"
    and "n \<le> 5 * length ms" and "d < maxNestingDepth"
    and "for_each (store_member l) ms (zero_struct l) = Inr vals" and "unseen_tail rest"
  shows "strictDecode l (print_object (map (\<lambda>(k, t, v). (k, t)) ms) @ rest) = Inr vals"
proof -
  have "stops rest" "\<not> decoder_more rest"
    using assms(6) by (cases rest; auto simp: unseen_tail_def stops_def decoder_more_def skip_ws_def is_space_def)+
  then show ?thesis
    using assms(5) unfolding strictDecode_def read_printed_object [OF assms(1-4) \<open>stops rest\<close>]
    by (simp add: decode_struct_def)
qed

lemmas reads_leaf = reads_number [unfolded One_nat_def] reads_string [unfolded One_nat_def]

lemma store_number: "n < 2 ^ w \<Longrightarrow> store_field (FUint w) raw (JNum (itoa n)) old = Some (VUint n)"
  using itoa_digits [of n] by (simp add: store_field_def list_all_iff)

lemma store_text: "store_field FString raw (JStr t) old = Some (VString t)"
  by (simp add: store_field_def)

lemma store_raw: "store_field FRaw raw v old = Some (VRaw raw)"
  by (simp add: store_field_def)

lemma word_value: "unat (x :: 'a :: len word) < 2 ^ LENGTH('a)"
  by (rule unsigned_less)

section \<open>The three layouts\<close>

lemma ascii_names [simp]:
  "valid_utf8 ''schema_version''" "valid_utf8 ''kind''" "valid_utf8 ''spec''"
  "valid_utf8 ''src_identity''" "valid_utf8 ''dst_identity''" "valid_utf8 ''dst_port''"
  "valid_utf8 ''protocol''" "valid_utf8 ''direction''" "valid_utf8 ''action''" "valid_utf8 ''flags''"
  "valid_utf8 ''id''" "valid_utf8 ''spiffe_id''" "valid_utf8 ''pod_ipv4''" "valid_utf8 ''namespace''"
  "valid_utf8 ''name''" "valid_utf8 ''PolicyRule''" "valid_utf8 ''Identity''"
  by (simp_all add: valid_utf8_ascii)

lemma policy_spec_decodes:
  assumes "a < 2 ^ 32" "b < 2 ^ 32" "c < 2 ^ 16" "d < 2 ^ 8" "e < 2 ^ 8" "f < 2 ^ 8" "g < 2 ^ 8"
  obtains vals where
    "strictDecode policySpec (print_object [(''src_identity'', itoa a), (''dst_identity'', itoa b),
       (''dst_port'', itoa c), (''protocol'', itoa d), (''direction'', itoa e), (''action'', itoa f),
       (''flags'', itoa g)]) = Inr vals"
    "uint_field vals ''src_identity'' = a" "uint_field vals ''dst_identity'' = b"
    "uint_field vals ''dst_port'' = c" "uint_field vals ''protocol'' = d" "uint_field vals ''direction'' = e"
    "uint_field vals ''action'' = f" "uint_field vals ''flags'' = g"
proof -
  let ?n = "\<lambda>k x. (k :: string, itoa x, JNum (itoa x))"
  let ?ms = "[?n ''src_identity'' a, ?n ''dst_identity'' b, ?n ''dst_port'' c, ?n ''protocol'' d,
    ?n ''direction'' e, ?n ''action'' f, ?n ''flags'' g]"
  let ?vals = "(zero_struct policySpec)(''src_identity'' \<mapsto> VUint a, ''dst_identity'' \<mapsto> VUint b,
    ''dst_port'' \<mapsto> VUint c, ''protocol'' \<mapsto> VUint d, ''direction'' \<mapsto> VUint e, ''action'' \<mapsto> VUint f,
    ''flags'' \<mapsto> VUint g)"
  have "for_each (store_member policySpec) ?ms (zero_struct policySpec) = Inr ?vals"
    using assms by (simp add: store_member_def find_field_def policySpec_def store_number)
  then have "strictDecode policySpec (print_object (map (\<lambda>(k, t, v). (k, t)) ?ms) @ []) = Inr ?vals"
    by (rule strictDecode_print [where n = 1 and d = 0, rotated 4])
      (simp_all add: reads_leaf maxNestingDepth_def unseen_tail_def)
  then show thesis by (intro that [of ?vals]) (simp_all add: uint_field_def)
qed

lemma identity_spec_decodes:
  assumes "a < 2 ^ 32" "valid_utf8 b" "valid_utf8 c" "valid_utf8 d" "valid_utf8 e"
  obtains vals where
    "strictDecode identitySpec (print_object [(''id'', itoa a), (''spiffe_id'', print_string b),
       (''pod_ipv4'', print_string c), (''namespace'', print_string d), (''name'', print_string e)]) = Inr vals"
    "uint_field vals ''id'' = a" "text_field vals ''spiffe_id'' = b" "text_field vals ''pod_ipv4'' = c"
    "text_field vals ''namespace'' = d" "text_field vals ''name'' = e"
proof -
  let ?s = "\<lambda>k x. (k :: string, print_string x, JStr x)"
  let ?ms = "[(''id'', itoa a, JNum (itoa a)), ?s ''spiffe_id'' b, ?s ''pod_ipv4'' c, ?s ''namespace'' d,
    ?s ''name'' e]"
  let ?vals = "(zero_struct identitySpec)(''id'' \<mapsto> VUint a, ''spiffe_id'' \<mapsto> VString b,
    ''pod_ipv4'' \<mapsto> VString c, ''namespace'' \<mapsto> VString d, ''name'' \<mapsto> VString e)"
  have "for_each (store_member identitySpec) ?ms (zero_struct identitySpec) = Inr ?vals"
    using assms(1) by (simp add: store_member_def find_field_def identitySpec_def store_number store_text)
  then have "strictDecode identitySpec (print_object (map (\<lambda>(k, t, v). (k, t)) ?ms) @ []) = Inr ?vals"
    by (rule strictDecode_print [where n = 1 and d = 0, rotated 4])
      (use assms(2-) in \<open>simp_all add: reads_leaf maxNestingDepth_def unseen_tail_def\<close>)
  then show thesis by (intro that [of ?vals]) (simp_all add: uint_field_def text_field_def)
qed

text \<open>The specification inside an envelope is an object of numbers and strings: nesting depth one.\<close>

lemma envelope_opens:
  assumes "unpack P a = Some (print_object [(''schema_version'', itoa SchemaVersion),
      (''kind'', print_string kind), (''spec'', print_object (map (\<lambda>(k, t, v). (k, t)) ms))] @ rest)"
    and "ms \<noteq> []" and "\<forall>(k, t, v)\<in>set ms. valid_utf8 k \<and> reads_as 1 0 t v"
    and "length ms \<le> 13" and "valid_utf8 kind" and "unseen_tail rest"
  shows "openEnvelope P a kind = Inr (print_object (map (\<lambda>(k, t, v). (k, t)) ms))"
proof -
  let ?spec = "print_object (map (\<lambda>(k, t, v). (k, t)) ms)"
  let ?ms = "[(''schema_version'', itoa 1, JNum (itoa 1)), (''kind'', print_string kind, JStr kind),
    (''spec'', ?spec, JObj ms)]"
  let ?vals = "(zero_struct envelope)(''schema_version'' \<mapsto> VUint 1, ''kind'' \<mapsto> VString kind,
    ''spec'' \<mapsto> VRaw ?spec)"
  have spec: "reads_as 15 1 ?spec (JObj ms)"
    by (rule reads_as_mono [OF reads_object [OF assms(2,3)]]) (use assms(4) in simp_all)
  have "for_each (store_member envelope) ?ms (zero_struct envelope) = Inr ?vals"
    by (simp add: store_member_def find_field_def envelope_def store_number store_text store_raw)
  then have "strictDecode envelope (print_object (map (\<lambda>(k, t, v). (k, t)) ?ms) @ rest) = Inr ?vals"
    by (rule strictDecode_print [where n = 15 and d = 1, rotated 4])
      (use spec assms(5,6) reads_as_mono [OF reads_number] reads_as_mono [OF reads_string] in
        \<open>simp_all add: maxNestingDepth_def\<close>)
  moreover have "?spec \<noteq> []" by (simp add: print_object_def)
  ultimately show ?thesis
    using assms(1) by (simp add: openEnvelope_def uint_field_def text_field_def)
qed

section \<open>Round trips\<close>

text \<open>What \<open>anypb\<close> and \<open>wrapperspb\<close> promise: bytes that were packed are unpacked as they were.\<close>

definition packs_bytes :: "'a anypb \<Rightarrow> bool" where
  "packs_bytes P \<longleftrightarrow> (\<forall>s a. pack P s = Some a \<longrightarrow> unpack P a = Some s)"

definition rule_in_range :: "PolicyRule \<Rightarrow> bool" where
  "rule_in_range r \<longleftrightarrow> Direction (Key r) \<le> 1 \<and> Action (Verdict r) \<le> 2"

definition text_identity :: "Identity \<Rightarrow> bool" where
  "text_identity i \<longleftrightarrow> valid_utf8 (SpiffeID i) \<and> valid_utf8 (PodIPv4 i) \<and> valid_utf8 (Namespace i) \<and>
     valid_utf8 (Name i)"

lemma Decode_Encode_rule:
  assumes "packs_bytes P" and "EncodePolicyRule P r = Some a"
  shows "DecodePolicyRule P a =
    (if 1 < Direction (Key r) then Inl (Direction_Range (unat (Direction (Key r))))
     else if 2 < Action (Verdict r) then Inl (Action_Range (unat (Action (Verdict r)))) else Inr r)"
proof -
  let ?k = "Key r" and ?v = "Verdict r"
  let ?n = "\<lambda>k x. (k :: string, itoa x, JNum (itoa x))"
  let ?ms = "[?n ''src_identity'' (unat (SrcIdentity ?k)), ?n ''dst_identity'' (unat (DstIdentity ?k)),
    ?n ''dst_port'' (unat (DstPort ?k)), ?n ''protocol'' (unat (Protocol ?k)),
    ?n ''direction'' (unat (Direction ?k)), ?n ''action'' (unat (Action ?v)), ?n ''flags'' (unat (Flags ?v))]"
  have "openEnvelope P a KindPolicyRule = Inr (print_object (map (\<lambda>(k, t, v). (k, t)) ?ms))"
    by (rule envelope_opens [where rest = "[]"])
      (use assms(1,2) in \<open>simp_all add: packs_bytes_def EncodePolicyRule_def encode_def reads_leaf unseen_tail_def\<close>)
  moreover obtain vals where
    "strictDecode policySpec (print_object (map (\<lambda>(k, t, v). (k, t)) ?ms)) = Inr vals"
    "uint_field vals ''src_identity'' = unat (SrcIdentity ?k)"
    "uint_field vals ''dst_identity'' = unat (DstIdentity ?k)"
    "uint_field vals ''dst_port'' = unat (DstPort ?k)" "uint_field vals ''protocol'' = unat (Protocol ?k)"
    "uint_field vals ''direction'' = unat (Direction ?k)" "uint_field vals ''action'' = unat (Action ?v)"
    "uint_field vals ''flags'' = unat (Flags ?v)"
    using policy_spec_decodes [of "unat (SrcIdentity ?k)" "unat (DstIdentity ?k)" "unat (DstPort ?k)"
        "unat (Protocol ?k)" "unat (Direction ?k)" "unat (Action ?v)" "unat (Flags ?v)"]
      word_value [of "SrcIdentity ?k"] word_value [of "DstIdentity ?k"] word_value [of "DstPort ?k"]
      word_value [of "Protocol ?k"] word_value [of "Direction ?k"] word_value [of "Action ?v"]
      word_value [of "Flags ?v"] by simp blast
  ultimately show ?thesis by (simp add: DecodePolicyRule_def word_less_nat_alt)
qed

lemma Decode_Encode_identity:
  assumes "packs_bytes P" and "EncodeIdentity P i = Some a" and "text_identity i"
  shows "DecodeIdentity P a = Inr i"
proof -
  let ?s = "\<lambda>k x. (k :: string, print_string x, JStr x)"
  let ?ms = "[(''id'', itoa (unat (ID i)), JNum (itoa (unat (ID i)))), ?s ''spiffe_id'' (SpiffeID i),
    ?s ''pod_ipv4'' (PodIPv4 i), ?s ''namespace'' (Namespace i), ?s ''name'' (Name i)]"
  note utf8 = assms(3) [unfolded text_identity_def]
  have "openEnvelope P a KindIdentity = Inr (print_object (map (\<lambda>(k, t, v). (k, t)) ?ms))"
    by (rule envelope_opens [where rest = "[]"])
      (use assms(1,2) utf8 in \<open>simp_all add: packs_bytes_def EncodeIdentity_def encode_def reads_leaf unseen_tail_def\<close>)
  moreover obtain vals where
    "strictDecode identitySpec (print_object (map (\<lambda>(k, t, v). (k, t)) ?ms)) = Inr vals"
    "uint_field vals ''id'' = unat (ID i)" "text_field vals ''spiffe_id'' = SpiffeID i"
    "text_field vals ''pod_ipv4'' = PodIPv4 i" "text_field vals ''namespace'' = Namespace i"
    "text_field vals ''name'' = Name i"
    using identity_spec_decodes [of "unat (ID i)" "SpiffeID i" "PodIPv4 i" "Namespace i" "Name i"]
      word_value [of "ID i"] utf8 by simp blast
  ultimately show ?thesis by (simp add: DecodeIdentity_def)
qed

lemma Decode_Encode_in_range:
  assumes "packs_bytes P" and "EncodePolicyRule P r = Some a" and "rule_in_range r"
  shows "DecodePolicyRule P a = Inr r"
  using Decode_Encode_rule [OF assms(1,2)] assms(3) by (simp add: rule_in_range_def linorder_not_less)

text \<open>
  C29. The wire contract: an encoded rule is decoded to itself when its direction and action are in
  range, and is refused with the offending value otherwise; an encoded identity with valid UTF-8 names
  is decoded to itself.
\<close>

theorem encoded_resources_decode:
  assumes "packs_bytes P"
  shows "(\<forall>r a. EncodePolicyRule P r = Some a \<longrightarrow> DecodePolicyRule P a =
      (if 1 < Direction (Key r) then Inl (Direction_Range (unat (Direction (Key r))))
       else if 2 < Action (Verdict r) then Inl (Action_Range (unat (Action (Verdict r)))) else Inr r)) \<and>
    (\<forall>i a. EncodeIdentity P i = Some a \<longrightarrow> text_identity i \<longrightarrow> DecodeIdentity P a = Inr i)"
  using Decode_Encode_rule [OF assms] Decode_Encode_identity [OF assms] by blast

definition plain_any :: "string anypb" where
  "plain_any = \<lparr>pack = Some, unpack = Some\<rparr>"

lemma packs_plain_any [simp]: "packs_bytes plain_any"
  by (simp add: packs_bytes_def plain_any_def)

lemma encode_plain_any: "\<exists>a. EncodePolicyRule plain_any r = Some a" "\<exists>a. EncodeIdentity plain_any i = Some a"
  by (simp_all add: EncodePolicyRule_def EncodeIdentity_def encode_def plain_any_def)

definition sample_rule :: PolicyRule where
  "sample_rule =
     \<lparr>Key = \<lparr>SrcIdentity = 7, DstIdentity = 9, DstPort = 5432, Protocol = 6, Direction = 1\<rparr>,
      Verdict = \<lparr>Action = 2, Flags = 4\<rparr>\<rparr>"

definition sample_identity :: Identity where
  "sample_identity = \<lparr>ID = 7, PodIPv4 = ''10.0.0.7'', SpiffeID = ''spiffe://m/<web>'', Namespace = ''m'', Name = []\<rparr>"

theorem encoded_resources_decode_witness:
  "\<exists>a b. EncodePolicyRule plain_any sample_rule = Some a \<and> DecodePolicyRule plain_any a = Inr sample_rule \<and>
     EncodeIdentity plain_any sample_identity = Some b \<and> DecodeIdentity plain_any b = Inr sample_identity"
proof -
  obtain a b where ab: "EncodePolicyRule plain_any sample_rule = Some a" "EncodeIdentity plain_any sample_identity = Some b"
    using encode_plain_any by blast
  have "text_identity sample_identity"
    by (simp add: text_identity_def sample_identity_def valid_utf8_ascii)
  moreover have "\<not> 1 < Direction (Key sample_rule)" "\<not> 2 < Action (Verdict sample_rule)"
    by (simp_all add: sample_rule_def)
  ultimately show ?thesis using encoded_resources_decode [OF packs_plain_any] ab by auto
qed

section \<open>Documents that should be refused\<close>

definition printed_spec :: "(string \<times> nat) list \<Rightarrow> string" where
  "printed_spec ns = print_object (map (\<lambda>(k, n). (k, itoa n)) ns)"

definition printed_envelope :: "string \<Rightarrow> string" where
  "printed_envelope spec =
     print_object [(''schema_version'', itoa 1), (''kind'', print_string KindPolicyRule), (''spec'', spec)]"

lemma partial_spec_decodes:
  assumes "a < 2 ^ 32" "b < 2 ^ 32" "c < 2 ^ 16" "d < 2 ^ 8"
  shows "strictDecode policySpec (printed_spec [(''src_identity'', a), (''dst_identity'', b),
       (''dst_port'', c), (''protocol'', d)]) =
    Inr ((zero_struct policySpec)(''src_identity'' \<mapsto> VUint a, ''dst_identity'' \<mapsto> VUint b,
      ''dst_port'' \<mapsto> VUint c, ''protocol'' \<mapsto> VUint d))" (is "_ = Inr ?vals")
proof -
  let ?n = "\<lambda>k x. (k :: string, itoa x, JNum (itoa x))"
  let ?ms = "[?n ''src_identity'' a, ?n ''dst_identity'' b, ?n ''dst_port'' c, ?n ''protocol'' d]"
  have "for_each (store_member policySpec) ?ms (zero_struct policySpec) = Inr ?vals"
    using assms by (simp add: store_member_def find_field_def policySpec_def store_number)
  then have "strictDecode policySpec (print_object (map (\<lambda>(k, t, v). (k, t)) ?ms) @ []) = Inr ?vals"
    by (rule strictDecode_print [where n = 1 and d = 0, rotated 4])
      (simp_all add: reads_leaf maxNestingDepth_def unseen_tail_def)
  then show ?thesis by (simp add: printed_spec_def)
qed

text \<open>
  C30. The decoder is not fail-closed: a rule document without an action, a direction and flags is
  decoded as an ALLOW rule for ingress, and so is one followed by a closing brace and any other bytes.
\<close>

theorem incomplete_rule_is_allow:
  assumes "unpack P a = Some (printed_envelope (printed_spec [(''src_identity'', unat s),
      (''dst_identity'', unat d), (''dst_port'', unat p), (''protocol'', unat t)]) @ rest)"
    and "rest = [] \<or> hd rest = CHR ''}''"
  shows "DecodePolicyRule P a =
    Inr \<lparr>Key = \<lparr>SrcIdentity = s, DstIdentity = d, DstPort = p, Protocol = t, Direction = DirectionIngress\<rparr>,
         Verdict = \<lparr>Action = PolicyActionAllow, Flags = 0\<rparr>\<rparr>"
proof -
  let ?n = "\<lambda>k x. (k :: string, itoa x, JNum (itoa x))"
  let ?ms = "[?n ''src_identity'' (unat s), ?n ''dst_identity'' (unat d), ?n ''dst_port'' (unat p),
    ?n ''protocol'' (unat t)]"
  let ?spec = "printed_spec [(''src_identity'', unat s), (''dst_identity'', unat d), (''dst_port'', unat p),
    (''protocol'', unat t)]"
  have "openEnvelope P a KindPolicyRule = Inr (print_object (map (\<lambda>(k, t, v). (k, t)) ?ms))"
    by (rule envelope_opens [where rest = rest])
      (use assms in \<open>simp_all add: printed_envelope_def printed_spec_def reads_leaf unseen_tail_def\<close>)
  then have "openEnvelope P a KindPolicyRule = Inr ?spec" by (simp add: printed_spec_def)
  moreover note partial_spec_decodes [of "unat s" "unat d" "unat p" "unat t"]
  ultimately show ?thesis
    using word_value [of s] word_value [of d] word_value [of p] word_value [of t]
    by (simp add: DecodePolicyRule_def uint_field_def zero_struct_def policySpec_def zero_value_def)
qed

theorem incomplete_rule_is_allow_witness:
  "DecodePolicyRule plain_any (printed_envelope (printed_spec [(''src_identity'', unat (7 :: u32)),
      (''dst_identity'', unat (9 :: u32)), (''dst_port'', unat (5432 :: u16)), (''protocol'', unat (6 :: u8))]) @ ''}]'') =
    Inr \<lparr>Key = \<lparr>SrcIdentity = 7, DstIdentity = 9, DstPort = 5432, Protocol = 6, Direction = DirectionIngress\<rparr>,
         Verdict = \<lparr>Action = PolicyActionAllow, Flags = 0\<rparr>\<rparr>"
  by (rule incomplete_rule_is_allow [where rest = "''}]''"]) (simp_all add: plain_any_def)

end
