(* ===== verification/Policy_Compiler.thy ===== *)
theory Policy_Compiler
  imports Wire_Types
begin

text \<open>
  \<^verbatim>\<open>internal/control/compiler.go\<close>: the control plane's compiler from declarative policy to the
  compiled rules. Every \<open>return nil, fmt.Errorf\<close> is a value of \<open>compile_error\<close>. The rules are
  collected in a Go map; ranging over its keys takes the order as an argument.
\<close>

section \<open>Errors\<close>

datatype verdict_error =
    Unsupported_Action u8
  | Unknown_Flag_Bits u8
  | Sockmap_Requires_Allow
  | Sockmap_With_L7
  | Sockmap_With_MTLS

datatype rule_error =
    Rule_Unknown_Identity
  | Unsupported_Direction u8
  | Rule_Verdict verdict_error

datatype compile_error =
    Identity_Unknown nat string
  | Identity_Unnamed nat u32
  | Identity_Conflict nat string u32 u32
  | Selector_Empty string string
  | Name_Empty string string nat
  | Name_Unresolved string string string
  | Name_Unknown_Identity string string string
  | Ports_Empty string
  | Protocols_Empty string
  | Directions_Empty string
  | Verdict_Invalid string verdict_error
  | Rule_Invalid string rule_error
  | Key_Conflict string PolicyRuleKey PolicyVerdict PolicyVerdict

section \<open>Validation\<close>

definition flagMask :: "u8 \<Rightarrow> u8" where
  "flagMask pos = push_bit (unat pos) 1"

definition hasFlag :: "u8 \<Rightarrow> u8 \<Rightarrow> bool" where
  "hasFlag flags flag \<longleftrightarrow> flags AND flagMask flag \<noteq> 0"

definition knownMask :: u8 where
  "knownMask = flagMask PolicyFlagSockmapEligible OR flagMask PolicyFlagL7Required OR
     flagMask PolicyFlagMTLSRequired OR flagMask PolicyFlagAudit"

definition validateVerdict :: "PolicyVerdict \<Rightarrow> verdict_error + unit" where
  "validateVerdict verdict =
     (if Action verdict \<notin> {PolicyActionAllow, PolicyActionDeny, PolicyActionRedirectProxy}
      then Inl (Unsupported_Action (Action verdict))
      else if Flags verdict AND NOT knownMask \<noteq> 0
      then Inl (Unknown_Flag_Bits (Flags verdict AND NOT knownMask))
      else if hasFlag (Flags verdict) PolicyFlagSockmapEligible
      then if Action verdict \<noteq> PolicyActionAllow then Inl Sockmap_Requires_Allow
        else if hasFlag (Flags verdict) PolicyFlagL7Required then Inl Sockmap_With_L7
        else if hasFlag (Flags verdict) PolicyFlagMTLSRequired then Inl Sockmap_With_MTLS
        else Inr ()
      else Inr ())"

definition validateRule :: "PolicyRule \<Rightarrow> rule_error + unit" where
  "validateRule rule =
     (if SrcIdentity (Key rule) = IdentityUnknown \<or> DstIdentity (Key rule) = IdentityUnknown
      then Inl Rule_Unknown_Identity
      else if Direction (Key rule) \<noteq> DirectionIngress \<and> Direction (Key rule) \<noteq> DirectionEgress
      then Inl (Unsupported_Direction (Direction (Key rule)))
      else case validateVerdict (Verdict rule) of
        Inl e \<Rightarrow> Inl (Rule_Verdict e)
      | Inr _ \<Rightarrow> Inr ())"

section \<open>Identities by SPIFFE name\<close>

definition indexIdentity ::
  "nat \<times> Identity \<Rightarrow> (string \<rightharpoonup> u32) \<Rightarrow> compile_error + (string \<rightharpoonup> u32)" where
  "indexIdentity = (\<lambda>(i, identity) bySpiffe.
     if ID identity = IdentityUnknown then Inl (Identity_Unknown i (SpiffeID identity))
     else if SpiffeID identity = [] then Inl (Identity_Unnamed i (ID identity))
     else case bySpiffe (SpiffeID identity) of
       Some prior \<Rightarrow>
         if prior \<noteq> ID identity
         then Inl (Identity_Conflict i (SpiffeID identity) prior (ID identity))
         else Inr (bySpiffe(SpiffeID identity \<mapsto> ID identity))
     | None \<Rightarrow> Inr (bySpiffe(SpiffeID identity \<mapsto> ID identity)))"

definition identitiesBySpiffe :: "Identity list \<Rightarrow> compile_error + (string \<rightharpoonup> u32)" where
  "identitiesBySpiffe ids = for_each indexIdentity (enumerate 0 ids) Map.empty"

definition resolveName ::
  "string \<Rightarrow> string \<Rightarrow> (string \<rightharpoonup> u32) \<Rightarrow> nat \<times> string \<Rightarrow> u32 list \<Rightarrow> compile_error + u32 list" where
  "resolveName rulePath selectorName bySpiffe = (\<lambda>(i, name) resolved.
     if blank name then Inl (Name_Empty rulePath selectorName i)
     else case bySpiffe name of
       None \<Rightarrow> Inl (Name_Unresolved rulePath name selectorName)
     | Some identityID \<Rightarrow>
         if identityID = IdentityUnknown then Inl (Name_Unknown_Identity rulePath selectorName name)
         else if identityID \<in> set resolved then Inr resolved
         else Inr (resolved @ [identityID]))"

definition resolveIdentityNames ::
  "string \<Rightarrow> string \<Rightarrow> string list \<Rightarrow> (string \<rightharpoonup> u32) \<Rightarrow> compile_error + u32 list" where
  "resolveIdentityNames rulePath selectorName names bySpiffe =
     (if names = [] then Inl (Selector_Empty rulePath selectorName)
      else for_each (resolveName rulePath selectorName bySpiffe) (enumerate 0 names) [])"

section \<open>Expansion\<close>

type_synonym rule_table = "(PolicyRuleKey, PolicyVerdict) gomap"

text \<open>The keys of the five nested loops, in the order the loops visit them.\<close>

definition selectorKeys :: "u32 list \<Rightarrow> u32 list \<Rightarrow> PolicyRuleSelector \<Rightarrow> PolicyRuleKey list" where
  "selectorKeys srcIDs dstIDs rule =
     concat (map (\<lambda>srcID. concat (map (\<lambda>dstID. concat (map (\<lambda>port. concat (map (\<lambda>proto.
       map (\<lambda>direction. \<lparr>SrcIdentity = srcID, DstIdentity = dstID, DstPort = port,
              Protocol = proto, Direction = direction\<rparr>)
         (Directions rule)) (Protocols rule))) (Ports rule))) dstIDs)) srcIDs)"

definition addKey ::
  "string \<Rightarrow> PolicyVerdict \<Rightarrow> PolicyRuleKey \<Rightarrow> rule_table \<Rightarrow> compile_error + rule_table" where
  "addKey rulePath verdict key rulesByKey =
     (case validateRule \<lparr>Key = key, Verdict = verdict\<rparr> of
        Inl e \<Rightarrow> Inl (Rule_Invalid rulePath e)
      | Inr _ \<Rightarrow>
          (case map_of rulesByKey key of
             Some existing \<Rightarrow>
               if existing \<noteq> verdict then Inl (Key_Conflict rulePath key existing verdict)
               else Inr rulesByKey
           | None \<Rightarrow> Inr (AList.update key verdict rulesByKey)))"

definition rulePathOf :: "string \<Rightarrow> nat \<Rightarrow> PolicyRuleSelector \<Rightarrow> string" where
  "rulePathOf policyName ruleIdx rule =
     policyName @ ''/'' @ (if blank (sel_Name rule) then ''rule['' @ itoa ruleIdx @ '']'' else sel_Name rule)"

definition compileRule ::
  "(string \<rightharpoonup> u32) \<Rightarrow> string \<Rightarrow> nat \<times> PolicyRuleSelector \<Rightarrow> rule_table \<Rightarrow> compile_error + rule_table" where
  "compileRule bySpiffe policyName = (\<lambda>(ruleIdx, rule) rulesByKey.
     let rulePath = rulePathOf policyName ruleIdx rule
     in and_then (resolveIdentityNames rulePath ''sources'' (Sources rule) bySpiffe) (\<lambda>srcIDs.
        and_then (resolveIdentityNames rulePath ''destinations'' (Destinations rule) bySpiffe) (\<lambda>dstIDs.
        if Ports rule = [] then Inl (Ports_Empty rulePath)
        else if Protocols rule = [] then Inl (Protocols_Empty rulePath)
        else if Directions rule = [] then Inl (Directions_Empty rulePath)
        else case validateVerdict (sel_Verdict rule) of
          Inl e \<Rightarrow> Inl (Verdict_Invalid rulePath e)
        | Inr _ \<Rightarrow>
            for_each (addKey rulePath (sel_Verdict rule)) (selectorKeys srcIDs dstIDs rule) rulesByKey)))"

definition compilePolicy ::
  "(string \<rightharpoonup> u32) \<Rightarrow> nat \<times> Policy \<Rightarrow> rule_table \<Rightarrow> compile_error + rule_table" where
  "compilePolicy bySpiffe = (\<lambda>(policyIdx, policy) rulesByKey.
     let policyName = (if blank (pol_Name policy) then ''policy['' @ itoa policyIdx @ '']''
                       else pol_Name policy)
     in for_each (compileRule bySpiffe policyName) (enumerate 0 (Rules policy)) rulesByKey)"

section \<open>Sorting and output\<close>

definition compareKeys :: "PolicyRuleKey \<Rightarrow> PolicyRuleKey \<Rightarrow> int" where
  "compareKeys a b =
     (if SrcIdentity a \<noteq> SrcIdentity b then if SrcIdentity a < SrcIdentity b then -1 else 1
      else if DstIdentity a \<noteq> DstIdentity b then if DstIdentity a < DstIdentity b then -1 else 1
      else if DstPort a \<noteq> DstPort b then if DstPort a < DstPort b then -1 else 1
      else if Protocol a \<noteq> Protocol b then if Protocol a < Protocol b then -1 else 1
      else if Direction a \<noteq> Direction b then if Direction a < Direction b then -1 else 1
      else 0)"

text \<open>\<open>slices.SortFunc\<close>: the list rearranged so that no later element compares below an earlier one.\<close>

primrec insertFunc :: "('a \<Rightarrow> 'a \<Rightarrow> int) \<Rightarrow> 'a \<Rightarrow> 'a list \<Rightarrow> 'a list" where
  "insertFunc cmp x [] = [x]"
| "insertFunc cmp x (y # ys) = (if cmp x y \<le> 0 then x # y # ys else y # insertFunc cmp x ys)"

definition SortFunc :: "('a \<Rightarrow> 'a \<Rightarrow> int) \<Rightarrow> 'a list \<Rightarrow> 'a list" where
  "SortFunc cmp xs = foldr (insertFunc cmp) xs []"

definition Compile ::
  "(PolicyRuleKey list \<Rightarrow> PolicyRuleKey list) \<Rightarrow> PolicySpec \<Rightarrow> Identity list \<Rightarrow>
   compile_error + PolicyRule list" where
  "Compile order spec ids =
     and_then (identitiesBySpiffe ids) (\<lambda>bySpiffe.
     and_then (for_each (compilePolicy bySpiffe) (enumerate 0 (Policies spec)) []) (\<lambda>rulesByKey.
     let keys = SortFunc compareKeys (order (map_keys rulesByKey))
     in Inr (map (\<lambda>key. \<lparr>Key = key, Verdict = the (map_of rulesByKey key)\<rparr>) keys)))"

end
