(* ===== verification/Compiler_Correctness.thy ===== *)
theory Compiler_Correctness
  imports Policy_Compiler
begin

text \<open>
  What \<open>Compile\<close> accepts and what it returns. A rule of the specification grants a verdict to the
  product of its selectors; the compiler succeeds exactly when the identities and every rule are
  well formed and no key is granted two verdicts, and then it returns the granted keys, each once,
  in ascending order, whatever the order in which the Go map was ranged over.
\<close>

section \<open>Specification\<close>

definition wf_identities :: "Identity list \<Rightarrow> bool" where
  "wf_identities ids \<longleftrightarrow> (\<forall>x\<in>set ids. ID x \<noteq> 0 \<and> SpiffeID x \<noteq> []) \<and>
     (\<forall>x\<in>set ids. \<forall>y\<in>set ids. SpiffeID x = SpiffeID y \<longrightarrow> ID x = ID y)"

definition spiffe_index :: "Identity list \<Rightarrow> string \<rightharpoonup> u32" where
  "spiffe_index ids = map_of (map (\<lambda>x. (SpiffeID x, ID x)) ids)"

definition names_ok :: "(string \<rightharpoonup> u32) \<Rightarrow> string list \<Rightarrow> bool" where
  "names_ok m names \<longleftrightarrow> names \<noteq> [] \<and> (\<forall>n\<in>set names. \<not> blank n \<and> m n \<noteq> None \<and> m n \<noteq> Some 0)"

definition named_ids :: "(string \<rightharpoonup> u32) \<Rightarrow> string list \<Rightarrow> u32 set" where
  "named_ids m names = {i. \<exists>n\<in>set names. m n = Some i}"

definition rule_ok :: "(string \<rightharpoonup> u32) \<Rightarrow> PolicyRuleSelector \<Rightarrow> bool" where
  "rule_ok m rule \<longleftrightarrow> names_ok m (Sources rule) \<and> names_ok m (Destinations rule) \<and>
     Ports rule \<noteq> [] \<and> Protocols rule \<noteq> [] \<and> Directions rule \<noteq> [] \<and>
     (\<forall>d\<in>set (Directions rule). d = DirectionIngress \<or> d = DirectionEgress) \<and>
     is_ok (validateVerdict (sel_Verdict rule))"

definition granted :: "(string \<rightharpoonup> u32) \<Rightarrow> PolicyRuleSelector \<Rightarrow> PolicyRuleKey \<Rightarrow> bool" where
  "granted m rule k \<longleftrightarrow> SrcIdentity k \<in> named_ids m (Sources rule) \<and>
     DstIdentity k \<in> named_ids m (Destinations rule) \<and> DstPort k \<in> set (Ports rule) \<and>
     Protocol k \<in> set (Protocols rule) \<and> Direction k \<in> set (Directions rule)"

definition spec_rules :: "PolicySpec \<Rightarrow> PolicyRuleSelector list" where
  "spec_rules spec = concat (map Rules (Policies spec))"

definition grants ::
  "(string \<rightharpoonup> u32) \<Rightarrow> PolicyRuleSelector list \<Rightarrow> PolicyRuleKey \<Rightarrow> PolicyVerdict \<Rightarrow> bool" where
  "grants m rules k v \<longleftrightarrow> (\<exists>r\<in>set rules. granted m r k \<and> sel_Verdict r = v)"

definition unambiguous :: "(string \<rightharpoonup> u32) \<Rightarrow> PolicyRuleSelector list \<Rightarrow> bool" where
  "unambiguous m rules \<longleftrightarrow> (\<forall>k v w. grants m rules k v \<longrightarrow> grants m rules k w \<longrightarrow> v = w)"

section \<open>The identity index\<close>

lemma map_snd_enumerate_split:
  assumes "enumerate n xs = ys @ x # zs"
  shows "xs = map snd ys @ snd x # map snd zs"
  using arg_cong [OF assms, of "map snd"] by simp

lemma wf_identities_same:
  "wf_identities ids \<Longrightarrow> x \<in> set ids \<Longrightarrow> y \<in> set ids \<Longrightarrow> SpiffeID x = SpiffeID y \<Longrightarrow> ID x = ID y"
  unfolding wf_identities_def by blast

lemma wf_identities_subset: "wf_identities ids \<Longrightarrow> set xs \<subseteq> set ids \<Longrightarrow> wf_identities xs"
  unfolding wf_identities_def by blast

lemma spiffe_index_SomeD:
  assumes "spiffe_index ids n = Some i"
  obtains x where "x \<in> set ids" "SpiffeID x = n" "ID x = i"
  using assms unfolding spiffe_index_def by (auto dest!: map_of_SomeD)

lemma spiffe_index_snoc:
  assumes "wf_identities (xs @ [x])"
  shows "spiffe_index (xs @ [x]) = (spiffe_index xs)(SpiffeID x \<mapsto> ID x)"
proof (rule ext)
  fix n
  have app: "spiffe_index (xs @ [x]) n =
      (case spiffe_index xs n of None \<Rightarrow> if n = SpiffeID x then Some (ID x) else None | Some i \<Rightarrow> Some i)"
    by (simp add: spiffe_index_def map_add_def split: option.split)
  have "ID x = i" if "spiffe_index xs (SpiffeID x) = Some i" for i
  proof -
    from that obtain y where "y \<in> set xs" "SpiffeID y = SpiffeID x" "ID y = i" by (rule spiffe_index_SomeD)
    then show ?thesis using wf_identities_same [OF assms, of x y] by simp
  qed
  then show "spiffe_index (xs @ [x]) n = ((spiffe_index xs)(SpiffeID x \<mapsto> ID x)) n"
    unfolding app by (simp split: option.split)
qed

lemma spiffe_index_hit: "x \<in> set ids \<Longrightarrow> \<exists>i. spiffe_index ids (SpiffeID x) = Some i"
proof -
  assume "x \<in> set ids"
  then have "spiffe_index ids (SpiffeID x) \<noteq> None"
    unfolding spiffe_index_def map_of_eq_None_iff by force
  then show ?thesis by blast
qed

lemma wf_identities_snoc:
  "wf_identities (xs @ [x]) \<longleftrightarrow> wf_identities xs \<and> ID x \<noteq> 0 \<and> SpiffeID x \<noteq> [] \<and>
     (\<forall>i. spiffe_index xs (SpiffeID x) = Some i \<longrightarrow> i = ID x)" (is "_ \<longleftrightarrow> ?r")
proof
  assume l: "wf_identities (xs @ [x])"
  have "i = ID x" if "spiffe_index xs (SpiffeID x) = Some i" for i
  proof -
    from that obtain y where "y \<in> set xs" "SpiffeID y = SpiffeID x" "ID y = i" by (rule spiffe_index_SomeD)
    then show ?thesis using wf_identities_same [OF l, of y x] by simp
  qed
  moreover have "wf_identities xs" using l by (rule wf_identities_subset) auto
  moreover have "ID x \<noteq> 0 \<and> SpiffeID x \<noteq> []" using l unfolding wf_identities_def by simp
  ultimately show ?r by blast
next
  assume r: ?r
  have "ID y = ID x" if y: "y \<in> set xs" "SpiffeID y = SpiffeID x" for y
  proof -
    obtain i where i: "spiffe_index xs (SpiffeID x) = Some i" using spiffe_index_hit [OF y(1)] y(2) by auto
    then obtain z where "z \<in> set xs" "SpiffeID z = SpiffeID x" "ID z = i" by (rule spiffe_index_SomeD)
    then show ?thesis using y r i wf_identities_same [of xs y z] by metis
  qed
  then have "\<And>y z. y \<in> insert x (set xs) \<Longrightarrow> z \<in> insert x (set xs) \<Longrightarrow> SpiffeID y = SpiffeID z \<Longrightarrow> ID y = ID z"
    using r wf_identities_same by (metis insert_iff)
  moreover have "\<forall>y\<in>insert x (set xs). ID y \<noteq> 0 \<and> SpiffeID y \<noteq> []" using r unfolding wf_identities_def by blast
  ultimately show "wf_identities (xs @ [x])" unfolding wf_identities_def by (simp only: set_append list.set Un_insert_right Un_empty_right) blast
qed

lemma indexIdentity_Inr:
  assumes "wf_identities xs"
  shows "indexIdentity (i, x) (spiffe_index xs) = Inr v \<longleftrightarrow>
    wf_identities (xs @ [x]) \<and> v = spiffe_index (xs @ [x])"
proof (cases "wf_identities (xs @ [x])")
  case True
  then have "ID x \<noteq> 0" "SpiffeID x \<noteq> []" "spiffe_index xs (SpiffeID x) \<in> {None, Some (ID x)}"
    unfolding wf_identities_snoc by (auto intro: option.exhaust [of "spiffe_index xs (SpiffeID x)"])
  then show ?thesis
    unfolding spiffe_index_snoc [OF True] using True by (auto simp: indexIdentity_def)
next
  case False
  then have "ID x = 0 \<or> SpiffeID x = [] \<or> (\<exists>i. spiffe_index xs (SpiffeID x) = Some i \<and> i \<noteq> ID x)"
    using assms unfolding wf_identities_snoc by blast
  then show ?thesis using False by (auto simp: indexIdentity_def)
qed

lemma identitiesBySpiffe_Inr:
  "identitiesBySpiffe ids = Inr m \<longleftrightarrow> wf_identities ids \<and> m = spiffe_index ids"
proof
  let ?I = "\<lambda>(ys :: (nat \<times> Identity) list) m. wf_identities (map snd ys) \<and> m = spiffe_index (map snd ys)"
  have start: "?I [] Map.empty" by (simp add: wf_identities_def spiffe_index_def)
  show "wf_identities ids \<and> m = spiffe_index ids" if "identitiesBySpiffe ids = Inr m"
  proof -
    have "?I (enumerate 0 ids) m"
      using that start unfolding identitiesBySpiffe_def
    proof (rule for_each_invariant [where I = ?I])
      fix ys x zs u v assume "?I ys u" "indexIdentity x u = Inr v"
      then show "?I (ys @ [x]) v" using indexIdentity_Inr [of "map snd ys" "fst x" "snd x" v] by simp
    qed
    then show ?thesis by simp
  qed
  show "identitiesBySpiffe ids = Inr m" if r: "wf_identities ids \<and> m = spiffe_index ids"
  proof -
    have "\<exists>t. for_each indexIdentity (enumerate 0 ids) Map.empty = Inr t \<and> ?I (enumerate 0 ids) t"
    proof (rule for_each_progress [where I = ?I], rule start)
      fix ys x zs u assume e: "enumerate 0 ids = ys @ x # zs" and u: "?I ys u"
      have "set (map snd ys @ [snd x]) \<subseteq> set ids" by (auto simp: map_snd_enumerate_split [OF e])
      then have "wf_identities (map snd ys @ [snd x])" using r wf_identities_subset by blast
      then show "\<exists>v. indexIdentity x u = Inr v \<and> ?I (ys @ [x]) v"
        using u indexIdentity_Inr [of "map snd ys" "fst x" "snd x"] by simp
    qed
    then show ?thesis using r by (auto simp: identitiesBySpiffe_def)
  qed
qed

section \<open>Resolved selectors\<close>

lemma resolveName_cases:
  "resolveName p s m (i, n) acc = Inr r \<longleftrightarrow> \<not> blank n \<and>
     (\<exists>d. m n = Some d \<and> d \<noteq> 0 \<and> r = (if d \<in> set acc then acc else acc @ [d]))"
  by (auto simp: resolveName_def split: option.splits)

lemma resolveIdentityNames_ok:
  "is_ok (resolveIdentityNames p s names m) \<longleftrightarrow> names_ok m names"
proof -
  have "is_ok (for_each (resolveName p s m) (enumerate n names) acc) \<longleftrightarrow>
      (\<forall>x\<in>set names. \<not> blank x \<and> m x \<noteq> None \<and> m x \<noteq> Some 0)" for n acc
  proof (induction names arbitrary: n acc)
    case (Cons x names)
    show ?case
    proof (cases "resolveName p s m (n, x) acc")
      case (Inl e)
      then have "blank x \<or> m x = None \<or> m x = Some 0"
        by (auto simp: resolveName_def split: option.splits if_splits)
      then show ?thesis using Inl by auto
    next
      case (Inr r)
      then have "\<not> blank x" "m x \<noteq> None" "m x \<noteq> Some 0" unfolding resolveName_cases by auto
      then show ?thesis using Inr Cons.IH [of "Suc n" r] by simp
    qed
  qed simp
  then show ?thesis by (simp add: resolveIdentityNames_def names_ok_def)
qed

lemma resolveIdentityNames_set:
  assumes "resolveIdentityNames p s names m = Inr r"
  shows "set r = named_ids m names"
proof -
  have "for_each (resolveName p s m) (enumerate n names) acc = Inr r \<Longrightarrow>
      set r = set acc \<union> named_ids m names" for n acc
  proof (induction names arbitrary: n acc)
    case (Cons x names)
    then obtain t where t: "resolveName p s m (n, x) acc = Inr t"
      "for_each (resolveName p s m) (enumerate (Suc n) names) t = Inr r" by (auto simp: and_then_Inr_iff)
    from t(1) obtain d where "m x = Some d" "set t = insert d (set acc)"
      unfolding resolveName_cases by (auto split: if_splits)
    then show ?case using Cons.IH [OF t(2)] by (auto simp: named_ids_def)
  qed (simp add: named_ids_def)
  from this [of 0 "[]"] show ?thesis
    using assms by (simp add: resolveIdentityNames_def split: if_splits)
qed

lemma set_selectorKeys:
  "k \<in> set (selectorKeys srcIDs dstIDs rule) \<longleftrightarrow> SrcIdentity k \<in> set srcIDs \<and> DstIdentity k \<in> set dstIDs \<and>
     DstPort k \<in> set (Ports rule) \<and> Protocol k \<in> set (Protocols rule) \<and> Direction k \<in> set (Directions rule)"
  (is "_ \<longleftrightarrow> ?r")
proof
  assume ?r
  then show "k \<in> set (selectorKeys srcIDs dstIDs rule)"
    unfolding selectorKeys_def
    by (simp, rule_tac bexI [of _ "SrcIdentity k"], rule_tac bexI [of _ "DstIdentity k"],
        rule_tac bexI [of _ "DstPort k"], rule_tac bexI [of _ "Protocol k"],
        rule_tac image_eqI [of _ _ "Direction k"]) simp_all
qed (auto simp: selectorKeys_def)

section \<open>Adding the keys of one rule\<close>

lemma validateRule_ok:
  "is_ok (validateRule \<lparr>Key = k, Verdict = v\<rparr>) \<longleftrightarrow> SrcIdentity k \<noteq> 0 \<and> DstIdentity k \<noteq> 0 \<and>
     (Direction k = DirectionIngress \<or> Direction k = DirectionEgress) \<and> is_ok (validateVerdict v)"
  by (auto simp: validateRule_def split: sum.split)

lemma addKey_Inr:
  "addKey p v k t = Inr t' \<longleftrightarrow> is_ok (validateRule \<lparr>Key = k, Verdict = v\<rparr>) \<and>
     (map_of t k = None \<and> t' = AList.update k v t \<or> map_of t k = Some v \<and> t' = t)"
  by (auto simp: addKey_def is_ok_def split: sum.splits option.splits)

lemma addKeys_ok:
  "is_ok (for_each (addKey p v) ks t) \<longleftrightarrow>
     (\<forall>k\<in>set ks. is_ok (validateRule \<lparr>Key = k, Verdict = v\<rparr>) \<and> map_of t k \<in> {None, Some v})"
proof (induction ks arbitrary: t)
  case (Cons k ks)
  show ?case
  proof (cases "addKey p v k t")
    case (Inl e)
    then show ?thesis using addKey_Inr [of p v k t] by auto
  next
    case (Inr t')
    then have k: "is_ok (validateRule \<lparr>Key = k, Verdict = v\<rparr>)" "map_of t k \<in> {None, Some v}"
      and t': "map_of t' = (map_of t)(k \<mapsto> v)" unfolding addKey_Inr by auto
    then show ?thesis using Inr by (auto simp: Cons.IH)
  qed
qed simp

lemma addKeys_table:
  assumes "for_each (addKey p v) ks t = Inr t'" and "wf_map t"
  shows "wf_map t' \<and> map_of t' = (\<lambda>k. if k \<in> set ks then Some v else map_of t k)"
  using assms
proof (induction ks arbitrary: t)
  case (Cons k ks)
  then obtain u where u: "addKey p v k t = Inr u" "for_each (addKey p v) ks u = Inr t'"
    by (auto simp: and_then_Inr_iff)
  from u(1) Cons.prems(2) have "wf_map u" "map_of u = (map_of t)(k \<mapsto> v)" unfolding addKey_Inr by auto
  then show ?case using Cons.IH [OF u(2)] by auto
qed simp

section \<open>One rule\<close>

lemma names_ok_nonempty:
  assumes "names_ok m names"
  obtains i where "i \<in> named_ids m names" "i \<noteq> 0"
  using assms unfolding names_ok_def named_ids_def by (cases names) auto

lemma names_ok_nonzero: "names_ok m names \<Longrightarrow> 0 \<notin> named_ids m names"
  unfolding names_ok_def named_ids_def by auto

lemma compileRule_resolved:
  assumes "names_ok m (Sources rule)" "names_ok m (Destinations rule)"
  obtains q srcIDs dstIDs where
    "set srcIDs = named_ids m (Sources rule)" "set dstIDs = named_ids m (Destinations rule)"
    "compileRule m p (i, rule) t =
       (if Ports rule = [] then Inl (Ports_Empty q)
        else if Protocols rule = [] then Inl (Protocols_Empty q)
        else if Directions rule = [] then Inl (Directions_Empty q)
        else case validateVerdict (sel_Verdict rule) of
          Inl e \<Rightarrow> Inl (Verdict_Invalid q e)
        | Inr _ \<Rightarrow> for_each (addKey q (sel_Verdict rule)) (selectorKeys srcIDs dstIDs rule) t)"
proof -
  let ?q = "rulePathOf p i rule"
  obtain a b where a: "resolveIdentityNames ?q ''sources'' (Sources rule) m = Inr a"
    and b: "resolveIdentityNames ?q ''destinations'' (Destinations rule) m = Inr b"
    using assms by (metis is_okE resolveIdentityNames_ok)
  show thesis
    by (rule that [of a b ?q])
      (use a b in \<open>simp_all add: compileRule_def Let_def resolveIdentityNames_set\<close>)
qed

lemma compileRule_names:
  "is_ok (compileRule m p (i, rule) t) \<Longrightarrow> names_ok m (Sources rule) \<and> names_ok m (Destinations rule)"
  by (auto simp: is_ok_iff compileRule_def Let_def and_then_Inr_iff
      intro: iffD1 [OF resolveIdentityNames_ok, OF is_ok_iff [THEN iffD2], OF exI])

lemma compileRule_ok:
  "is_ok (compileRule m p (i, rule) t) \<longleftrightarrow>
     rule_ok m rule \<and> (\<forall>k. granted m rule k \<longrightarrow> map_of t k \<in> {None, Some (sel_Verdict rule)})"
proof (cases "names_ok m (Sources rule) \<and> names_ok m (Destinations rule)")
  case True
  then obtain q srcIDs dstIDs where sets: "set srcIDs = named_ids m (Sources rule)"
    "set dstIDs = named_ids m (Destinations rule)" and eq: "compileRule m p (i, rule) t =
       (if Ports rule = [] then Inl (Ports_Empty q)
        else if Protocols rule = [] then Inl (Protocols_Empty q)
        else if Directions rule = [] then Inl (Directions_Empty q)
        else case validateVerdict (sel_Verdict rule) of
          Inl e \<Rightarrow> Inl (Verdict_Invalid q e)
        | Inr _ \<Rightarrow> for_each (addKey q (sel_Verdict rule)) (selectorKeys srcIDs dstIDs rule) t)"
    using compileRule_resolved by metis
  have keys: "k \<in> set (selectorKeys srcIDs dstIDs rule) \<longleftrightarrow> granted m rule k" for k
    by (simp add: set_selectorKeys granted_def sets)
  have zero: "granted m rule k \<Longrightarrow> SrcIdentity k \<noteq> 0 \<and> DstIdentity k \<noteq> 0" for k
    using True names_ok_nonzero unfolding granted_def by metis
  have dirs: "(\<forall>k. granted m rule k \<longrightarrow> P (Direction k)) \<longleftrightarrow> (\<forall>d\<in>set (Directions rule). P d)"
    if "Ports rule \<noteq> []" "Protocols rule \<noteq> []" for P
  proof
    assume l: "\<forall>k. granted m rule k \<longrightarrow> P (Direction k)"
    obtain s d where sd: "s \<in> named_ids m (Sources rule)" "d \<in> named_ids m (Destinations rule)"
      using True names_ok_nonempty by metis
    show "\<forall>d\<in>set (Directions rule). P d"
    proof
      fix dir assume "dir \<in> set (Directions rule)"
      with sd that show "P dir"
        using l [rule_format, of "\<lparr>SrcIdentity = s, DstIdentity = d, DstPort = hd (Ports rule),
            Protocol = hd (Protocols rule), Direction = dir\<rparr>"] by (simp add: granted_def)
    qed
  qed (auto simp: granted_def)
  show ?thesis
  proof (cases "Ports rule = [] \<or> Protocols rule = [] \<or> Directions rule = [] \<or>
      \<not> is_ok (validateVerdict (sel_Verdict rule))")
    case True
    then show ?thesis by (auto simp: eq rule_ok_def is_ok_def split: sum.splits)
  next
    case False
    then have "is_ok (compileRule m p (i, rule) t) \<longleftrightarrow>
        is_ok (for_each (addKey q (sel_Verdict rule)) (selectorKeys srcIDs dstIDs rule) t)"
      by (auto simp: eq)
    also have "\<dots> \<longleftrightarrow> (\<forall>k. granted m rule k \<longrightarrow> Direction k = DirectionIngress \<or> Direction k = DirectionEgress) \<and>
        (\<forall>k. granted m rule k \<longrightarrow> map_of t k \<in> {None, Some (sel_Verdict rule)})"
      unfolding addKeys_ok Ball_def keys validateRule_ok using zero False by blast
    also have "\<dots> \<longleftrightarrow> rule_ok m rule \<and> (\<forall>k. granted m rule k \<longrightarrow> map_of t k \<in> {None, Some (sel_Verdict rule)})"
      using dirs [of "\<lambda>d. d = DirectionIngress \<or> d = DirectionEgress"] False True
      unfolding rule_ok_def by blast
    finally show ?thesis .
  qed
next
  case False
  then show ?thesis using compileRule_names unfolding rule_ok_def by blast
qed

lemma compileRule_table:
  assumes "compileRule m p (i, rule) t = Inr t'" and "wf_map t"
  shows "wf_map t' \<and> map_of t' = (\<lambda>k. if granted m rule k then Some (sel_Verdict rule) else map_of t k)"
proof -
  have ok: "is_ok (compileRule m p (i, rule) t)" using assms(1) by simp
  then obtain q srcIDs dstIDs where sets: "set srcIDs = named_ids m (Sources rule)"
    "set dstIDs = named_ids m (Destinations rule)" and eq: "compileRule m p (i, rule) t =
       (if Ports rule = [] then Inl (Ports_Empty q)
        else if Protocols rule = [] then Inl (Protocols_Empty q)
        else if Directions rule = [] then Inl (Directions_Empty q)
        else case validateVerdict (sel_Verdict rule) of
          Inl e \<Rightarrow> Inl (Verdict_Invalid q e)
        | Inr _ \<Rightarrow> for_each (addKey q (sel_Verdict rule)) (selectorKeys srcIDs dstIDs rule) t)"
    using compileRule_resolved compileRule_names by metis
  have "for_each (addKey q (sel_Verdict rule)) (selectorKeys srcIDs dstIDs rule) t = Inr t'"
    using assms(1) unfolding eq by (auto split: if_splits sum.splits)
  from addKeys_table [OF this assms(2)] show ?thesis
    by (simp add: set_selectorKeys granted_def sets)
qed

section \<open>All rules\<close>

definition covers :: "(string \<rightharpoonup> u32) \<Rightarrow> PolicyRuleSelector list \<Rightarrow> rule_table \<Rightarrow> bool" where
  "covers m rules t \<longleftrightarrow> wf_map t \<and> (\<forall>k v. map_of t k = Some v \<longleftrightarrow> grants m rules k v)"

lemma grants_append [simp]: "grants m (rs @ rs') k v \<longleftrightarrow> grants m rs k v \<or> grants m rs' k v"
  by (auto simp: grants_def)

lemma grants_single [simp]: "grants m [r] k v \<longleftrightarrow> granted m r k \<and> sel_Verdict r = v"
  by (auto simp: grants_def)

lemma covers_Nil [simp]: "covers m [] []"
  by (simp add: covers_def grants_def)

lemma covers_unambiguous: "covers m rules t \<Longrightarrow> unambiguous m rules"
  unfolding covers_def unambiguous_def by (metis option.inject)

lemma unambiguous_prefix: "unambiguous m (rs @ rs') \<Longrightarrow> unambiguous m rs"
  unfolding unambiguous_def grants_append by blast

lemma compileRule_covers:
  assumes "covers m rs t" and "compileRule m p (i, rule) t = Inr t'"
  shows "covers m (rs @ [rule]) t' \<and> rule_ok m rule"
proof -
  have "is_ok (compileRule m p (i, rule) t)" using assms(2) by simp
  then have ok: "rule_ok m rule" "\<And>k. granted m rule k \<Longrightarrow> map_of t k \<in> {None, Some (sel_Verdict rule)}"
    unfolding compileRule_ok by blast+
  have t': "wf_map t'" "map_of t' = (\<lambda>k. if granted m rule k then Some (sel_Verdict rule) else map_of t k)"
    using compileRule_table [OF assms(2)] assms(1) unfolding covers_def by blast+
  have "map_of t' k = Some v \<longleftrightarrow> grants m (rs @ [rule]) k v" for k v
  proof (cases "granted m rule k")
    case True
    have "grants m rs k v \<Longrightarrow> v = sel_Verdict rule"
      using ok(2) [OF True] assms(1) unfolding covers_def by (metis insert_iff option.distinct(1)
          option.inject singletonD)
    then show ?thesis using True t'(2) by auto
  next
    case False
    then show ?thesis using assms(1) t'(2) unfolding covers_def by simp
  qed
  then show ?thesis using ok(1) t'(1) unfolding covers_def by blast
qed

lemma compileRule_succeeds:
  assumes "covers m rs t" and "rule_ok m rule" and "unambiguous m (rs @ [rule])"
  shows "\<exists>t'. compileRule m p (i, rule) t = Inr t'"
proof -
  have "map_of t k \<in> {None, Some (sel_Verdict rule)}" if "granted m rule k" for k
  proof (cases "map_of t k")
    case (Some v)
    then have "grants m (rs @ [rule]) k v" using assms(1) by (simp add: covers_def)
    moreover have "grants m (rs @ [rule]) k (sel_Verdict rule)" using that by simp
    ultimately show ?thesis using Some assms(3) unfolding unambiguous_def by blast
  qed simp
  then show ?thesis using assms(2) compileRule_ok [of m p i rule t] by (simp add: is_ok_iff)
qed

lemma compilePolicy_covers:
  assumes "covers m rs t" and "compilePolicy m (j, policy) t = Inr t'"
  shows "covers m (rs @ Rules policy) t' \<and> (\<forall>r\<in>set (Rules policy). rule_ok m r)"
proof -
  obtain p where loop: "for_each (compileRule m p) (enumerate 0 (Rules policy)) t = Inr t'"
    using assms(2) unfolding compilePolicy_def by (auto simp: Let_def)
  let ?I = "\<lambda>(ys :: (nat \<times> PolicyRuleSelector) list) u.
    covers m (rs @ map snd ys) u \<and> (\<forall>r\<in>set (map snd ys). rule_ok m r)"
  have "?I (enumerate 0 (Rules policy)) t'"
    using loop
  proof (rule for_each_invariant [where I = ?I])
    fix ys x zs u v assume "?I ys u" "compileRule m p x u = Inr v"
    then show "?I (ys @ [x]) v"
      using compileRule_covers [of m "rs @ map snd ys" u p "fst x" "snd x" v] by auto
  qed (use assms(1) in simp)
  then show ?thesis by simp
qed

lemma compilePolicy_succeeds:
  assumes "covers m rs t" and "\<forall>r\<in>set (Rules policy). rule_ok m r" and "unambiguous m (rs @ Rules policy)"
  shows "\<exists>t'. compilePolicy m (j, policy) t = Inr t'"
proof -
  let ?I = "\<lambda>(ys :: (nat \<times> PolicyRuleSelector) list) u. covers m (rs @ map snd ys) u"
  have "\<exists>t'. for_each (compileRule m p) (enumerate 0 (Rules policy)) t = Inr t' \<and>
      ?I (enumerate 0 (Rules policy)) t'" for p
  proof (rule for_each_progress [where I = ?I])
    fix ys x zs u assume e: "enumerate 0 (Rules policy) = ys @ x # zs" and u: "?I ys u"
    have rules: "Rules policy = map snd ys @ [snd x] @ map snd zs" using map_snd_enumerate_split [OF e] by simp
    have "unambiguous m ((rs @ map snd ys) @ [snd x])"
      using unambiguous_prefix [of m "rs @ map snd ys @ [snd x]" "map snd zs"] assms(3) rules by simp
    moreover have "rule_ok m (snd x)" using assms(2) rules by simp
    ultimately obtain v where v: "compileRule m p (fst x, snd x) u = Inr v"
      using compileRule_succeeds u by metis
    then show "\<exists>v. compileRule m p x u = Inr v \<and> ?I (ys @ [x]) v"
      using compileRule_covers [OF u v] by (intro exI [of _ v]) simp
  qed (use assms(1) in simp)
  then show ?thesis unfolding compilePolicy_def by (auto simp: Let_def)
qed

lemma compileTable_covers:
  assumes "for_each (compilePolicy m) (enumerate 0 (Policies spec)) [] = Inr t"
  shows "covers m (spec_rules spec) t \<and> (\<forall>r\<in>set (spec_rules spec). rule_ok m r)"
proof -
  let ?rs = "\<lambda>(ys :: (nat \<times> Policy) list). concat (map Rules (map snd ys))"
  let ?I = "\<lambda>ys u. covers m (?rs ys) u \<and> (\<forall>r\<in>set (?rs ys). rule_ok m r)"
  have "?I (enumerate 0 (Policies spec)) t"
    using assms
  proof (rule for_each_invariant [where I = ?I])
    fix ys x zs u v assume "?I ys u" "compilePolicy m x u = Inr v"
    then show "?I (ys @ [x]) v"
      using compilePolicy_covers [of m "?rs ys" u "fst x" "snd x" v] by auto
  qed simp
  then show ?thesis by (simp add: spec_rules_def)
qed

lemma compileTable_succeeds:
  assumes "\<forall>r\<in>set (spec_rules spec). rule_ok m r" and "unambiguous m (spec_rules spec)"
  shows "\<exists>t. for_each (compilePolicy m) (enumerate 0 (Policies spec)) [] = Inr t"
proof -
  let ?rs = "\<lambda>(ys :: (nat \<times> Policy) list). concat (map Rules (map snd ys))"
  let ?I = "\<lambda>ys u. covers m (?rs ys) u"
  have "\<exists>t. for_each (compilePolicy m) (enumerate 0 (Policies spec)) [] = Inr t \<and>
      ?I (enumerate 0 (Policies spec)) t"
  proof (rule for_each_progress [where I = ?I])
    fix ys x zs u assume e: "enumerate 0 (Policies spec) = ys @ x # zs" and u: "?I ys u"
    have rules: "spec_rules spec = ?rs ys @ Rules (snd x) @ ?rs zs"
      unfolding spec_rules_def map_snd_enumerate_split [OF e] by simp
    have "unambiguous m (?rs ys @ Rules (snd x))"
      using unambiguous_prefix [of m "?rs ys @ Rules (snd x)" "?rs zs"] assms(2) rules by simp
    moreover have "\<forall>r\<in>set (Rules (snd x)). rule_ok m r" using assms(1) rules by simp
    ultimately obtain v where v: "compilePolicy m (fst x, snd x) u = Inr v"
      using compilePolicy_succeeds u by metis
    then show "\<exists>v. compilePolicy m x u = Inr v \<and> ?I (ys @ [x]) v"
      using compilePolicy_covers [OF u v] by (intro exI [of _ v]) simp
  qed simp
  then show ?thesis by blast
qed

section \<open>Sorting\<close>

lemma compare_then:
  fixes a b :: "'a :: linorder" and r :: int
  shows "(if a \<noteq> b then if a < b then - 1 else 1 else r) \<le> 0 \<longleftrightarrow> \<not> (b < a \<or> b = a \<and> \<not> r \<le> 0)"
  by auto

lemma compareKeys_le: "compareKeys a b \<le> 0 \<longleftrightarrow> a \<le> b"
proof -
  have "compareKeys a b \<le> 0 \<longleftrightarrow> \<not> b < a"
    unfolding key_less_iff compareKeys_def compare_then by simp
  then show ?thesis by (simp only: not_less)
qed

lemma SortFunc_compareKeys: "SortFunc compareKeys xs = sort xs"
proof -
  have "insertFunc compareKeys x ys = insort x ys" for x ys
    by (induction ys) (simp_all add: compareKeys_le)
  then have "insertFunc compareKeys = insort" by (intro ext)
  then show ?thesis by (simp add: SortFunc_def sort_key_def)
qed

lemma sort_permuted: "permutes_lists order \<Longrightarrow> sort (order xs) = sort xs"
  by (rule properties_for_sort) (simp_all add: permutes_listsD)

lemma Compile_Inr:
  "Compile order spec ids = Inr rs \<longleftrightarrow> wf_identities ids \<and>
     (\<exists>t. for_each (compilePolicy (spiffe_index ids)) (enumerate 0 (Policies spec)) [] = Inr t \<and>
       rs = map (\<lambda>k. \<lparr>Key = k, Verdict = the (map_of t k)\<rparr>) (sort (order (map_keys t))))"
  unfolding Compile_def SortFunc_compareKeys
  by (auto simp: and_then_Inr_iff identitiesBySpiffe_Inr Let_def)

section \<open>The compiled rules\<close>

lemma Compile_rules:
  assumes "permutes_lists order" and "Compile order spec ids = Inr rs"
  shows "sorted_wrt (<) (map Key rs)"
    and "\<lparr>Key = k, Verdict = v\<rparr> \<in> set rs \<longleftrightarrow> grants (spiffe_index ids) (spec_rules spec) k v"
    and "r \<in> set (spec_rules spec) \<Longrightarrow> rule_ok (spiffe_index ids) r"
proof -
  obtain t where t: "for_each (compilePolicy (spiffe_index ids)) (enumerate 0 (Policies spec)) [] = Inr t"
    and rs: "rs = map (\<lambda>k. \<lparr>Key = k, Verdict = the (map_of t k)\<rparr>) (sort (order (map_keys t)))"
    using assms(2) unfolding Compile_Inr by blast
  have cov: "wf_map t" "\<And>k v. map_of t k = Some v \<longleftrightarrow> grants (spiffe_index ids) (spec_rules spec) k v"
    using compileTable_covers [OF t] unfolding covers_def by blast+
  have keys: "map Key rs = sort (map_keys t)"
    unfolding rs sort_permuted [OF assms(1)] by (simp add: comp_def)
  show "sorted_wrt (<) (map Key rs)"
    unfolding keys strict_sorted_iff using cov(1) by (simp add: wf_map_def map_keys_def)
  have "\<lparr>Key = k, Verdict = v\<rparr> \<in> set rs \<longleftrightarrow> map_of t k = Some v"
    unfolding rs sort_permuted [OF assms(1)]
    by (auto simp: map_keys_def image_iff dom_map_of_conv_image_fst [symmetric])
  then show "\<lparr>Key = k, Verdict = v\<rparr> \<in> set rs \<longleftrightarrow> grants (spiffe_index ids) (spec_rules spec) k v"
    using cov(2) by blast
  show "r \<in> set (spec_rules spec) \<Longrightarrow> rule_ok (spiffe_index ids) r"
    using compileTable_covers [OF t] by blast
qed

lemma Compile_ok:
  "is_ok (Compile order spec ids) \<longleftrightarrow> wf_identities ids \<and>
     (\<forall>r\<in>set (spec_rules spec). rule_ok (spiffe_index ids) r) \<and>
     unambiguous (spiffe_index ids) (spec_rules spec)" (is "_ \<longleftrightarrow> ?r")
proof
  assume "is_ok (Compile order spec ids)"
  then obtain t where "wf_identities ids"
    "for_each (compilePolicy (spiffe_index ids)) (enumerate 0 (Policies spec)) [] = Inr t"
    unfolding is_ok_iff Compile_Inr by blast
  then show ?r using compileTable_covers covers_unambiguous by metis
next
  assume ?r
  then show "is_ok (Compile order spec ids)"
    unfolding is_ok_iff Compile_Inr using compileTable_succeeds by metis
qed

section \<open>Flags\<close>

text \<open>
  \<open>flagMask\<close> shifts by its argument, but the flag constants are masks already.
\<close>

lemma flagMask_values:
  "flagMask PolicyFlagSockmapEligible = 2" "flagMask PolicyFlagL7Required = 4"
  "flagMask PolicyFlagMTLSRequired = 16" "flagMask PolicyFlagAudit = 0" "knownMask = 22"
  by (simp_all add: flagMask_def knownMask_def push_bit_eq_mult)

lemma and_power_of_2: "f AND push_bit n 1 \<in> {0, push_bit n (1 :: u8)}"
proof (cases "bit f n")
  case True
  then have "f AND push_bit n 1 = push_bit n 1" by (intro bit_eqI) (auto simp: bit_simps)
  then show ?thesis by simp
next
  case False
  then have "f AND push_bit n 1 = 0" by (intro bit_eqI) (auto simp: bit_simps)
  then show ?thesis by simp
qed

lemma u8_mask_22: "f AND NOT (22 :: u8) = 0 \<longleftrightarrow> f \<in> {0, 2, 4, 6, 16, 18, 20, 22}"
proof
  assume z: "f AND NOT 22 = 0"
  have "f = (f AND 22) OR (f AND NOT 22)" by (simp flip: bit.conj_disj_distrib)
  then have f: "f = f AND 22" using z by simp
  have "f AND 22 = (f AND 2) OR (f AND 4) OR (f AND 16)" by (simp flip: bit.conj_disj_distrib)
  moreover have "f AND 2 \<in> {0, 2}" "f AND 4 \<in> {0, 4}" "f AND 16 \<in> {0, 16}"
    using and_power_of_2 [of f 1] and_power_of_2 [of f 2] and_power_of_2 [of f 4]
    by (simp_all add: push_bit_eq_mult)
  ultimately have "f AND 22 \<in> {0, 2, 4, 6, 16, 18, 20, 22}" by auto
  then show "f \<in> {0, 2, 4, 6, 16, 18, 20, 22}" using f by simp
qed auto

lemma validateVerdict_ok:
  "is_ok (validateVerdict v) \<longleftrightarrow>
     Action v \<in> {0, 1, 2} \<and> Flags v \<in> {0, 4, 16, 20} \<or> Action v = 0 \<and> Flags v = 2"
proof -
  have "Flags v AND 2 \<noteq> 0 \<longleftrightarrow> Flags v \<in> {2, 6, 18, 22}" "Flags v AND 4 \<noteq> 0 \<longleftrightarrow> Flags v \<in> {4, 6, 20, 22}"
    "Flags v AND 16 \<noteq> 0 \<longleftrightarrow> Flags v \<in> {16, 18, 20, 22}" if "Flags v \<in> {0, 2, 4, 6, 16, 18, 20, 22}"
    using that by auto
  then show ?thesis
    unfolding validateVerdict_def hasFlag_def flagMask_values u8_mask_22 by (auto simp: is_ok_def)
qed

end
