(* ===== verification/Reference_Evaluator.thy ===== *)
theory Reference_Evaluator
  imports Compiler_Correctness
begin

text \<open>
  \<^verbatim>\<open>internal/reference/evaluator.go\<close>: the policy oracle, and the two helpers of
  \<^verbatim>\<open>internal/control/conformance_test.go\<close> that compare it with the compiler. The conformance
  gate samples random specifications; here the comparison is proved for all of them.
\<close>

section \<open>The evaluator\<close>

definition UnknownIdentityFailOpen :: u8 where [simp]: "UnknownIdentityFailOpen = 0"
definition UnknownIdentityFailClosed :: u8 where [simp]: "UnknownIdentityFailClosed = 1"

record ref_Rule =
  rule_SrcIdentity :: u32
  rule_DstIdentity :: u32
  rule_DstPort :: u16
  rule_Protocol :: u8
  rule_Direction :: u8
  rule_Verdict :: PolicyVerdict

record ref_Input =
  in_SrcIdentity :: u32
  in_DstIdentity :: u32
  in_DstPort :: u16
  in_Protocol :: u8
  in_Direction :: u8

text \<open>The evaluator's private \<open>ruleKey\<close> has the fields of \<open>PolicyRuleKey\<close>.\<close>

record MapEvaluator =
  unknownMode :: u8
  eval_rules :: "(PolicyRuleKey, PolicyVerdict) gomap"

datatype evaluator_error =
    Invalid_Mode u8
  | Invalid_Rule nat rule_error
  | Duplicate_Key nat PolicyRuleKey

datatype context_state =
    Nil_Context
  | Context_Err string
  | Live_Context

datatype evaluate_error =
    Err_Nil_Context
  | Err_Context string

definition ref_flagMask :: "u8 \<Rightarrow> u8" where
  "ref_flagMask pos = push_bit (unat pos) 1"

definition ref_hasFlag :: "u8 \<Rightarrow> u8 \<Rightarrow> bool" where
  "ref_hasFlag flags pos \<longleftrightarrow> flags AND ref_flagMask pos \<noteq> 0"

definition ref_validateVerdict :: "PolicyVerdict \<Rightarrow> verdict_error + unit" where
  "ref_validateVerdict verdict =
     (let known = ref_flagMask PolicyFlagSockmapEligible OR ref_flagMask PolicyFlagL7Required OR
            ref_flagMask PolicyFlagMTLSRequired OR ref_flagMask PolicyFlagAudit;
          sockmap = ref_hasFlag (Flags verdict) PolicyFlagSockmapEligible;
          l7 = ref_hasFlag (Flags verdict) PolicyFlagL7Required;
          mtls = ref_hasFlag (Flags verdict) PolicyFlagMTLSRequired
      in if Action verdict \<notin> {PolicyActionAllow, PolicyActionDeny, PolicyActionRedirectProxy}
         then Inl (Unsupported_Action (Action verdict))
         else if Flags verdict AND NOT known \<noteq> 0 then Inl (Unknown_Flag_Bits (Flags verdict AND NOT known))
         else if sockmap \<and> Action verdict \<noteq> PolicyActionAllow then Inl Sockmap_Requires_Allow
         else if sockmap \<and> l7 then Inl Sockmap_With_L7
         else if sockmap \<and> mtls then Inl Sockmap_With_MTLS
         else Inr ())"

definition ref_validateRule :: "ref_Rule \<Rightarrow> rule_error + unit" where
  "ref_validateRule rule =
     (if rule_SrcIdentity rule = IdentityUnknown \<or> rule_DstIdentity rule = IdentityUnknown
      then Inl Rule_Unknown_Identity
      else if rule_Direction rule \<noteq> DirectionIngress \<and> rule_Direction rule \<noteq> DirectionEgress
      then Inl (Unsupported_Direction (rule_Direction rule))
      else case ref_validateVerdict (rule_Verdict rule) of
        Inl e \<Rightarrow> Inl (Rule_Verdict e)
      | Inr _ \<Rightarrow> Inr ())"

definition keyFromRule :: "ref_Rule \<Rightarrow> PolicyRuleKey" where
  "keyFromRule rule =
     \<lparr>SrcIdentity = rule_SrcIdentity rule, DstIdentity = rule_DstIdentity rule,
      DstPort = rule_DstPort rule, Protocol = rule_Protocol rule, Direction = rule_Direction rule\<rparr>"

definition addRule ::
  "nat \<times> ref_Rule \<Rightarrow> (PolicyRuleKey, PolicyVerdict) gomap \<Rightarrow>
   evaluator_error + (PolicyRuleKey, PolicyVerdict) gomap" where
  "addRule = (\<lambda>(i, rule) compiled.
     case ref_validateRule rule of
       Inl e \<Rightarrow> Inl (Invalid_Rule i e)
     | Inr _ \<Rightarrow>
         (case map_of compiled (keyFromRule rule) of
            Some _ \<Rightarrow> Inl (Duplicate_Key i (keyFromRule rule))
          | None \<Rightarrow> Inr (AList.update (keyFromRule rule) (rule_Verdict rule) compiled)))"

definition NewEvaluator :: "u8 \<Rightarrow> ref_Rule list \<Rightarrow> evaluator_error + MapEvaluator" where
  "NewEvaluator mode rules =
     (if mode \<noteq> UnknownIdentityFailOpen \<and> mode \<noteq> UnknownIdentityFailClosed then Inl (Invalid_Mode mode)
      else and_then (for_each addRule (enumerate 0 rules) [])
        (\<lambda>compiled. Inr \<lparr>unknownMode = mode, eval_rules = compiled\<rparr>))"

definition Evaluate :: "MapEvaluator \<Rightarrow> context_state \<Rightarrow> ref_Input \<Rightarrow> evaluate_error + PolicyVerdict" where
  "Evaluate e ctx inp =
     (case ctx of
        Nil_Context \<Rightarrow> Inl Err_Nil_Context
      | Context_Err msg \<Rightarrow> Inl (Err_Context msg)
      | Live_Context \<Rightarrow>
          if in_SrcIdentity inp = IdentityUnknown \<or> in_DstIdentity inp = IdentityUnknown
          then if unknownMode e = UnknownIdentityFailOpen
            then Inr \<lparr>Action = PolicyActionAllow, Flags = 0\<rparr>
            else Inr \<lparr>Action = PolicyActionDeny, Flags = 0\<rparr>
          else case map_of (eval_rules e)
              \<lparr>SrcIdentity = in_SrcIdentity inp, DstIdentity = in_DstIdentity inp,
               DstPort = in_DstPort inp, Protocol = in_Protocol inp, Direction = in_Direction inp\<rparr> of
            Some verdict \<Rightarrow> Inr verdict
          | None \<Rightarrow> Inr \<lparr>Action = PolicyActionDeny, Flags = 0\<rparr>)"

section \<open>The conformance gate\<close>

definition referenceRule :: "PolicyRule \<Rightarrow> ref_Rule" where
  "referenceRule rule =
     \<lparr>rule_SrcIdentity = SrcIdentity (Key rule), rule_DstIdentity = DstIdentity (Key rule),
      rule_DstPort = DstPort (Key rule), rule_Protocol = Protocol (Key rule),
      rule_Direction = Direction (Key rule), rule_Verdict = Verdict rule\<rparr>"

definition newReferenceEvaluatorFromCompiled ::
  "PolicyRule list \<Rightarrow> u8 \<Rightarrow> evaluator_error + MapEvaluator" where
  "newReferenceEvaluatorFromCompiled rules mode = NewEvaluator mode (map referenceRule rules)"

text \<open>The oracle stops at the first unresolved name, whichever rule it is in.\<close>

definition oracleName :: "(string \<rightharpoonup> u32) \<Rightarrow> string \<Rightarrow> u32 list \<Rightarrow> string + u32 list" where
  "oracleName bySpiffe name out =
     (case bySpiffe name of
        None \<Rightarrow> Inl name
      | Some i \<Rightarrow> Inr (if i \<in> set out then out else out @ [i]))"

definition resolveNamesForOracle :: "string list \<Rightarrow> (string \<rightharpoonup> u32) \<Rightarrow> string + u32 list" where
  "resolveNamesForOracle names bySpiffe = for_each (oracleName bySpiffe) names []"

definition input_key :: "ref_Input \<Rightarrow> PolicyRuleKey" where
  "input_key inp =
     \<lparr>SrcIdentity = in_SrcIdentity inp, DstIdentity = in_DstIdentity inp,
      DstPort = in_DstPort inp, Protocol = in_Protocol inp, Direction = in_Direction inp\<rparr>"

primrec oracleRules ::
  "(string \<rightharpoonup> u32) \<Rightarrow> ref_Input \<Rightarrow> PolicyRuleSelector list \<Rightarrow> string + PolicyVerdict" where
  "oracleRules bySpiffe inp [] = Inr \<lparr>Action = PolicyActionDeny, Flags = 0\<rparr>"
| "oracleRules bySpiffe inp (rule # rules) =
     and_then (resolveNamesForOracle (Sources rule) bySpiffe) (\<lambda>srcIDs.
     and_then (resolveNamesForOracle (Destinations rule) bySpiffe) (\<lambda>dstIDs.
     if input_key inp \<in> set (selectorKeys srcIDs dstIDs rule) then Inr (sel_Verdict rule)
     else oracleRules bySpiffe inp rules))"

definition naiveEvaluateSpec ::
  "PolicySpec \<Rightarrow> Identity list \<Rightarrow> u8 \<Rightarrow> ref_Input \<Rightarrow> string + PolicyVerdict" where
  "naiveEvaluateSpec spec ids mode inp =
     (if in_SrcIdentity inp = IdentityUnknown \<or> in_DstIdentity inp = IdentityUnknown
      then if mode = UnknownIdentityFailOpen
        then Inr \<lparr>Action = PolicyActionAllow, Flags = 0\<rparr>
        else Inr \<lparr>Action = PolicyActionDeny, Flags = 0\<rparr>
      else oracleRules (foldl (\<lambda>m x. m(SpiffeID x \<mapsto> ID x)) Map.empty ids) inp
        (concat (map Rules (Policies spec))))"

end
