(* ===== verification/Compiler_Conformance.thy ===== *)
theory Compiler_Conformance
  imports Reference_Evaluator
begin

text \<open>
  The compiler, the reference evaluator and the declarative oracle agree. The lemmas on
  \<open>NewEvaluator\<close> and \<open>Evaluate\<close> describe them by the set of rules; the theorems at the end are the
  compiler's contract.
\<close>

section \<open>Validators\<close>

lemma ref_validateVerdict_eq: "ref_validateVerdict v = validateVerdict v"
proof -
  have "ref_hasFlag f x = hasFlag f x" for f x
    by (simp add: ref_hasFlag_def hasFlag_def ref_flagMask_def flagMask_def)
  moreover have "ref_flagMask x = flagMask x" for x by (simp add: ref_flagMask_def flagMask_def)
  ultimately show ?thesis unfolding ref_validateVerdict_def validateVerdict_def knownMask_def by simp
qed

lemma referenceRule_simps [simp]:
  "keyFromRule (referenceRule r) = Key r" "rule_Verdict (referenceRule r) = Verdict r"
  "ref_validateRule (referenceRule r) = validateRule r"
  by (simp_all add: keyFromRule_def referenceRule_def ref_validateRule_def validateRule_def
      ref_validateVerdict_eq)

section \<open>The evaluator's table\<close>

definition rule_of :: "ref_Rule list \<Rightarrow> PolicyRuleKey \<Rightarrow> PolicyVerdict \<Rightarrow> bool" where
  "rule_of rules k v \<longleftrightarrow> (\<exists>r\<in>set rules. keyFromRule r = k \<and> rule_Verdict r = v)"

lemma NewEvaluator_table:
  assumes "mode = UnknownIdentityFailOpen \<or> mode = UnknownIdentityFailClosed"
    and "distinct (map keyFromRule rules)" and "\<forall>r\<in>set rules. is_ok (ref_validateRule r)"
  obtains e where "NewEvaluator mode rules = Inr e" "unknownMode e = mode"
    "\<And>k v. map_of (eval_rules e) k = Some v \<longleftrightarrow> rule_of rules k v"
proof -
  let ?I = "\<lambda>(ys :: (nat \<times> ref_Rule) list) t. \<forall>k v. map_of t k = Some v \<longleftrightarrow> rule_of (map snd ys) k v"
  have "\<exists>t. for_each addRule (enumerate 0 rules) [] = Inr t \<and> ?I (enumerate 0 rules) t"
  proof (rule for_each_progress [where I = ?I])
    fix ys x zs u assume e: "enumerate 0 rules = ys @ x # zs" and u: "?I ys u"
    have rules: "rules = map snd ys @ snd x # map snd zs" using map_snd_enumerate_split [OF e] .
    have "keyFromRule (snd x) \<notin> keyFromRule ` set (map snd ys)" using assms(2) rules by auto
    then have "map_of u (keyFromRule (snd x)) = None"
      using u by (metis image_eqI not_None_eq rule_of_def)
    moreover have "is_ok (ref_validateRule (snd x))" using assms(3) rules by simp
    ultimately have "addRule x u = Inr (AList.update (keyFromRule (snd x)) (rule_Verdict (snd x)) u)"
      by (cases x) (auto simp: addRule_def)
    moreover have "?I (ys @ [x]) (AList.update (keyFromRule (snd x)) (rule_Verdict (snd x)) u)"
    proof (intro allI)
      fix k v
      have "rule_of (map snd (ys @ [x])) k v \<longleftrightarrow>
          rule_of (map snd ys) k v \<or> keyFromRule (snd x) = k \<and> rule_Verdict (snd x) = v"
        by (auto simp: rule_of_def)
      moreover have "map_of u k = Some v \<longleftrightarrow> rule_of (map snd ys) k v" using u by blast
      ultimately show "map_of (AList.update (keyFromRule (snd x)) (rule_Verdict (snd x)) u) k = Some v \<longleftrightarrow>
          rule_of (map snd (ys @ [x])) k v"
        using \<open>map_of u (keyFromRule (snd x)) = None\<close> by (cases "k = keyFromRule (snd x)") auto
    qed
    ultimately show "\<exists>v. addRule x u = Inr v \<and> ?I (ys @ [x]) v" by blast
  qed (simp add: rule_of_def)
  then obtain t where t: "for_each addRule (enumerate 0 rules) [] = Inr t" "?I (enumerate 0 rules) t"
    by blast
  show thesis
    by (rule that [of "\<lparr>unknownMode = mode, eval_rules = t\<rparr>"])
      (use assms(1) t in \<open>auto simp: NewEvaluator_def\<close>)
qed

lemma Evaluate_live:
  "Evaluate e Live_Context inp =
     Inr (if in_SrcIdentity inp = 0 \<or> in_DstIdentity inp = 0
          then \<lparr>Action = (if unknownMode e = UnknownIdentityFailOpen then PolicyActionAllow
                          else PolicyActionDeny), Flags = 0\<rparr>
          else case map_of (eval_rules e) (input_key inp) of
            Some v \<Rightarrow> v | None \<Rightarrow> \<lparr>Action = PolicyActionDeny, Flags = 0\<rparr>)"
  by (simp add: Evaluate_def input_key_def split: option.split)

section \<open>The oracle\<close>

lemma foldl_spiffe_index:
  "wf_identities ids \<Longrightarrow> foldl (\<lambda>m x. m(SpiffeID x \<mapsto> ID x)) Map.empty ids = spiffe_index ids"
proof (induction ids rule: rev_induct)
  case (snoc x xs)
  then have "wf_identities xs" by (simp add: wf_identities_snoc)
  then show ?case using snoc by (simp add: spiffe_index_snoc)
qed (simp add: spiffe_index_def)

lemma resolveNamesForOracle_set:
  assumes "\<forall>n\<in>set names. m n \<noteq> None"
  obtains r where "resolveNamesForOracle names m = Inr r" "set r = named_ids m names"
proof -
  have "\<exists>r. for_each (oracleName m) names acc = Inr r \<and> set r = set acc \<union> named_ids m names" for acc
    using assms
  proof (induction names arbitrary: acc)
    case (Cons n names)
    then obtain i where i: "m n = Some i" by auto
    define acc' where "acc' = (if i \<in> set acc then acc else acc @ [i])"
    have "set acc' = insert i (set acc)" by (auto simp: acc'_def)
    moreover have "oracleName m n acc = Inr acc'" by (simp add: oracleName_def i acc'_def)
    ultimately show ?case using Cons.IH [of acc'] Cons.prems i by (auto simp: named_ids_def)
  qed (simp add: named_ids_def)
  from this [of "[]"] show thesis using that by (auto simp: resolveNamesForOracle_def)
qed

lemma oracleRules_grants:
  assumes "\<forall>r\<in>set rules. rule_ok m r" and "unambiguous m rules"
  shows "\<exists>v. oracleRules m inp rules = Inr v \<and> (grants m rules (input_key inp) v \<or>
    (\<nexists>w. grants m rules (input_key inp) w) \<and> v = \<lparr>Action = PolicyActionDeny, Flags = 0\<rparr>)"
  using assms
proof (induction rules)
  case (Cons r rules)
  let ?k = "input_key inp"
  have "\<forall>n\<in>set (Sources r). m n \<noteq> None" "\<forall>n\<in>set (Destinations r). m n \<noteq> None"
    using Cons.prems(1) unfolding rule_ok_def names_ok_def by auto
  then obtain a b where ab: "resolveNamesForOracle (Sources r) m = Inr a" "set a = named_ids m (Sources r)"
    "resolveNamesForOracle (Destinations r) m = Inr b" "set b = named_ids m (Destinations r)"
    by (meson resolveNamesForOracle_set)
  have key: "?k \<in> set (selectorKeys a b r) \<longleftrightarrow> granted m r ?k"
    by (simp add: set_selectorKeys granted_def ab)
  have un: "grants m (r # rules) k v \<Longrightarrow> grants m (r # rules) k w \<Longrightarrow> v = w" for k v w
    using Cons.prems(2) unfolding unambiguous_def by blast
  have cons: "grants m (r # rules) k v \<longleftrightarrow> granted m r k \<and> sel_Verdict r = v \<or> grants m rules k v" for k v
    using grants_append [of m "[r]" rules k v] by simp
  show ?case
  proof (cases "granted m r ?k")
    case True
    then show ?thesis by (simp add: ab key cons)
  next
    case False
    have "unambiguous m rules" unfolding unambiguous_def using un cons by blast
    then show ?thesis using False Cons.IH Cons.prems(1) by (simp add: ab key cons)
  qed
qed (simp add: grants_def)

section \<open>The compiler's contract\<close>

lemma Compile_order: "permutes_lists order \<Longrightarrow> Compile order spec ids = Compile (\<lambda>ks. ks) spec ids"
  by (simp add: Compile_def SortFunc_compareKeys sort_permuted)

lemma strict_sorted_keys:
  assumes "sorted_wrt (<) (map Key rs)" and "r \<in> set rs" and "q \<in> set rs" and "Key r = Key q"
  shows "r = q"
  using assms by (metis distinct_map inj_onD strict_sorted_iff)

lemma compiled_rule_valid:
  assumes "permutes_lists order" and "Compile order spec ids = Inr rs" and "r \<in> set rs"
  shows "is_ok (validateRule r)"
proof -
  have "\<lparr>Key = Key r, Verdict = Verdict r\<rparr> \<in> set rs" using assms(3) by simp
  then obtain q where q: "q \<in> set (spec_rules spec)" "granted (spiffe_index ids) q (Key r)"
    "sel_Verdict q = Verdict r"
    unfolding Compile_rules(2) [OF assms(1,2)] grants_def by blast
  have "rule_ok (spiffe_index ids) q" using Compile_rules(3) [OF assms(1,2) q(1)] .
  then have "is_ok (validateRule \<lparr>Key = Key r, Verdict = Verdict r\<rparr>)"
    using q names_ok_nonzero unfolding validateRule_ok rule_ok_def granted_def by metis
  then show ?thesis by simp
qed

lemma compiled_evaluator:
  assumes "permutes_lists order" and "Compile order spec ids = Inr rs"
    and "mode = UnknownIdentityFailOpen \<or> mode = UnknownIdentityFailClosed"
  obtains e where "newReferenceEvaluatorFromCompiled rs mode = Inr e" "unknownMode e = mode"
    "\<And>k v. map_of (eval_rules e) k = Some v \<longleftrightarrow> \<lparr>Key = k, Verdict = v\<rparr> \<in> set rs"
proof -
  have "distinct (map keyFromRule (map referenceRule rs))"
    using Compile_rules(1) [OF assms(1,2)] by (simp add: strict_sorted_iff comp_def)
  moreover have "\<forall>r\<in>set (map referenceRule rs). is_ok (ref_validateRule r)"
    using compiled_rule_valid [OF assms(1,2)] by auto
  ultimately obtain e where e: "NewEvaluator mode (map referenceRule rs) = Inr e" "unknownMode e = mode"
    "\<And>k v. map_of (eval_rules e) k = Some v \<longleftrightarrow> rule_of (map referenceRule rs) k v"
    by (rule NewEvaluator_table [OF assms(3)]) blast
  have "rule_of (map referenceRule rs) k v \<longleftrightarrow> \<lparr>Key = k, Verdict = v\<rparr> \<in> set rs" for k v
    by (force simp: rule_of_def)
  then show thesis using that e by (simp add: newReferenceEvaluatorFromCompiled_def)
qed

lemma compiled_oracle:
  assumes "permutes_lists order" and "Compile order spec ids = Inr rs"
  shows "\<exists>v. naiveEvaluateSpec spec ids mode inp = Inr v \<and>
    (if in_SrcIdentity inp = 0 \<or> in_DstIdentity inp = 0
     then v = \<lparr>Action = if mode = UnknownIdentityFailOpen then PolicyActionAllow else PolicyActionDeny, Flags = 0\<rparr>
     else \<lparr>Key = input_key inp, Verdict = v\<rparr> \<in> set rs \<or>
       input_key inp \<notin> Key ` set rs \<and> v = \<lparr>Action = PolicyActionDeny, Flags = 0\<rparr>)"
proof (cases "in_SrcIdentity inp = 0 \<or> in_DstIdentity inp = 0")
  case True
  then show ?thesis by (simp add: naiveEvaluateSpec_def)
next
  case False
  let ?m = "spiffe_index ids"
  have ok: "wf_identities ids" "\<forall>r\<in>set (spec_rules spec). rule_ok ?m r" "unambiguous ?m (spec_rules spec)"
    using Compile_ok [of order spec ids] assms(2) by auto
  have gr: "\<lparr>Key = k, Verdict = v\<rparr> \<in> set rs \<longleftrightarrow> grants ?m (spec_rules spec) k v" for k v
    using Compile_rules(2) [OF assms] by blast
  obtain v where v: "oracleRules ?m inp (spec_rules spec) = Inr v"
    and orc: "grants ?m (spec_rules spec) (input_key inp) v \<or>
      (\<nexists>w. grants ?m (spec_rules spec) (input_key inp) w) \<and> v = \<lparr>Action = PolicyActionDeny, Flags = 0\<rparr>"
    using oracleRules_grants [OF ok(2,3)] by blast
  have "naiveEvaluateSpec spec ids mode inp = Inr v"
    using False v by (simp add: naiveEvaluateSpec_def foldl_spiffe_index [OF ok(1)] flip: spec_rules_def)
  moreover have "\<lparr>Key = input_key inp, Verdict = v\<rparr> \<in> set rs \<or>
      input_key inp \<notin> Key ` set rs \<and> v = \<lparr>Action = PolicyActionDeny, Flags = 0\<rparr>"
    using orc unfolding gr [symmetric] by (metis PolicyRule_collapse imageE)
  ultimately show ?thesis using False by auto
qed

text \<open>
  C23. What the compiler returns: on success the compiled rules have strictly ascending keys, so
  each key occurs once, and they are exactly the rules the selectors of the specification expand
  to. The result, error or rules, does not depend on the order in which the Go map is ranged over.
\<close>

theorem compile_returns_granted_rules:
  assumes "permutes_lists order"
  shows "Compile order spec ids = Compile (\<lambda>ks. ks) spec ids \<and>
    (\<forall>rs. Compile order spec ids = Inr rs \<longrightarrow> sorted_wrt (<) (map Key rs) \<and>
      (\<forall>k v. \<lparr>Key = k, Verdict = v\<rparr> \<in> set rs \<longleftrightarrow> grants (spiffe_index ids) (spec_rules spec) k v))"
  using Compile_order [OF assms] Compile_rules(1,2) [OF assms] by blast

text \<open>
  What the compiler accepts: it fails exactly when an identity is unnamed, has the reserved
  number or shares its name with another number, when a rule has an empty selector, a blank or
  unresolved name, a direction or a verdict that is not valid, or when two rules give one key
  different verdicts.
\<close>

theorem compile_accepts_exactly:
  "is_ok (Compile order spec ids) \<longleftrightarrow> wf_identities ids \<and>
     (\<forall>r\<in>set (spec_rules spec). rule_ok (spiffe_index ids) r) \<and>
     (\<forall>k v w. grants (spiffe_index ids) (spec_rules spec) k v \<longrightarrow>
        grants (spiffe_index ids) (spec_rules spec) k w \<longrightarrow> v = w)"
  unfolding Compile_ok unambiguous_def ..


end
