(* ===== verification/Pod_Addresses.thy ===== *)
theory Pod_Addresses
  imports Datapath_Update
begin

text \<open>
  Dotted decimal addresses: the parser that the agent relies on reads back what is printed, and the
  key it computes is the word the data path reads from a packet.
\<close>

definition dotted :: "byte \<Rightarrow> byte \<Rightarrow> byte \<Rightarrow> byte \<Rightarrow> string" where
  "dotted a b c d = itoa (unat a) @ ''.'' @ itoa (unat b) @ ''.'' @ itoa (unat c) @ ''.'' @ itoa (unat d)"

lemma dot_not_digit [simp]: "\<not> is_digit (CHR ''.'')"
  by (simp add: is_digit_def)

lemma digit_not_dot: "is_digit c \<Longrightarrow> c \<noteq> CHR ''.''"
  by auto

lemma itoa_cases:
  assumes "n < 256"
  obtains "n < 10" "itoa n = [digit_char n]"
    | "10 \<le> n" "n < 100" "itoa n = [digit_char (n div 10), digit_char (n mod 10)]"
    | "100 \<le> n" "itoa n = [digit_char (n div 100), digit_char (n div 10 mod 10), digit_char (n mod 10)]"
proof -
  have one: "itoa m = [digit_char m]" if "m < 10" for m by (subst itoa.simps) (simp add: that)
  have two: "itoa m = [digit_char (m div 10), digit_char (m mod 10)]" if "10 \<le> m" "m < 100" for m
  proof -
    have "m div 10 < 10" using that by (simp add: div_less_iff_less_mult)
    then show ?thesis using that by (subst itoa.simps) (simp add: one)
  qed
  have three: "itoa n = [digit_char (n div 100), digit_char (n div 10 mod 10), digit_char (n mod 10)]"
    if "100 \<le> n"
  proof -
    have "10 \<le> n div 10" "n div 10 < 100" using that assms by (simp_all add: div_less_iff_less_mult)
    then show ?thesis using that by (subst itoa.simps) (simp add: two div_mult2_eq [symmetric])
  qed
  show thesis using that one two three by (metis linorder_not_less)
qed

lemma parse_octet:
  assumes "n < 256"
  shows "parseIPv4Fields prev 0 0 flds (itoa n @ rest) =
    parseIPv4Fields (Some (last (itoa n))) (length (itoa n)) n flds rest"
  using assms
proof (cases n rule: itoa_cases)
  case 1
  then show ?thesis by simp
next
  case 2
  define h l where "h = n div 10" and "l = n mod 10"
  have n: "n = h * 10 + l" "h < 10" "l < 10" "h \<noteq> 0"
    using 2 by (simp_all add: h_def l_def div_less_iff_less_mult)
  then have "itoa (h * 10 + l) = [digit_char h, digit_char l]" using 2(3) by (simp add: h_def l_def)
  then show ?thesis using n(2-4) assms unfolding n(1) by (simp add: Let_def)
next
  case 3
  define g h l where "g = n div 100" and "h = n div 10 mod 10" and "l = n mod 10"
  have n: "n = (g * 10 + h) * 10 + l" "g < 10" "h < 10" "l < 10" "g \<noteq> 0"
    using 3 assms by (simp_all add: g_def h_def l_def div_less_iff_less_mult div_mult2_eq [of n 10 10, simplified])
  have "itoa ((g * 10 + h) * 10 + l) = [digit_char g, digit_char h, digit_char l]"
    using 3(2) unfolding n(1) [symmetric] by (simp add: g_def h_def l_def)
  then show ?thesis using n(2-5) assms unfolding n(1) by (simp add: Let_def)
qed

lemma parse_dot:
  assumes "rest \<noteq> []" and "length flds < 3" and "is_digit c"
  shows "parseIPv4Fields (Some c) l n flds (CHR ''.'' # rest) =
    parseIPv4Fields (Some (CHR ''.'')) 0 0 (flds @ [n]) rest"
  using assms digit_not_dot [OF assms(3)] by simp

lemma last_itoa: "is_digit (last (itoa n))"
  using itoa_digits itoa_nonempty last_in_set by blast

lemma starts_ipv4_digits: "\<forall>c\<in>set ds. is_digit c \<Longrightarrow> starts_ipv4 (ds @ CHR ''.'' # rest)"
  by (induction ds) (auto simp: is_digit_def)

lemma byte_range: "unat (b :: byte) < 256"
  using unsigned_less [of b] by simp

lemma parseAddr4_dotted: "parseAddr4 (dotted a b c d) = Some [a, b, c, d]"
proof -
  have "parseIPv4Fields None 0 0 [] (dotted a b c d) = Some [unat a, unat b, unat c, unat d]"
    unfolding dotted_def by (simp add: parse_octet byte_range parse_dot last_itoa digit_not_dot
        parse_octet [of _ _ _ "[]", simplified])
  moreover have "starts_ipv4 (dotted a b c d)"
    unfolding dotted_def using itoa_digits by (simp add: starts_ipv4_digits)
  ultimately show ?thesis by (simp add: parseAddr4_def)
qed

lemma identity_key_dotted:
  assumes "PodIPv4 i = dotted a b c d"
  shows "has_address i" "key_of i = le32 a b c d" "translateIdentity i = Inr (le32 a b c d, ID i)"
proof -
  have "PodIPv4 i \<noteq> []" by (simp add: assms dotted_def)
  then have k: "identityIPv4NetworkKey i = Inr (le32 a b c d)"
    by (simp add: identityIPv4NetworkKey_def parseAddr4_dotted assms)
  then show "has_address i" "key_of i = le32 a b c d" "translateIdentity i = Inr (le32 a b c d, ID i)"
    by (simp_all add: has_address_def key_of_def translateIdentity_def)
qed

end
