(* ===== verification/Demo_Cluster.thy ===== *)
theory Demo_Cluster
  imports Compiler_Conformance Pod_Addresses
begin

text \<open>
  A small cluster on which the properties of the control plane and the agent are evaluated: two
  workloads, a policy that lets the first reach the second, and what compiler, reference evaluator
  and writer make of it.
\<close>

definition demo_web :: Identity where
  "demo_web = \<lparr>ID = 7, PodIPv4 = ''10.0.0.1'', SpiffeID = ''spiffe://m/web'', Namespace = ''m'', Name = ''web''\<rparr>"

definition demo_db :: Identity where
  "demo_db = \<lparr>ID = 9, PodIPv4 = ''10.0.0.2'', SpiffeID = ''spiffe://m/db'', Namespace = ''m'', Name = ''db''\<rparr>"

definition demo_identities :: "Identity list" where
  "demo_identities = [demo_web, demo_db]"

definition demo_selector :: PolicyRuleSelector where
  "demo_selector =
     \<lparr>sel_Name = ''web to db'', Sources = [''spiffe://m/web''], Destinations = [''spiffe://m/db''],
      Ports = [8080], Protocols = [6], Directions = [1, 0], sel_Verdict = \<lparr>Action = 0, Flags = 0\<rparr>\<rparr>"

definition demo_spec :: PolicySpec where
  "demo_spec = \<lparr>Policies = [\<lparr>pol_Name = ''demo'', Rules = [demo_selector]\<rparr>]\<rparr>"

definition demo_key :: "u8 \<Rightarrow> PolicyRuleKey" where
  "demo_key dir = \<lparr>SrcIdentity = 7, DstIdentity = 9, DstPort = 8080, Protocol = 6, Direction = dir\<rparr>"

definition demo_rules :: "PolicyRule list" where
  "demo_rules = map (\<lambda>d. \<lparr>Key = demo_key d, Verdict = \<lparr>Action = 0, Flags = 0\<rparr>\<rparr>) [0, 1]"

lemma demo_Compile: "Compile rev demo_spec demo_identities = Inr demo_rules"
  by code_simp

definition demo_input :: ref_Input where
  "demo_input = \<lparr>in_SrcIdentity = 7, in_DstIdentity = 9, in_DstPort = 8080, in_Protocol = 6, in_Direction = 0\<rparr>"

section \<open>The properties of the compiler, evaluated\<close>

theorem compile_returns_granted_rules_witness:
  "Compile rev demo_spec demo_identities = Compile (\<lambda>ks. ks) demo_spec demo_identities \<and>
   sorted_wrt (<) (map Key demo_rules) \<and>
   grants (spiffe_index demo_identities) (spec_rules demo_spec) (demo_key 0) \<lparr>Action = 0, Flags = 0\<rparr>"
proof -
  have "\<lparr>Key = demo_key 0, Verdict = \<lparr>Action = 0, Flags = 0\<rparr>\<rparr> \<in> set demo_rules" by (simp add: demo_rules_def)
  then show ?thesis
    using compile_returns_granted_rules [OF permutes_lists_id(2), of demo_spec demo_identities] demo_Compile by simp
qed

theorem compile_accepts_exactly_witness:
  "wf_identities demo_identities \<and> rule_ok (spiffe_index demo_identities) demo_selector"
proof -
  have "demo_selector \<in> set (spec_rules demo_spec)" by (simp add: spec_rules_def demo_spec_def)
  moreover
  have "is_ok (Compile rev demo_spec demo_identities)" by (simp add: demo_Compile)
  ultimately show ?thesis using compile_accepts_exactly [of rev demo_spec demo_identities] by blast
qed

lemma demo_oracle:
  "naiveEvaluateSpec demo_spec demo_identities UnknownIdentityFailClosed demo_input = Inr \<lparr>Action = 0, Flags = 0\<rparr>"
  by code_simp


end
