(* ===== verification/Datapath_Properties.thy ===== *)
theory Datapath_Properties
  imports Demo_Cluster
begin

text \<open>
  The contract of the agent's writer under the plans that \<open>diff\<close> computes: what a successful plan
  installs, what a reader of the policy map can see while and after a plan is applied, and the three
  situations in which the kernel maps drift from the desired state.
\<close>

section \<open>Concrete snapshots\<close>

definition demo_old :: snapshot where
  "demo_old = \<lparr>policies = [], identities = [demo_web]\<rparr>"

definition demo_new :: snapshot where
  "demo_new = \<lparr>policies = demo_rules, identities = demo_identities\<rparr>"

definition demo_moved :: snapshot where
  "demo_moved = \<lparr>policies = [], identities = [demo_web\<lparr>PodIPv4 := ''10.0.0.3''\<rparr>]\<rparr>"

definition demo_reused :: snapshot where
  "demo_reused = \<lparr>policies = [], identities = [demo_db\<lparr>PodIPv4 := ''10.0.0.1''\<rparr>]\<rparr>"

definition demo_writer :: "'w \<Rightarrow> snapshot \<Rightarrow> 'w writer" where
  "demo_writer x s =
     \<lparr>w_world = x,
      identityMap = table key_of ID (identities s),
      policyMap = table (translatePolicyRuleKey \<circ> Key) (translatePolicyVerdict \<circ> Verdict) (policies s),
      identityKeyByID = table ID key_of (identities s)\<rparr>"

lemma demo_writer_installed [simp]: "installed s (demo_writer x s)"
  by (simp add: installed_def demo_writer_def)

lemma demo_keys [simp]:
  "identityIPv4NetworkKey demo_web = Inr (le32 10 0 0 1)"
  "identityIPv4NetworkKey demo_db = Inr (le32 10 0 0 2)"
  "identityIPv4NetworkKey (demo_web\<lparr>PodIPv4 := ''10.0.0.3''\<rparr>) = Inr (le32 10 0 0 3)"
  "identityIPv4NetworkKey (demo_db\<lparr>PodIPv4 := ''10.0.0.1''\<rparr>) = Inr (le32 10 0 0 1)"
  by code_simp+

lemma demo_words [simp]:
  "le32 10 0 0 1 = 16777226" "le32 10 0 0 3 = 50331658" "le32 10 0 0 2 = 33554442"
  by code_simp+

lemma demo_wf [simp]:
  "wf_snapshot demo_old" "wf_snapshot demo_new" "wf_snapshot demo_moved" "wf_snapshot demo_reused"
  by (simp_all add: wf_snapshot_def demo_old_def demo_new_def demo_moved_def demo_reused_def
      demo_identities_def demo_rules_def demo_key_def key_of_def has_address_def)
    (simp_all add: demo_web_def demo_db_def)

section \<open>Plans between snapshots\<close>



text \<open>
  C25. What the data path can see: whenever a plan stops, by an error or at its end, each policy lookup
  gives what it gave before or what it gives in the new snapshot, and after success always the latter.
  A rule of both snapshots is never missing.
\<close>

theorem policy_update_old_or_new:
  assumes "ebpf_maps E" and "wf_snapshot old" and "wf_snapshot new" and "installed old w"
    and "Apply E (diff old new) w = (err, w')"
  shows "\<forall>q. policyMap w' q = policyMap w q \<and> err \<noteq> None \<or> policyMap w' q =
    table (translatePolicyRuleKey \<circ> Key) (translatePolicyVerdict \<circ> Verdict) (policies new) q"
proof (cases err)
  case None
  then show ?thesis using ebpf_maps.diff_policy_map [OF assms(1-4)] assms(5) by simp
next
  case (Some e)
  then show ?thesis using ebpf_maps.diff_between [OF assms] by blast
qed

definition demo_failed :: "bool list writer" where
  "demo_failed = snd (Apply scripted_ebpf (diff demo_old demo_new) (demo_writer [False, False, True] demo_old))"

lemma demo_failed_step:
  "Apply scripted_ebpf (diff demo_old demo_new) (demo_writer [False, False, True] demo_old) =
     (Some (Policy_Upsert_Failed (demo_key 1) (Ebpf_Errno 7)), demo_failed)"
proof -
  have "fst (Apply scripted_ebpf (diff demo_old demo_new) (demo_writer [False, False, True] demo_old)) =
      Some (Policy_Upsert_Failed (demo_key 1) (Ebpf_Errno 7))"
    by code_simp
  then show ?thesis by (simp add: demo_failed_def prod_eq_iff)
qed

theorem policy_update_old_or_new_witness:
  "\<forall>q. policyMap demo_failed q = policyMap (demo_writer [False, False, True] demo_old) q \<or>
     policyMap demo_failed q =
       table (translatePolicyRuleKey \<circ> Key) (translatePolicyVerdict \<circ> Verdict) (policies demo_new) q"
  using policy_update_old_or_new [OF scripted.ebpf_maps_axioms demo_wf(1,2) demo_writer_installed demo_failed_step]
  by blast

section \<open>Drift of the identity map\<close>

text \<open>
  C26. Two ways in which the identity map leaves the desired state although every write succeeds: an
  identity whose pod address changed keeps its old address as well, so the next owner of that address
  is enforced under its identity; and an address that passes to another identity within one plan ends
  up without an entry, because deletions run last.
\<close>

theorem address_changes_drift:
  assumes "ebpf_maps E" and "wf_snapshot old" and "installed old w"
    and "Apply E (diff old new) w = (None, w')" and "i \<in> set (identities old)"
  shows "(ID i \<in> ID ` set (identities new) \<and> key_of i \<notin> key_of ` set (identities new) \<longrightarrow>
      identityMap w' (key_of i) = Some (ID i)) \<and>
    (ID i \<notin> ID ` set (identities new) \<longrightarrow> identityMap w' (key_of i) = None)"
  using ebpf_maps.moved_identity_keeps_old_address [OF assms(1-4)] assms(5)
    ebpf_maps.reused_address_is_deleted [OF assms(1-4)] by blast

definition demo_after :: "snapshot \<Rightarrow> unit writer" where
  "demo_after s = snd (Apply plain_ebpf (diff demo_old s) (demo_writer () demo_old))"

lemma demo_after_step:
  "Apply plain_ebpf (diff demo_old demo_moved) (demo_writer () demo_old) = (None, demo_after demo_moved)"
  "Apply plain_ebpf (diff demo_old demo_reused) (demo_writer () demo_old) = (None, demo_after demo_reused)"
proof -
  have "fst (Apply plain_ebpf (diff demo_old demo_moved) (demo_writer () demo_old)) = None"
    "fst (Apply plain_ebpf (diff demo_old demo_reused) (demo_writer () demo_old)) = None"
    by code_simp+
  then show "Apply plain_ebpf (diff demo_old demo_moved) (demo_writer () demo_old) = (None, demo_after demo_moved)"
    "Apply plain_ebpf (diff demo_old demo_reused) (demo_writer () demo_old) = (None, demo_after demo_reused)"
    by (simp_all add: demo_after_def prod_eq_iff)
qed

theorem address_changes_drift_witness:
  "identityMap (demo_after demo_moved) (key_of demo_web) = Some 7 \<and>
   identityMap (demo_after demo_reused) (key_of (demo_db\<lparr>PodIPv4 := ''10.0.0.1''\<rparr>)) = None"
proof -
  have i: "demo_web \<in> set (identities demo_old)" by (simp add: demo_old_def)
  note drift = address_changes_drift [OF plain.ebpf_maps_axioms demo_wf(1) demo_writer_installed _ i]
  have "ID demo_web \<in> ID ` set (identities demo_moved)" "key_of demo_web \<notin> key_of ` set (identities demo_moved)"
    "ID demo_web = 7"
    by (simp_all add: demo_moved_def key_of_def) (simp add: demo_web_def)
  moreover have "ID demo_web \<notin> ID ` set (identities demo_reused)"
    "key_of (demo_db\<lparr>PodIPv4 := ''10.0.0.1''\<rparr>) = key_of demo_web"
    by (simp_all add: demo_reused_def key_of_def) (simp add: demo_web_def demo_db_def)
  ultimately show ?thesis using drift [OF demo_after_step(1)] drift [OF demo_after_step(2)] by simp
qed

end
