(* ===== verification/Ads_Versioning.thy ===== *)
theory Ads_Versioning
  imports Xds_Messages
begin

text \<open>
  \<^verbatim>\<open>internal/control/ads/versioning.go\<close>: the version and nonce bookkeeping of one ADS stream.
  Versions and nonces are 64-bit counters, printed in decimal.
\<close>

section \<open>Stream state\<close>

datatype ackKind = ackInitial | ackAck | ackNack | ackStale

record typeState =
  sentVersion :: u64
  ackedVersion :: u64
  lastNonce :: string
  hasOutstanding :: bool

record streamState =
  byType :: "type_url \<rightharpoonup> typeState"
  nonceSeq :: u64

definition newStreamState :: streamState where
  "newStreamState = \<lparr>byType = Map.empty, nonceSeq = 0\<rparr>"

definition getLocked :: "type_url \<Rightarrow> streamState \<Rightarrow> typeState" where
  "getLocked typeURL s =
     (case byType s typeURL of
        Some ts \<Rightarrow> ts
      | None \<Rightarrow> \<lparr>sentVersion = 0, ackedVersion = 0, lastNonce = [], hasOutstanding = False\<rparr>)"

definition putLocked :: "type_url \<Rightarrow> typeState \<Rightarrow> streamState \<Rightarrow> streamState" where
  "putLocked typeURL ts s = s\<lparr>byType := (byType s)(typeURL \<mapsto> ts)\<rparr>"

definition FormatUint :: "u64 \<Rightarrow> string" where
  "FormatUint x = itoa (unat x)"

definition preparePush :: "type_url \<Rightarrow> streamState \<Rightarrow> (string \<times> string) \<times> streamState" where
  "preparePush typeURL s =
     (let ts = getLocked typeURL s;
          sent = sentVersion ts + 1;
          seq = nonceSeq s + 1;
          nonce = FormatUint seq
      in ((FormatUint sent, nonce),
          putLocked typeURL (ts\<lparr>sentVersion := sent, lastNonce := nonce, hasOutstanding := True\<rparr>)
            (s\<lparr>nonceSeq := seq\<rparr>)))"

definition classify :: "type_url \<Rightarrow> string \<Rightarrow> bool \<Rightarrow> streamState \<Rightarrow> ackKind \<times> streamState" where
  "classify typeURL responseNonce hasError s =
     (let ts = getLocked typeURL s
      in if responseNonce = [] then (ackInitial, putLocked typeURL ts s)
         else if \<not> hasOutstanding ts \<or> responseNonce \<noteq> lastNonce ts then (ackStale, putLocked typeURL ts s)
         else let settled = ts\<lparr>hasOutstanding := False, lastNonce := []\<rparr>
              in if hasError then (ackNack, putLocked typeURL settled s)
                 else (ackAck, putLocked typeURL (settled\<lparr>ackedVersion := sentVersion ts\<rparr>) s))"

definition acceptedVersion :: "type_url \<Rightarrow> streamState \<Rightarrow> u64" where
  "acceptedVersion typeURL s = ackedVersion (getLocked typeURL s)"

definition sentVersionOf :: "type_url \<Rightarrow> streamState \<Rightarrow> u64" where
  "sentVersionOf typeURL s = sentVersion (getLocked typeURL s)"

section \<open>Runs\<close>

text \<open>The calls on one stream, in the order of the lock, and the pushes they stamp.\<close>

datatype stream_call =
    Push type_url
  | Request type_url string bool

type_synonym stamp = "type_url \<times> string \<times> string"

fun stream_step :: "stream_call \<Rightarrow> stamp list \<times> streamState \<Rightarrow> stamp list \<times> streamState" where
  "stream_step (Push t) (out, s) = (case preparePush t s of ((v, n), s') \<Rightarrow> (out @ [(t, v, n)], s'))"
| "stream_step (Request t n err) (out, s) = (out, snd (classify t n err s))"

definition stream_run :: "stream_call list \<Rightarrow> stamp list \<times> streamState" where
  "stream_run calls = fold stream_step calls ([], newStreamState)"

definition stamped :: "type_url \<Rightarrow> stamp list \<Rightarrow> stamp list" where
  "stamped t out = filter (\<lambda>x. fst x = t) out"

text \<open>The nonce of a push that has neither been acknowledged nor refused: always the last one.\<close>

definition outstanding :: "type_url \<Rightarrow> streamState \<Rightarrow> string option" where
  "outstanding t s = (if hasOutstanding (getLocked t s) then Some (lastNonce (getLocked t s)) else None)"

lemma getLocked_put [simp]:
  "getLocked t (putLocked u ts s) = (if t = u then ts else getLocked t s)"
  "nonceSeq (putLocked u ts s) = nonceSeq s" "getLocked t (s\<lparr>nonceSeq := x\<rparr>) = getLocked t s"
  by (simp_all add: getLocked_def putLocked_def)

lemma getLocked_new [simp]:
  "getLocked t newStreamState = \<lparr>sentVersion = 0, ackedVersion = 0, lastNonce = [], hasOutstanding = False\<rparr>"
  "nonceSeq newStreamState = 0"
  by (simp_all add: getLocked_def newStreamState_def)

lemma classify_kind:
  "fst (classify t n err s) =
     (if n = [] then ackInitial else if outstanding t s \<noteq> Some n then ackStale
      else if err then ackNack else ackAck)"
  by (auto simp: classify_def outstanding_def Let_def)

lemma classify_other:
  "t \<noteq> u \<Longrightarrow> getLocked u (snd (classify t n err s)) = getLocked u s"
  "nonceSeq (snd (classify t n err s)) = nonceSeq s"
  "sentVersion (getLocked u (snd (classify t n err s))) = sentVersion (getLocked u s)"
  by (simp_all add: classify_def Let_def)

text \<open>The state of a stream in terms of the pushes it made, as long as the counters do not wrap.\<close>

definition type_ok :: "type_url \<Rightarrow> stamp list \<Rightarrow> streamState \<Rightarrow> bool" where
  "type_ok t out s \<longleftrightarrow>
     map (\<lambda>x. fst (snd x)) (stamped t out) = map itoa [1..<Suc (length (stamped t out))] \<and>
     sentVersion (getLocked t s) = of_nat (length (stamped t out)) \<and>
     ackedVersion (getLocked t s) \<le> sentVersion (getLocked t s) \<and>
     (\<forall>n. outstanding t s = Some n \<longrightarrow> stamped t out \<noteq> [] \<and> snd (snd (last (stamped t out))) = n)"

definition stream_ok :: "stamp list \<times> streamState \<Rightarrow> bool" where
  "stream_ok = (\<lambda>(out, s).
     map (\<lambda>x. snd (snd x)) out = map itoa [1..<Suc (length out)] \<and> nonceSeq s = of_nat (length out) \<and>
     (\<forall>t. type_ok t out s))"

lemma stamped_snoc [simp]: "stamped t (out @ [x]) = (if fst x = t then stamped t out @ [x] else stamped t out)"
  by (simp add: stamped_def)

lemma length_stamped: "length (stamped t out) \<le> length out"
  by (simp add: stamped_def)

lemma unat_count: "n < 2 ^ 64 \<Longrightarrow> unat (of_nat n :: u64) = n"
  by (simp add: unat_of_nat)

lemma stream_okD:
  assumes "stream_ok (out, s)"
  shows "nonceSeq s = of_nat (length out)" "sentVersion (getLocked t s) = of_nat (length (stamped t out))"
    "ackedVersion (getLocked t s) \<le> of_nat (length (stamped t out))"
    "outstanding t s = Some n \<Longrightarrow> stamped t out \<noteq> [] \<and> snd (snd (last (stamped t out))) = n"
    "map (\<lambda>x. fst (snd x)) (stamped t out) = map itoa [1..<Suc (length (stamped t out))]"
proof -
  have "type_ok t out s" "nonceSeq s = of_nat (length out)" using assms by (simp_all add: stream_ok_def)
  then show "nonceSeq s = of_nat (length out)" "sentVersion (getLocked t s) = of_nat (length (stamped t out))"
    "ackedVersion (getLocked t s) \<le> of_nat (length (stamped t out))"
    "outstanding t s = Some n \<Longrightarrow> stamped t out \<noteq> [] \<and> snd (snd (last (stamped t out))) = n"
    "map (\<lambda>x. fst (snd x)) (stamped t out) = map itoa [1..<Suc (length (stamped t out))]"
    unfolding type_ok_def by (auto simp del: upt_Suc)
qed

lemma upt_snoc: "map itoa [Suc 0..<Suc (Suc n)] = map itoa [Suc 0..<Suc n] @ [itoa (Suc n)]"
  by simp

lemma stream_ok_push:
  assumes ok: "stream_ok (out, s)" and n: "Suc (length out) < 2 ^ 64"
  shows "stream_ok (stream_step (Push t) (out, s))"
proof -
  let ?k = "length (stamped t out)"
  define v m where "v = FormatUint (sentVersion (getLocked t s) + 1)" and "m = FormatUint (nonceSeq s + 1)"
  define s' where "s' = snd (preparePush t s)"
  have k: "Suc ?k < 2 ^ 64" using n length_stamped [of t out] by simp
  have fmt: "m = itoa (Suc (length out))" "v = itoa (Suc ?k)"
    using stream_okD(1,2) [OF ok] unat_count [OF n] unat_count [OF k] by (simp_all add: v_def m_def FormatUint_def add.commute)
  have step: "stream_step (Push t) (out, s) = (out @ [(t, v, m)], s')"
    and seq: "nonceSeq s' = of_nat (Suc (length out))"
    and here: "getLocked t s' = (getLocked t s)\<lparr>sentVersion := of_nat (Suc ?k), lastNonce := m, hasOutstanding := True\<rparr>"
    using stream_okD(1,2) [OF ok] by (simp_all add: s'_def v_def m_def preparePush_def Let_def add.commute)
  have other: "u \<noteq> t \<Longrightarrow> getLocked u s' = getLocked u s" for u
    by (simp add: s'_def preparePush_def Let_def)
  have "ackedVersion (getLocked t s) \<le> of_nat (Suc ?k)"
  proof -
    have "unat (ackedVersion (getLocked t s)) \<le> ?k"
      using stream_okD(3) [OF ok, of t] unat_count [of ?k] k by (simp add: word_le_nat_alt)
    then show ?thesis using unat_count [OF k] by (simp add: word_le_nat_alt)
  qed
  then have "type_ok u (out @ [(t, v, m)]) s'" for u
    using stream_okD(2-5) [OF ok, of u] other [of u] here unfolding type_ok_def outstanding_def
    by (cases "u = t") (simp_all add: fmt(2) upt_snoc del: upt_Suc)
  then show ?thesis
    using ok unfolding step stream_ok_def by (simp add: seq fmt(1) upt_snoc del: upt_Suc)
qed

lemma stream_ok_request:
  assumes ok: "stream_ok (out, s)"
  shows "stream_ok (stream_step (Request t n err) (out, s))"
proof -
  let ?s = "snd (classify t n err s)"
  have "ackedVersion (getLocked u ?s) \<le> sentVersion (getLocked u ?s)" for u
    using stream_okD(2,3) [OF ok] by (simp add: classify_def Let_def)
  moreover have "outstanding u ?s = Some m \<Longrightarrow> outstanding u s = Some m" for u m
    by (auto simp: outstanding_def classify_def Let_def split: if_splits)
  ultimately have "type_ok u out ?s" for u
    using ok unfolding stream_ok_def type_ok_def by (simp add: classify_other(3) del: upt_Suc)
  then show ?thesis using ok unfolding stream_ok_def by (simp add: classify_other(2) del: upt_Suc)
qed

lemma length_out: "length (fst (fold stream_step calls (out, s))) \<le> length out + length calls"
proof (induction calls arbitrary: out s)
  case (Cons c calls)
  show ?case
  proof (cases c)
    case (Push t)
    then show ?thesis using Cons.IH [of "out @ [x]" for x] by (cases "preparePush t s") (force simp: add.commute)
  next
    case (Request t n err)
    then show ?thesis using Cons.IH [of out "snd (classify t n err s)"] by simp
  qed
qed simp

lemma stream_run_ok: "length calls < 2 ^ 64 \<Longrightarrow> stream_ok (stream_run calls)"
proof (induction calls rule: rev_induct)
  case Nil
  show ?case by (simp add: stream_run_def stream_ok_def type_ok_def stamped_def outstanding_def)
next
  case (snoc c calls)
  obtain out s where run: "stream_run calls = (out, s)" by fastforce
  have ok: "stream_ok (out, s)" using snoc run by simp
  have "length out \<le> length calls" using length_out [of calls "[]" newStreamState] run by (simp add: stream_run_def)
  then have n: "Suc (length out) < 2 ^ 64" using snoc.prems by simp
  have "stream_run (calls @ [c]) = stream_step c (out, s)" using run by (simp add: stream_run_def)
  then show ?case using stream_ok_push [OF ok n] stream_ok_request [OF ok] by (cases c) simp_all
qed

section \<open>The handshake\<close>

text \<open>
  C28. The version handshake of a stream, for every order of pushes and requests and fewer than
  \<open>2^64\<close> calls: the nonces of all pushes differ, the versions of a type count its pushes, the accepted
  version never exceeds the pushed one, and a request is taken as the answer to a push only when it
  carries the nonce of the last push of its type. An acknowledgement then makes the last pushed version
  the accepted one, and every other request leaves the accepted version alone.
\<close>

theorem handshake_sound:
  assumes "stream_run calls = (out, s)" and "length calls < 2 ^ 64"
  shows "distinct (map (\<lambda>x. snd (snd x)) out) \<and>
    map (\<lambda>x. fst (snd x)) (stamped t out) = map itoa [1..<Suc (length (stamped t out))] \<and>
    unat (acceptedVersion t s) \<le> length (stamped t out) \<and>
    (case classify t n err s of (kind, s') \<Rightarrow>
       (kind = ackAck \<or> kind = ackNack \<longrightarrow> stamped t out \<noteq> [] \<and> snd (snd (last (stamped t out))) = n) \<and>
       unat (acceptedVersion t s') =
         (if kind = ackAck then length (stamped t out) else unat (acceptedVersion t s)))"
proof -
  let ?k = "length (stamped t out)"
  have ok: "stream_ok (out, s)" using stream_run_ok [OF assms(2)] assms(1) by simp
  have len: "length out < 2 ^ 64" using length_out [of calls "[]" newStreamState] assms by (simp add: stream_run_def)
  then have k: "unat (of_nat ?k :: u64) = ?k" using length_stamped [of t out] by (intro unat_count) simp
  have "distinct (map (\<lambda>x. snd (snd x)) out)"
    using ok by (simp add: stream_ok_def distinct_map inj_on_def)
  moreover have "unat (acceptedVersion t s) \<le> ?k"
    using stream_okD(3) [OF ok, of t] k unfolding acceptedVersion_def by (simp add: word_le_nat_alt)
  moreover have "map (\<lambda>x. fst (snd x)) (stamped t out) = map itoa [1..<Suc ?k]" using stream_okD(5) [OF ok] .
  moreover have "stamped t out \<noteq> [] \<and> snd (snd (last (stamped t out))) = n"
    if "fst (classify t n err s) = ackAck \<or> fst (classify t n err s) = ackNack"
    using that stream_okD(4) [OF ok, of t n] unfolding classify_kind by (simp split: if_splits)
  moreover have "unat (acceptedVersion t (snd (classify t n err s))) =
      (if fst (classify t n err s) = ackAck then ?k else unat (acceptedVersion t s))"
    using stream_okD(2) [OF ok, of t] k by (simp add: acceptedVersion_def classify_def Let_def)
  ultimately show ?thesis by (simp add: split_beta)
qed

definition demo_calls :: "stream_call list" where
  "demo_calls = [Request ClusterType [] False, Push ClusterType, Push EndpointType, Push ClusterType]"

theorem handshake_sound_witness:
  "fst (classify ClusterType (itoa 1) False (snd (stream_run demo_calls))) = ackStale \<and>
   fst (classify ClusterType (itoa 3) False (snd (stream_run demo_calls))) = ackAck \<and>
   unat (acceptedVersion ClusterType (snd (classify ClusterType (itoa 3) False (snd (stream_run demo_calls))))) = 2"
proof -
  have run: "stream_run demo_calls = (fst (stream_run demo_calls), snd (stream_run demo_calls))"
    and kinds: "fst (classify ClusterType (itoa 1) False (snd (stream_run demo_calls))) = ackStale"
      "fst (classify ClusterType (itoa 3) False (snd (stream_run demo_calls))) = ackAck"
    and k: "length (stamped ClusterType (fst (stream_run demo_calls))) = 2"
    by (simp, code_simp+)
  have "length demo_calls < 2 ^ 64" by (simp add: demo_calls_def)
  from handshake_sound [OF run this, of ClusterType "itoa 3" False] kinds k show ?thesis
    by (simp add: split_beta)
qed

end
