(* ===== verification/Control_Store.thy ===== *)
theory Control_Store
  imports Wire_Types
begin

text \<open>
  \<^verbatim>\<open>internal/control/store/memory.go\<close>: the control plane's store. Each mutation is two critical
  sections, the change of the map and the notification of the watchers; they are separate
  definitions, because other goroutines run between them. A watcher's channel has room for one event.
\<close>

datatype StoreEventKind = StoreEventIdentityChanged | StoreEventPolicyChanged

definition watchBuffer :: nat where [simp]: "watchBuffer = 1"

record Memory =
  mem_identities :: "(u32, Identity) gomap"
  mem_policies :: "(PolicyRuleKey, PolicyRule) gomap"
  watchers :: "(nat, StoreEventKind list) gomap"

definition NewMemory :: Memory where
  "NewMemory = \<lparr>mem_identities = [], mem_policies = [], watchers = []\<rparr>"

section \<open>Mutations\<close>

datatype mutation =
    SetIdentity Identity
  | DropIdentity u32
  | SetPolicy PolicyRule
  | DropPolicy PolicyRuleKey

text \<open>The first critical section of the four mutating methods.\<close>

definition mutate :: "mutation \<Rightarrow> Memory \<Rightarrow> Memory" where
  "mutate c m =
     (case c of
        SetIdentity identity \<Rightarrow> m\<lparr>mem_identities := AList.update (ID identity) identity (mem_identities m)\<rparr>
      | DropIdentity i \<Rightarrow> m\<lparr>mem_identities := AList.delete i (mem_identities m)\<rparr>
      | SetPolicy rule \<Rightarrow> m\<lparr>mem_policies := AList.update (Key rule) rule (mem_policies m)\<rparr>
      | DropPolicy key \<Rightarrow> m\<lparr>mem_policies := AList.delete key (mem_policies m)\<rparr>)"

definition event_of :: "mutation \<Rightarrow> StoreEventKind" where
  "event_of c =
     (case c of
        SetIdentity _ \<Rightarrow> StoreEventIdentityChanged
      | DropIdentity _ \<Rightarrow> StoreEventIdentityChanged
      | SetPolicy _ \<Rightarrow> StoreEventPolicyChanged
      | DropPolicy _ \<Rightarrow> StoreEventPolicyChanged)"

text \<open>The second: offer the event to every channel, and drop it where the buffer is full.\<close>

definition offer :: "StoreEventKind \<Rightarrow> StoreEventKind list \<Rightarrow> StoreEventKind list" where
  "offer ev buf = (if length buf < watchBuffer then buf @ [ev] else buf)"

definition notify :: "StoreEventKind \<Rightarrow> Memory \<Rightarrow> Memory" where
  "notify ev m = m\<lparr>watchers := map (\<lambda>(ch, buf). (ch, offer ev buf)) (watchers m)\<rparr>"

definition PutIdentity :: "Identity \<Rightarrow> Memory \<Rightarrow> Memory" where
  "PutIdentity identity m = notify StoreEventIdentityChanged (mutate (SetIdentity identity) m)"

definition DeleteIdentity :: "u32 \<Rightarrow> Memory \<Rightarrow> Memory" where
  "DeleteIdentity i m = notify StoreEventIdentityChanged (mutate (DropIdentity i) m)"

definition PutPolicy :: "PolicyRule \<Rightarrow> Memory \<Rightarrow> Memory" where
  "PutPolicy rule m = notify StoreEventPolicyChanged (mutate (SetPolicy rule) m)"

definition DeletePolicy :: "PolicyRuleKey \<Rightarrow> Memory \<Rightarrow> Memory" where
  "DeletePolicy key m = notify StoreEventPolicyChanged (mutate (DropPolicy key) m)"

section \<open>Listing and watching\<close>

definition ListIdentities ::
  "((u32 \<times> Identity) list \<Rightarrow> (u32 \<times> Identity) list) \<Rightarrow> Memory \<Rightarrow> Identity list" where
  "ListIdentities order m = map snd (order (mem_identities m))"

definition ListPolicies ::
  "((PolicyRuleKey \<times> PolicyRule) list \<Rightarrow> (PolicyRuleKey \<times> PolicyRule) list) \<Rightarrow> Memory \<Rightarrow> PolicyRule list" where
  "ListPolicies order m = map snd (order (mem_policies m))"

text \<open>A watcher registers a new channel, takes events from it, and is removed when its context ends.\<close>

definition Watch :: "nat \<Rightarrow> Memory \<Rightarrow> Memory" where
  "Watch ch m = m\<lparr>watchers := AList.update ch [] (watchers m)\<rparr>"

definition watch_done :: "nat \<Rightarrow> Memory \<Rightarrow> Memory" where
  "watch_done ch m = m\<lparr>watchers := AList.delete ch (watchers m)\<rparr>"

definition pending :: "nat \<Rightarrow> Memory \<Rightarrow> StoreEventKind list" where
  "pending ch m = (case map_of (watchers m) ch of Some buf \<Rightarrow> buf | None \<Rightarrow> [])"

definition take_event :: "nat \<Rightarrow> Memory \<Rightarrow> Memory" where
  "take_event ch m = m\<lparr>watchers := AList.update ch (tl (pending ch m)) (watchers m)\<rparr>"

section \<open>The store keeps one entry per key\<close>

definition wf_memory :: "Memory \<Rightarrow> bool" where
  "wf_memory m \<longleftrightarrow> wf_map (mem_identities m) \<and> wf_map (mem_policies m) \<and> wf_map (watchers m) \<and>
     (\<forall>(i, x)\<in>set (mem_identities m). ID x = i) \<and> (\<forall>(k, r)\<in>set (mem_policies m). Key r = k) \<and>
     (\<forall>(ch, buf)\<in>set (watchers m). length buf \<le> watchBuffer)"

lemma set_update: "set (AList.update k v m) \<subseteq> insert (k, v) (set m)"
  by (induction m) auto

lemma set_delete: "set (AList.delete k m) \<subseteq> set m"
  by (simp add: AList.delete_eq)

lemma fst_offer: "map fst (map (\<lambda>(ch, buf). (ch, offer ev buf)) ws) = map fst ws"
  by (induction ws) auto

lemma wf_NewMemory [simp]: "wf_memory NewMemory"
  by (simp add: wf_memory_def NewMemory_def)

lemma wf_mutate: "wf_memory m \<Longrightarrow> wf_memory (mutate c m)"
  unfolding wf_memory_def mutate_def
  by (cases c) (auto dest!: subsetD [OF set_update] subsetD [OF set_delete])

lemma wf_notify: "wf_memory m \<Longrightarrow> wf_memory (notify ev m)"
  unfolding wf_memory_def notify_def wf_map_def
  by (simp add: fst_offer del: map_map) (auto simp: offer_def)

lemma wf_Watch: "wf_memory m \<Longrightarrow> wf_memory (Watch ch m)"
  unfolding wf_memory_def Watch_def by (auto dest!: subsetD [OF set_update])

lemma wf_watch_done: "wf_memory m \<Longrightarrow> wf_memory (watch_done ch m)"
  unfolding wf_memory_def watch_done_def by (auto dest!: subsetD [OF set_delete])

lemma wf_take_event: "wf_memory m \<Longrightarrow> map_of (watchers m) ch = Some buf \<Longrightarrow> wf_memory (take_event ch m)"
  unfolding wf_memory_def take_event_def pending_def
  by (auto dest!: subsetD [OF set_update] map_of_SomeD)

section \<open>What the operations do\<close>

lemma content_frame [simp]:
  "mem_identities (notify ev m) = mem_identities m" "mem_policies (notify ev m) = mem_policies m"
  "mem_identities (Watch ch m) = mem_identities m" "mem_policies (Watch ch m) = mem_policies m"
  "mem_identities (watch_done ch m) = mem_identities m" "mem_policies (watch_done ch m) = mem_policies m"
  "mem_identities (take_event ch m) = mem_identities m" "mem_policies (take_event ch m) = mem_policies m"
  "watchers (mutate c m) = watchers m" "pending ch (mutate c m) = pending ch m"
  by (simp_all add: notify_def Watch_def watch_done_def take_event_def mutate_def pending_def split: mutation.split)

lemma map_of_offer: "map_of (map (\<lambda>(ch, buf). (ch, offer ev buf)) ws) ch = map_option (offer ev) (map_of ws ch)"
  by (induction ws) auto

lemma watching_notify [simp]: "map_of (watchers (notify ev m)) ch = map_option (offer ev) (map_of (watchers m) ch)"
  by (simp add: notify_def map_of_offer)

text \<open>A registered watcher has an event pending after a notification, delivered or coalesced.\<close>

lemma pending_notify: "map_of (watchers m) ch = Some buf \<Longrightarrow> pending ch (notify ev m) \<noteq> []"
  by (simp add: pending_def offer_def)

lemma pending_Watch [simp]: "pending ch (Watch ch m) = []" "map_of (watchers (Watch ch m)) ch = Some []"
  by (simp_all add: pending_def Watch_def)

lemma pending_take [simp]: "pending ch (take_event ch m) = tl (pending ch m)"
  "map_of (watchers (take_event ch m)) ch = Some (tl (pending ch m))"
  by (simp_all add: pending_def take_event_def)

lemma pending_short: "wf_memory m \<Longrightarrow> length (pending ch m) \<le> 1"
  unfolding wf_memory_def pending_def by (auto split: option.split dest!: map_of_SomeD)

text \<open>Listing a map whose values carry their key loses nothing but the order.\<close>

lemma listing:
  assumes "wf_map m" and "\<forall>(k, x)\<in>set m. f x = k" and "permutes_lists order"
  shows "set (map snd (order m)) = snd ` set m" "distinct (map f (map snd (order m)))"
    "table f (\<lambda>x. x) (map snd (order m)) = map_of m"
proof -
  note p = permutes_listsD [OF assms(3)]
  have k: "f x = k" if "(k, x) \<in> set m" for k x using assms(2) that by auto
  show s: "set (map snd (order m)) = snd ` set m" by (simp add: p(2))
  have "map f (map snd (order m)) = map fst (order m)" using k p(2) [of m] by auto
  moreover have "mset (map fst (order m)) = mset (map fst m)" by (simp add: p(1))
  ultimately show d: "distinct (map f (map snd (order m)))"
    using assms(1) mset_eq_imp_distinct_iff unfolding wf_map_def by metis
  show "table f (\<lambda>x. x) (map snd (order m)) = map_of m"
  proof (rule ext)
    fix q
    show "table f (\<lambda>x. x) (map snd (order m)) q = map_of m q"
    proof (cases "map_of m q")
      case None
      then have "q \<notin> f ` set (map snd (order m))" unfolding s map_of_eq_None_iff using k by force
      then show ?thesis using None table_None_iff by metis
    next
      case (Some r)
      then have "r \<in> set (map snd (order m))" "f r = q" unfolding s using k by (force dest!: map_of_SomeD)+
      then show ?thesis using table_Some [OF d] Some by metis
    qed
  qed
qed

lemma ListPolicies_keys:
  assumes "wf_memory m" and "permutes_lists order"
  shows "set (ListPolicies order m) = snd ` set (mem_policies m)" "distinct (map Key (ListPolicies order m))"
    "table Key (\<lambda>r. r) (ListPolicies order m) = map_of (mem_policies m)"
  using listing [OF _ _ assms(2), of "mem_policies m" Key] assms(1)
  unfolding ListPolicies_def wf_memory_def by blast+

lemma ListIdentities_ids:
  assumes "wf_memory m" and "permutes_lists order"
  shows "set (ListIdentities order m) = snd ` set (mem_identities m)" "distinct (map ID (ListIdentities order m))"
    "table ID (\<lambda>i. i) (ListIdentities order m) = map_of (mem_identities m)"
  using listing [OF _ _ assms(2), of "mem_identities m" ID] assms(1)
  unfolding ListIdentities_def wf_memory_def by blast+

end
