(* ===== verification/Ads_Server.thy ===== *)
theory Ads_Server
  imports Ads_Versioning Control_Store Cc2_Codec
begin

text \<open>
  \<^verbatim>\<open>internal/control/ads/server.go\<close>: the handlers of one ADS stream. A handler takes the stream state,
  the subscriptions and the store, and returns the responses it sends; \<open>None\<close> is the error that ends
  the stream. The orders in which the store's maps are ranged over are arguments.
\<close>

section \<open>Resources\<close>

definition pushOrder :: "type_url list" where
  "pushOrder = [ClusterType, EndpointType, ListenerType, RouteType]"

type_synonym orders =
  "((PolicyRuleKey \<times> PolicyRule) list \<Rightarrow> (PolicyRuleKey \<times> PolicyRule) list) \<times>
   ((u32 \<times> Identity) list \<Rightarrow> (u32 \<times> Identity) list)"

text \<open>The loops that encode one resource after the other.\<close>

primrec encode_all :: "('r \<Rightarrow> 'a option) \<Rightarrow> 'r list \<Rightarrow> 'a list option" where
  "encode_all f [] = Some []"
| "encode_all f (x # xs) = Option.bind (f x) (\<lambda>a. map_option (\<lambda>out. a # out) (encode_all f xs))"

definition resourcesFor :: "'a anypb \<Rightarrow> orders \<Rightarrow> Memory \<Rightarrow> type_url \<Rightarrow> 'a list option" where
  "resourcesFor P ord m typeURL =
     (case typeURL of
        ClusterType \<Rightarrow> encode_all (EncodePolicyRule P) (ListPolicies (fst ord) m)
      | EndpointType \<Rightarrow> encode_all (EncodeIdentity P) (ListIdentities (snd ord) m)
      | _ \<Rightarrow> Some [])"

section \<open>Handlers\<close>

definition push ::
  "'a anypb \<Rightarrow> orders \<Rightarrow> Memory \<Rightarrow> type_url \<Rightarrow> streamState \<Rightarrow> ('a DiscoveryResponse \<times> streamState) option" where
  "push P ord m typeURL state =
     (case resourcesFor P ord m typeURL of
        None \<Rightarrow> None
      | Some resources \<Rightarrow>
          (case preparePush typeURL state of
             ((version, nonce), state') \<Rightarrow>
               Some (\<lparr>resp_TypeUrl = typeURL, resp_VersionInfo = version, resp_Nonce = nonce,
                      Resources = resources\<rparr>, state')))"

primrec push_each ::
  "'a anypb \<Rightarrow> orders \<Rightarrow> Memory \<Rightarrow> type_url list \<Rightarrow> streamState \<Rightarrow> ('a DiscoveryResponse list \<times> streamState) option" where
  "push_each P ord m [] state = Some ([], state)"
| "push_each P ord m (t # ts) state =
     Option.bind (push P ord m t state) (\<lambda>(resp, state').
     map_option (\<lambda>(out, s). (resp # out, s)) (push_each P ord m ts state'))"

definition pushAll ::
  "'a anypb \<Rightarrow> orders \<Rightarrow> Memory \<Rightarrow> type_url set \<Rightarrow> streamState \<Rightarrow> ('a DiscoveryResponse list \<times> streamState) option" where
  "pushAll P ord m subscribed state = push_each P ord m (filter (\<lambda>t. t \<in> subscribed) pushOrder) state"

definition onRequest ::
  "'a anypb \<Rightarrow> orders \<Rightarrow> Memory \<Rightarrow> 'e DiscoveryRequest \<Rightarrow> streamState \<times> type_url set \<Rightarrow>
   ('a DiscoveryResponse list \<times> streamState \<times> type_url set) option" where
  "onRequest P ord m req = (\<lambda>(state, subscribed).
     let typeURL = req_TypeUrl req
     in if typeURL = OtherType [] then Some ([], state, subscribed)
        else case classify typeURL (ResponseNonce req) (ErrorDetail req \<noteq> None) state of
          (kind, state') \<Rightarrow>
            if kind = ackInitial
            then map_option (\<lambda>(resp, s). ([resp], s, insert typeURL subscribed)) (push P ord m typeURL state')
            else Some ([], state', subscribed))"

section \<open>What a push carries\<close>

lemma encode_all_Some: "encode_all f xs = Some as \<longleftrightarrow> list_all2 (\<lambda>x a. f x = Some a) xs as"
proof (induction xs arbitrary: as)
  case (Cons x xs)
  then show ?case by (cases as) (auto simp: bind_eq_Some_conv)
qed auto

lemma encode_all_total: "(\<And>x. x \<in> set xs \<Longrightarrow> f x \<noteq> None) \<Longrightarrow> \<exists>as. encode_all f xs = Some as"
proof (induction xs)
  case (Cons x xs)
  then obtain as a where "encode_all f xs = Some as" "f x = Some a" by (meson list.set_intros not_None_eq)
  then show ?case by simp
qed simp

end
