(* ===== verification/Client_Behaviour.thy ===== *)
theory Client_Behaviour
  imports Xds_Client Cc2_Roundtrip Datapath_Properties Ads_Server
begin

text \<open>
  What the client makes of the pushes it receives: on map handles that do not fail, every push of
  well-formed resources is acknowledged and installed, and the kernel's policy map is at all times
  the table of the applied rules; a rule the client does not know of survives every push.
\<close>

section \<open>Decoding a push\<close>

lemma decode_from_encoded:
  assumes "list_all2 (\<lambda>x a. enc x = Some a) xs as" and "\<And>x a. x \<in> set xs \<Longrightarrow> enc x = Some a \<Longrightarrow> dec a = Inr x"
  shows "decode_from dec i as = Inr xs"
  using assms
proof (induction xs as arbitrary: i rule: list_all2_induct)
  case (Cons x xs a as)
  have d: "dec a = Inr x" using Cons.prems [of x a] Cons.hyps(1) by simp
  have "decode_from dec (Suc i) as = Inr xs" by (rule Cons.IH) (use Cons.prems in simp)
  then show ?case by (simp add: d)
qed simp

section \<open>The client's invariant\<close>

definition client_ok :: "Client \<times> 'w writer \<Rightarrow> bool" where
  "client_ok = (\<lambda>(c, w).
     distinct (map Key (policies (applied c))) \<and> distinct (map ID (identities (applied c))) \<and>
     policyMap w = table (translatePolicyRuleKey \<circ> Key) (translatePolicyVerdict \<circ> Verdict) (policies (applied c)))"

lemma client_ok_start: "client_ok (NewClient, newWriter x m Map.empty)"
  by (simp add: client_ok_def NewClient_def newWriter_def)

lemma handle_candidate:
  assumes "live_ebpf E" and "client_ok (c, w)" and "candidateFor P resp c = Inr s"
    and "distinct (map Key (policies s))" and "distinct (map ID (identities s))"
    and "\<forall>i\<in>set (identities s) - set (identities (applied c)). has_address i"
  obtains plan w' where
    "handle E P resp (c, w) = (ack resp, Some plan, commit (resp_TypeUrl resp) (resp_VersionInfo resp) s c, w')"
    "client_ok (commit (resp_TypeUrl resp) (resp_VersionInfo resp) s c, w')"
proof -
  have d: "distinct (map Key (policies (applied c)))" "distinct (map ID (identities (applied c)))"
    and pol: "policyMap w = table (translatePolicyRuleKey \<circ> Key) (translatePolicyVerdict \<circ> Verdict) (policies (applied c))"
    using assms(2) by (simp_all add: client_ok_def)
  have "\<forall>i\<in>set (IdentityUpserts (diff (applied c) s)). has_address i"
    unfolding diff_identity_sets(1) [OF d(2)] using assms(6) .
  then obtain w' where w': "Apply E (diff (applied c) s) w = (None, w')"
    using live_ebpf.Apply_live [OF assms(1)] by metis
  have "policyMap w' = table (translatePolicyRuleKey \<circ> Key) (translatePolicyVerdict \<circ> Verdict) (policies s)"
    by (rule ebpf_maps.diff_policy_table [OF live_ebpf.axioms(1) [OF assms(1)] d(1) assms(4) pol w'])
  then show thesis
    using assms(3-5) w' by (intro that) (simp_all add: handle_def client_ok_def commit_def)
qed

section \<open>Rules the client does not know of\<close>

definition brings_key :: "'a anypb \<Rightarrow> PolicyRuleKey \<Rightarrow> 'a DiscoveryResponse \<Rightarrow> bool" where
  "brings_key P k resp \<longleftrightarrow> resp_TypeUrl resp = ClusterType \<and>
     (\<exists>ps. decode_from (DecodePolicyRule P) 0 (Resources resp) = Inr ps \<and> k \<in> Key ` set ps)"

primrec handle_all ::
  "'w ebpf \<Rightarrow> 'a anypb \<Rightarrow> 'a DiscoveryResponse list \<Rightarrow> Client \<times> 'w writer \<Rightarrow> Client \<times> 'w writer" where
  "handle_all E P [] cw = cw"
| "handle_all E P (resp # resps) cw = handle_all E P resps (snd (snd (handle E P resp cw)))"

lemma handle_unknown_rule:
  assumes "ebpf_maps E" and "k \<notin> Key ` set (policies (applied c))" and "\<not> brings_key P k resp"
    and "handle E P resp (c, w) = (req, plan, c', w')"
  shows "k \<notin> Key ` set (policies (applied c'))"
    and "policyMap w' (translatePolicyRuleKey k) = policyMap w (translatePolicyRuleKey k)"
proof -
  have "k \<notin> Key ` set (policies (applied c')) \<and>
    policyMap w' (translatePolicyRuleKey k) = policyMap w (translatePolicyRuleKey k)"
  proof (cases "candidateFor P resp c")
    case (Inl e)
    then show ?thesis using assms(2,4) by (simp add: handle_def)
  next
    case (Inr s)
    have s: "k \<notin> Key ` set (policies s)"
      using Inr assms(2,3) by (auto simp: candidateFor_def brings_key_def and_then_Inr_iff split: type_url.splits if_splits)
    obtain err v where v: "Apply E (diff (applied c) s) w = (err, v)" by fastforce
    then show ?thesis
      using ebpf_maps.diff_untouched [OF assms(1) v assms(2) s] assms(2,4) s Inr
      by (cases err) (auto simp: handle_def commit_def)
  qed
  then show "k \<notin> Key ` set (policies (applied c'))"
    and "policyMap w' (translatePolicyRuleKey k) = policyMap w (translatePolicyRuleKey k)" by simp_all
qed

lemma handle_all_unknown_rule:
  assumes "ebpf_maps E" and "k \<notin> Key ` set (policies (applied c))" and "\<forall>resp\<in>set resps. \<not> brings_key P k resp"
  shows "policyMap (snd (handle_all E P resps (c, w))) (translatePolicyRuleKey k) = policyMap w (translatePolicyRuleKey k)"
  using assms(2,3)
proof (induction resps arbitrary: c w)
  case (Cons resp resps)
  obtain req plan c' w' where h: "handle E P resp (c, w) = (req, plan, c', w')" by (metis prod_cases4)
  have "\<not> brings_key P k resp" using Cons.prems(2) by simp
  note step = handle_unknown_rule [OF assms(1) Cons.prems(1) this h]
  show ?case using Cons.IH [OF step(1), of w'] Cons.prems(2) step(2) h by simp
qed simp

text \<open>
  C31. A rule in the kernel map that the client has not recorded as applied stays there, whatever is
  pushed afterwards, unless a push names its key. Two ways lead there: a push that was refused half
  way, since \<open>Apply\<close> does not undo what it wrote, and a restart of the agent, which finds the pinned maps
  of its predecessor and starts with an empty record.
\<close>

theorem unrecorded_rule_survives:
  assumes "ebpf_maps E" and "policyMap w (translatePolicyRuleKey k) = Some v"
    and "k \<notin> Key ` set (policies (applied c))" and "\<forall>resp\<in>set resps. \<not> brings_key P k resp"
  shows "policyMap (snd (handle_all E P resps (c, w))) (translatePolicyRuleKey k) = Some v"
  using handle_all_unknown_rule [OF assms(1,3,4)] assms(2) by simp

definition demo_push :: "PolicyRule list \<Rightarrow> string DiscoveryResponse" where
  "demo_push rs =
     \<lparr>resp_TypeUrl = ClusterType, resp_VersionInfo = ''1'', resp_Nonce = ''1'',
      Resources = the (encode_all (EncodePolicyRule plain_any) rs)\<rparr>"

text \<open>
  The witness: a push of two rules is refused after the first was written, then the control plane
  withdraws both, and the agent acknowledges that push.
\<close>

definition demo_stuck :: "Client \<times> bool list writer" where
  "demo_stuck = snd (snd (handle scripted_ebpf plain_any (demo_push demo_rules)
     (NewClient, newWriter [False, True] Map.empty Map.empty)))"

lemma demo_push_decodes: "decode_from (DecodePolicyRule plain_any) 0 (Resources (demo_push demo_rules)) = Inr demo_rules"
proof -
  obtain as where as: "encode_all (EncodePolicyRule plain_any) demo_rules = Some as"
    using encode_all_total [of demo_rules "EncodePolicyRule plain_any"] encode_plain_any(1) by (metis option.distinct(1))
  have "decode_from (DecodePolicyRule plain_any) 0 as = Inr demo_rules"
  proof (rule decode_from_encoded [OF as [unfolded encode_all_Some]])
    fix r a assume "r \<in> set demo_rules" "EncodePolicyRule plain_any r = Some a"
    then show "DecodePolicyRule plain_any a = Inr r"
      by (intro Decode_Encode_in_range [OF packs_plain_any]) (auto simp: demo_rules_def demo_key_def rule_in_range_def)
  qed
  then show ?thesis by (simp add: demo_push_def as)
qed

lemma demo_stuck_state:
  "applied (fst demo_stuck) = \<lparr>policies = [], identities = []\<rparr>"
  "policyMap (snd demo_stuck) (translatePolicyRuleKey (demo_key 0)) = Some \<lparr>pv_action = 0, pv_flags = 0, pv_pad = 0\<rparr>"
proof -
  let ?s = "\<lparr>policies = demo_rules, identities = []\<rparr>" and ?w = "newWriter [False, True] Map.empty Map.empty"
  have cand: "candidateFor plain_any (demo_push demo_rules) NewClient = Inr ?s"
    using demo_push_decodes by (simp add: candidateFor_def demo_push_def NewClient_def)
  have app: "fst (Apply scripted_ebpf (diff \<lparr>policies = [], identities = []\<rparr> ?s) ?w) =
      Some (Policy_Upsert_Failed (demo_key 1) (Ebpf_Errno 7))"
    "policyMap (snd (Apply scripted_ebpf (diff \<lparr>policies = [], identities = []\<rparr> ?s) ?w))
      (translatePolicyRuleKey (demo_key 0)) = Some \<lparr>pv_action = 0, pv_flags = 0, pv_pad = 0\<rparr>"
    by code_simp+
  then show "applied (fst demo_stuck) = \<lparr>policies = [], identities = []\<rparr>"
    "policyMap (snd demo_stuck) (translatePolicyRuleKey (demo_key 0)) = Some \<lparr>pv_action = 0, pv_flags = 0, pv_pad = 0\<rparr>"
    unfolding demo_stuck_def handle_def using cand
    by (auto simp: NewClient_def Let_def split: prod.splits option.splits)
qed

theorem unrecorded_rule_survives_witness:
  "policyMap (snd (handle_all scripted_ebpf plain_any [demo_push [], demo_push []] demo_stuck))
     (translatePolicyRuleKey (demo_key 0)) = Some \<lparr>pv_action = 0, pv_flags = 0, pv_pad = 0\<rparr>"
proof -
  have "\<not> brings_key plain_any (demo_key 0) (demo_push [])" by (simp add: brings_key_def demo_push_def)
  then show ?thesis
    using unrecorded_rule_survives [OF scripted.ebpf_maps_axioms demo_stuck_state(2), of "fst demo_stuck" "[demo_push [], demo_push []]"]
      demo_stuck_state(1) by simp
qed

end
