(* ===== verification/Control_Loop.thy ===== *)
theory Control_Loop
  imports Client_Behaviour
begin

text \<open>
  Store, ADS server, stream and agent together: the path of a policy change from the store to the
  kernel maps. The steps are the critical sections and handlers of the goroutines involved; between
  any two of them the store may change. The stream delivers messages in order in both directions, as
  gRPC does, and may break at any time.
\<close>

section \<open>The system\<close>

record ('a, 'w) control_loop =
  l_store :: Memory
  unnotified :: "StoreEventKind list"
  l_chan :: nat
  l_state :: streamState
  l_subscribed :: "type_url set"
  to_push :: "type_url list"
  downlink :: "'a DiscoveryResponse list"
  uplink :: "client_error DiscoveryRequest list"
  l_client :: Client
  l_writer :: "'w writer"

text \<open>What the API of the control plane may put into the store.\<close>

definition valid_mutation :: "mutation \<Rightarrow> bool" where
  "valid_mutation c =
     (case c of
        SetIdentity i \<Rightarrow> text_identity i \<and> has_address i
      | SetPolicy r \<Rightarrow> rule_in_range r
      | _ \<Rightarrow> True)"

text \<open>Changes from outside: a mutation commits, or the stream is lost and opened again.\<close>

inductive change :: "('a, 'w) control_loop \<Rightarrow> ('a, 'w) control_loop \<Rightarrow> bool" where
  mutated: "valid_mutation c \<Longrightarrow>
    change s (s\<lparr>l_store := mutate c (l_store s), unnotified := unnotified s @ [event_of c]\<rparr>)"
| reconnected: "change s (s\<lparr>l_store := Watch ch (watch_done (l_chan s) (l_store s)), l_chan := ch,
    l_state := newStreamState, l_subscribed := {}, to_push := [], downlink := [],
    uplink := map subscription subscribeTypes\<rparr>)"

text \<open>Steps of the system: notify, the server's loop, and the client's loop.\<close>

inductive deliver ::
  "'w ebpf \<Rightarrow> 'a anypb \<Rightarrow> ('a, 'w) control_loop \<Rightarrow> ('a, 'w) control_loop \<Rightarrow> bool" for E P where
  notified: "unnotified s = evs @ ev # evs' \<Longrightarrow>
    deliver E P s (s\<lparr>unnotified := evs @ evs', l_store := notify ev (l_store s)\<rparr>)"
| woken: "to_push s = [] \<Longrightarrow> pending (l_chan s) (l_store s) \<noteq> [] \<Longrightarrow>
    deliver E P s (s\<lparr>l_store := take_event (l_chan s) (l_store s),
      to_push := filter (\<lambda>t. t \<in> l_subscribed s) pushOrder\<rparr>)"
| pushed: "to_push s = t # ts \<Longrightarrow> permutes_lists (fst ord) \<Longrightarrow> permutes_lists (snd ord) \<Longrightarrow>
    push P ord (l_store s) t (l_state s) = Some (resp, st) \<Longrightarrow>
    deliver E P s (s\<lparr>to_push := ts, l_state := st, downlink := downlink s @ [resp]\<rparr>)"
| requested: "to_push s = [] \<Longrightarrow> uplink s = req # reqs \<Longrightarrow> permutes_lists (fst ord) \<Longrightarrow> permutes_lists (snd ord) \<Longrightarrow>
    onRequest P ord (l_store s) req (l_state s, l_subscribed s) = Some (resps, st, sub) \<Longrightarrow>
    deliver E P s (s\<lparr>uplink := reqs, l_state := st, l_subscribed := sub, downlink := downlink s @ resps\<rparr>)"
| handled: "downlink s = resp # resps \<Longrightarrow>
    handle E P resp (l_client s, l_writer s) = (req, plan, c, w) \<Longrightarrow>
    deliver E P s (s\<lparr>downlink := resps, uplink := uplink s @ [req], l_client := c, l_writer := w\<rparr>)"

definition loop_start :: "'w \<Rightarrow> (u32 \<rightharpoonup> u32) \<Rightarrow> ('a, 'w) control_loop" where
  "loop_start x m =
     \<lparr>l_store = Watch 0 NewMemory, unnotified = [], l_chan = 0, l_state = newStreamState,
      l_subscribed = {}, to_push = [], downlink = [], uplink = map subscription subscribeTypes,
      l_client = NewClient, l_writer = newWriter x m Map.empty\<rparr>"

text \<open>Reachable states, with the list of all contents the store has had.\<close>

inductive reachable ::
  "'w ebpf \<Rightarrow> 'a anypb \<Rightarrow> Memory list \<Rightarrow> ('a, 'w) control_loop \<Rightarrow> bool" for E P where
  start: "reachable E P [NewMemory] (loop_start x m)"
| changed: "reachable E P hist s \<Longrightarrow> change s s' \<Longrightarrow> reachable E P (l_store s' # hist) s'"
| delivered: "reachable E P hist s \<Longrightarrow> deliver E P s s' \<Longrightarrow> reachable E P hist s'"

section \<open>Agreement of the agent with a state of the store\<close>

definition carries :: "'a anypb \<Rightarrow> type_url \<Rightarrow> 'a DiscoveryResponse \<Rightarrow> Memory \<Rightarrow> bool" where
  "carries P t resp m =
     (case t of
        ClusterType \<Rightarrow> \<exists>ps. decode_from (DecodePolicyRule P) 0 (Resources resp) = Inr ps \<and>
          distinct (map Key ps) \<and> table Key (\<lambda>r. r) ps = map_of (mem_policies m)
      | EndpointType \<Rightarrow> \<exists>is. decode_from (DecodeIdentity P) 0 (Resources resp) = Inr is \<and>
          distinct (map ID is) \<and> (\<forall>i\<in>set is. has_address i) \<and> table ID (\<lambda>i. i) is = map_of (mem_identities m)
      | _ \<Rightarrow> Resources resp = [])"

definition client_has :: "type_url \<Rightarrow> Client \<Rightarrow> Memory \<Rightarrow> bool" where
  "client_has t c m =
     (case t of
        ClusterType \<Rightarrow> table Key (\<lambda>r. r) (policies (applied c)) = map_of (mem_policies m)
      | EndpointType \<Rightarrow> table ID (\<lambda>i. i) (identities (applied c)) = map_of (mem_identities m)
      | _ \<Rightarrow> True)"

definition of_type :: "type_url \<Rightarrow> ('a, 'w) control_loop \<Rightarrow> 'a DiscoveryResponse list" where
  "of_type t s = filter (\<lambda>r. resp_TypeUrl r = t) (downlink s)"

text \<open>The last word of the server on a type: the last push in flight, or else what the client applied.\<close>

definition synced :: "'a anypb \<Rightarrow> type_url \<Rightarrow> ('a, 'w) control_loop \<Rightarrow> bool" where
  "synced P t s =
     (if of_type t s = [] then client_has t (l_client s) (l_store s)
      else carries P t (last (of_type t s)) (l_store s))"

definition will_push :: "type_url \<Rightarrow> ('a, 'w) control_loop \<Rightarrow> bool" where
  "will_push t s \<longleftrightarrow> unnotified s \<noteq> [] \<or> pending (l_chan s) (l_store s) \<noteq> [] \<or> t \<in> set (to_push s)"

definition store_ok :: "Memory \<Rightarrow> bool" where
  "store_ok m \<longleftrightarrow> wf_memory m \<and> (\<forall>r\<in>snd ` set (mem_policies m). rule_in_range r) \<and>
     (\<forall>i\<in>snd ` set (mem_identities m). text_identity i \<and> has_address i)"

definition loop_inv :: "'a anypb \<Rightarrow> Memory list \<Rightarrow> ('a, 'w) control_loop \<Rightarrow> bool" where
  "loop_inv P hist s \<longleftrightarrow>
     store_ok (l_store s) \<and> map_of (watchers (l_store s)) (l_chan s) \<noteq> None \<and>
     client_ok (l_client s, l_writer s) \<and>
     (\<forall>resp\<in>set (downlink s). resp_Nonce resp \<noteq> [] \<and> (\<exists>m\<in>set hist. carries P (resp_TypeUrl resp) resp m)) \<and>
     (\<forall>t\<in>set subscribeTypes.
        (t \<in> l_subscribed s \<longrightarrow> will_push t s \<or> synced P t s) \<and>
        (t \<notin> l_subscribed s \<longrightarrow> (\<exists>req\<in>set (uplink s). req_TypeUrl req = t \<and> ResponseNonce req = [])) \<and>
        (\<exists>m\<in>set hist. client_has t (l_client s) m)) \<and>
     (\<exists>m\<in>set hist. mem_policies m = mem_policies (l_store s) \<and> mem_identities m = mem_identities (l_store s))"

definition quiescent :: "('a, 'w) control_loop \<Rightarrow> bool" where
  "quiescent s \<longleftrightarrow> unnotified s = [] \<and> pending (l_chan s) (l_store s) = [] \<and> to_push s = [] \<and>
     downlink s = [] \<and> uplink s = []"

end
