(* ===== verification/Loop_Invariant.thy ===== *)
theory Loop_Invariant
  imports Control_Loop
begin

text \<open>
  The invariant of the control loop, step by step. The protobuf wrapping is the interface \<open>any_codec\<close>;
  together with map handles that do not fail it makes the locale in which the invariant is kept.
\<close>

locale any_codec =
  fixes P :: "'a anypb"
  assumes unpack_pack: "pack P s = Some a \<Longrightarrow> unpack P a = Some s"
    and pack_total: "pack P s \<noteq> None"

locale agent_loop = live_ebpf E + any_codec P for E :: "'w ebpf" and P :: "'a anypb"

interpretation plain: agent_loop plain_ebpf plain_any
  by unfold_locales (auto simp: plain_any_def)

lemma mutate_entries:
  assumes "x \<in> snd ` set (mem_policies (mutate c m))"
  shows "x \<in> snd ` set (mem_policies m) \<or> c = SetPolicy x"
  using assms by (cases c) (auto simp: mutate_def dest!: subsetD [OF set_update] subsetD [OF set_delete] intro: rev_image_eqI)

lemma mutate_identity_entries:
  assumes "x \<in> snd ` set (mem_identities (mutate c m))"
  shows "x \<in> snd ` set (mem_identities m) \<or> c = SetIdentity x"
  using assms by (cases c) (auto simp: mutate_def dest!: subsetD [OF set_update] subsetD [OF set_delete] intro: rev_image_eqI)

lemma store_ok_mutate:
  assumes "store_ok m" and "valid_mutation c"
  shows "store_ok (mutate c m)"
proof -
  have "rule_in_range r" if "r \<in> snd ` set (mem_policies (mutate c m))" for r
    using mutate_entries [OF that] assms by (auto simp: store_ok_def valid_mutation_def)
  moreover have "text_identity i \<and> has_address i" if "i \<in> snd ` set (mem_identities (mutate c m))" for i
    using mutate_identity_entries [OF that] assms by (auto simp: store_ok_def valid_mutation_def)
  ultimately show ?thesis using assms(1) by (simp add: store_ok_def wf_mutate)
qed

lemma store_ok_frame:
  "store_ok m \<Longrightarrow> store_ok (notify ev m)"
  "store_ok m \<Longrightarrow> store_ok (Watch ch (watch_done ch' m))"
  "store_ok m \<Longrightarrow> map_of (watchers m) ch = Some buf \<Longrightarrow> store_ok (take_event ch m)"
  unfolding store_ok_def by (simp_all add: wf_notify wf_Watch wf_watch_done wf_take_event)

text \<open>Agreement looks at the two maps of the store only.\<close>

lemma agreement_cong:
  assumes "mem_policies m = mem_policies m'" and "mem_identities m = mem_identities m'"
  shows "carries P t resp m = carries P t resp m'" "client_has t c m = client_has t c m'"
  using assms by (simp_all add: carries_def client_has_def split: type_url.split)

context any_codec
begin

lemma packs: "packs_bytes P"
  using unpack_pack by (simp add: packs_bytes_def)

lemma encoders_total: "EncodePolicyRule P r \<noteq> None" "EncodeIdentity P i \<noteq> None"
  using pack_total by (simp_all add: EncodePolicyRule_def EncodeIdentity_def encode_def)

lemma push_total: "\<exists>resp st'. push P ord m t st = Some (resp, st')"
proof -
  have "\<exists>rs. resourcesFor P ord m t = Some rs"
    using encode_all_total [of _ "EncodePolicyRule P"] encode_all_total [of _ "EncodeIdentity P"] encoders_total
    by (cases t) (auto simp: resourcesFor_def simp del: not_None_eq)
  then show ?thesis by (auto simp: push_def split: prod.split)
qed

lemma push_carries:
  assumes "store_ok m" and "permutes_lists (fst ord)" and "permutes_lists (snd ord)"
    and "push P ord m t st = Some (resp, st')"
  shows "resp_TypeUrl resp = t" "resp_Nonce resp \<noteq> []" "carries P t resp m"
proof -
  obtain rs v n where rs: "resourcesFor P ord m t = Some rs"
    and resp: "resp = \<lparr>resp_TypeUrl = t, resp_VersionInfo = v, resp_Nonce = n, Resources = rs\<rparr>"
    and n: "n = snd (fst (preparePush t st))"
    using assms(4) by (auto simp: push_def split: option.splits prod.splits)
  show "resp_TypeUrl resp = t" "resp_Nonce resp \<noteq> []"
    by (simp_all add: resp n preparePush_def Let_def FormatUint_def)
  have wf: "wf_memory m" using assms(1) by (simp add: store_ok_def)
  show "carries P t resp m"
  proof (cases t)
    case ClusterType
    note ps = ListPolicies_keys [OF wf assms(2)]
    have "decode_from (DecodePolicyRule P) 0 rs = Inr (ListPolicies (fst ord) m)"
    proof (rule decode_from_encoded)
      show "list_all2 (\<lambda>x a. EncodePolicyRule P x = Some a) (ListPolicies (fst ord) m) rs"
        using rs ClusterType by (simp add: resourcesFor_def flip: encode_all_Some)
    next
      fix r a assume "r \<in> set (ListPolicies (fst ord) m)" "EncodePolicyRule P r = Some a"
      then show "DecodePolicyRule P a = Inr r"
        using assms(1) ps(1) by (intro Decode_Encode_in_range [OF packs]) (auto simp: store_ok_def)
    qed
    then show ?thesis using ps by (simp add: carries_def resp ClusterType)
  next
    case EndpointType
    note ids = ListIdentities_ids [OF wf assms(3)]
    have "decode_from (DecodeIdentity P) 0 rs = Inr (ListIdentities (snd ord) m)"
    proof (rule decode_from_encoded)
      show "list_all2 (\<lambda>x a. EncodeIdentity P x = Some a) (ListIdentities (snd ord) m) rs"
        using rs EndpointType by (simp add: resourcesFor_def flip: encode_all_Some)
    next
      fix r a assume "r \<in> set (ListIdentities (snd ord) m)" "EncodeIdentity P r = Some a"
      then show "DecodeIdentity P a = Inr r"
        using assms(1) ids(1) by (intro Decode_Encode_identity [OF packs]) (auto simp: store_ok_def)
    qed
    moreover have "\<forall>i\<in>set (ListIdentities (snd ord) m). has_address i"
      unfolding ids(1) using assms(1) by (simp add: store_ok_def)
    ultimately show ?thesis using ids by (simp add: carries_def resp EndpointType)
  qed (use rs in \<open>simp_all add: carries_def resp resourcesFor_def\<close>)
qed

end

lemma loop_invD:
  assumes "loop_inv P hist s"
  shows "store_ok (l_store s)" "map_of (watchers (l_store s)) (l_chan s) \<noteq> None" "client_ok (l_client s, l_writer s)"
    "\<And>resp. resp \<in> set (downlink s) \<Longrightarrow> resp_Nonce resp \<noteq> [] \<and> (\<exists>m\<in>set hist. carries P (resp_TypeUrl resp) resp m)"
    "\<And>t. t \<in> set subscribeTypes \<Longrightarrow> t \<in> l_subscribed s \<Longrightarrow> will_push t s \<or> synced P t s"
    "\<And>t. t \<in> set subscribeTypes \<Longrightarrow> t \<notin> l_subscribed s \<Longrightarrow>
      \<exists>req\<in>set (uplink s). req_TypeUrl req = t \<and> ResponseNonce req = []"
    "\<And>t. t \<in> set subscribeTypes \<Longrightarrow> \<exists>m\<in>set hist. client_has t (l_client s) m"
    "\<exists>m\<in>set hist. mem_policies m = mem_policies (l_store s) \<and> mem_identities m = mem_identities (l_store s)"
  using assms unfolding loop_inv_def by blast+

lemma subscribed_types_pushed: "t \<in> set subscribeTypes \<Longrightarrow> t \<in> set pushOrder"
  by (auto simp: subscribeTypes_def pushOrder_def)

lemma inv_notified:
  assumes inv: "loop_inv P hist s" and e: "unnotified s = evs @ ev # evs'"
  shows "loop_inv P hist (s\<lparr>unnotified := evs @ evs', l_store := notify ev (l_store s)\<rparr>)" (is "loop_inv P hist ?s")
proof -
  obtain buf where "map_of (watchers (l_store s)) (l_chan s) = Some buf" using loop_invD(2) [OF inv] by blast
  then have "will_push t ?s" for t by (simp add: will_push_def pending_notify)
  then show ?thesis
    using inv store_ok_frame(1) [OF loop_invD(1) [OF inv]] unfolding loop_inv_def by auto
qed

lemma inv_woken:
  assumes inv: "loop_inv P hist s" and "to_push s = []"
  shows "loop_inv P hist (s\<lparr>l_store := take_event (l_chan s) (l_store s),
      to_push := filter (\<lambda>t. t \<in> l_subscribed s) pushOrder\<rparr>)" (is "loop_inv P hist ?s")
proof -
  obtain buf where buf: "map_of (watchers (l_store s)) (l_chan s) = Some buf" using loop_invD(2) [OF inv] by blast
  have "t \<in> set subscribeTypes \<Longrightarrow> t \<in> l_subscribed s \<Longrightarrow> will_push t ?s" for t
    using subscribed_types_pushed by (simp add: will_push_def)
  then show ?thesis
    using inv store_ok_frame(3) [OF loop_invD(1) [OF inv] buf] unfolding loop_inv_def by auto
qed

text \<open>Sending a push that carries the present state of the store.\<close>

lemma synced_send:
  assumes "resp_TypeUrl resp = u" and "carries P u resp (l_store s)" and "t = u \<or> synced P t s"
    and "downlink s' = downlink s @ [resp]" and "l_store s' = l_store s" and "l_client s' = l_client s"
  shows "synced P t s'"
  using assms by (cases "t = u") (auto simp: synced_def of_type_def)

lemma inv_pushed:
  assumes inv: "loop_inv P hist s" and tp: "to_push s = u # us"
    and resp: "resp_TypeUrl resp = u" "resp_Nonce resp \<noteq> []" "carries P u resp (l_store s)"
  shows "loop_inv P hist (s\<lparr>to_push := us, l_state := st, downlink := downlink s @ [resp]\<rparr>)" (is "loop_inv P hist ?s")
proof -
  have view: "will_push t ?s \<or> synced P t ?s" if "t \<in> set subscribeTypes" "t \<in> l_subscribed s" for t
  proof (cases "t \<noteq> u \<and> will_push t s")
    case True
    then show ?thesis using tp by (auto simp: will_push_def)
  next
    case False
    then have "t = u \<or> synced P t s" using loop_invD(5) [OF inv that] by blast
    then show ?thesis using synced_send [where s = s and s' = ?s, OF resp(1,3)] by simp
  qed
  obtain m where "m \<in> set hist" "carries P u resp m"
    using loop_invD(8) [OF inv] resp(3) agreement_cong(1) by metis
  then show ?thesis using inv view resp(1,2) unfolding loop_inv_def by auto
qed

text \<open>A request: a subscription is answered by a push, anything else changes the bookkeeping only.\<close>

lemma onRequest_cases:
  assumes "onRequest P ord m req (st, sub) = Some (resps, st', sub')"
  obtains resp st'' where "ResponseNonce req = []" "req_TypeUrl req \<noteq> OtherType []" "resps = [resp]"
      "sub' = insert (req_TypeUrl req) sub" "push P ord m (req_TypeUrl req) st'' = Some (resp, st')"
    | "ResponseNonce req \<noteq> [] \<or> req_TypeUrl req = OtherType []" "resps = []" "sub' = sub"
proof -
  obtain kind st'' where k: "classify (req_TypeUrl req) (ResponseNonce req) (ErrorDetail req \<noteq> None) st = (kind, st'')"
    by fastforce
  then have kind: "kind = ackInitial \<longleftrightarrow> ResponseNonce req = []"
    using classify_kind [of "req_TypeUrl req" "ResponseNonce req" "ErrorDetail req \<noteq> None" st] by simp
  show thesis
  proof (cases "ResponseNonce req = [] \<and> req_TypeUrl req \<noteq> OtherType []")
    case True
    then show thesis using assms k kind by (auto simp: onRequest_def Let_def intro: that(1))
  next
    case False
    then show thesis using assms k kind by (auto simp: onRequest_def Let_def split: if_splits intro!: that(2))
  qed
qed

context agent_loop
begin

text \<open>A push that carries some state of the store is acknowledged, and the client then has that state.\<close>

lemma handle_carried:
  assumes ok: "client_ok (c, w)" and carried: "carries P (resp_TypeUrl resp) resp m"
  obtains plan c' w' where "handle E P resp (c, w) = (ack resp, Some plan, c', w')" "client_ok (c', w')"
    "client_has (resp_TypeUrl resp) c' m" "\<And>u m'. u \<noteq> resp_TypeUrl resp \<Longrightarrow> client_has u c' m' = client_has u c m'"
proof -
  let ?t = "resp_TypeUrl resp"
  have d: "distinct (map Key (policies (applied c)))" "distinct (map ID (identities (applied c)))"
    using ok by (simp_all add: client_ok_def)
  obtain s where s: "candidateFor P resp c = Inr s" "distinct (map Key (policies s))" "distinct (map ID (identities s))"
    "\<forall>i\<in>set (identities s) - set (identities (applied c)). has_address i"
    "client_has ?t (commit ?t (resp_VersionInfo resp) s c) m"
    "\<And>u m'. u \<noteq> ?t \<Longrightarrow> client_has u (commit ?t (resp_VersionInfo resp) s c) m' = client_has u c m'"
  proof (cases ?t)
    case ClusterType
    then obtain ps where "decode_from (DecodePolicyRule P) 0 (Resources resp) = Inr ps" "distinct (map Key ps)"
      "table Key (\<lambda>r. r) ps = map_of (mem_policies m)"
      using carried by (auto simp: carries_def)
    then show thesis using ClusterType d
      by (intro that [of "(applied c)\<lparr>policies := ps\<rparr>"])
        (auto simp: candidateFor_def client_has_def commit_def split: type_url.splits)
  next
    case EndpointType
    then obtain ids where "decode_from (DecodeIdentity P) 0 (Resources resp) = Inr ids" "distinct (map ID ids)"
      "\<forall>i\<in>set ids. has_address i" "table ID (\<lambda>i. i) ids = map_of (mem_identities m)"
      using carried by (auto simp: carries_def)
    then show thesis using EndpointType d
      by (intro that [of "(applied c)\<lparr>identities := ids\<rparr>"])
        (auto simp: candidateFor_def client_has_def commit_def split: type_url.splits)
  qed (use carried d in \<open>auto simp: candidateFor_def carries_def client_has_def commit_def split: type_url.splits
      intro!: that [of "applied c"]\<close>)
  show thesis
    by (rule handle_candidate [OF live_ebpf_axioms ok s(1-4)]) (use that s(5,6) in blast)
qed

lemma inv_requested:
  assumes inv: "loop_inv P hist s" and up: "uplink s = req # reqs"
    and ord: "permutes_lists (fst ord)" "permutes_lists (snd ord)"
    and req: "onRequest P ord (l_store s) req (l_state s, l_subscribed s) = Some (resps, st, sub)"
  shows "loop_inv P hist (s\<lparr>uplink := reqs, l_state := st, l_subscribed := sub, downlink := downlink s @ resps\<rparr>)"
    (is "loop_inv P hist ?s")
  using req
proof (cases rule: onRequest_cases)
  case (1 resp st'')
  let ?u = "req_TypeUrl req"
  note resp = push_carries [OF loop_invD(1) [OF inv] ord 1(5)]
  have view: "will_push t ?s \<or> synced P t ?s" if "t \<in> set subscribeTypes" "t \<in> insert ?u (l_subscribed s)" for t
  proof (cases "will_push t s")
    case True
    then show ?thesis by (simp add: will_push_def)
  next
    case False
    then have "t = ?u \<or> synced P t s" using loop_invD(5) [OF inv that(1)] that(2) by blast
    then show ?thesis using synced_send [where s = s and s' = ?s, OF resp(1,3)] 1(3) by simp
  qed
  obtain m where "m \<in> set hist" "carries P ?u resp m"
    using loop_invD(8) [OF inv] resp(3) agreement_cong(1) by metis
  moreover have "\<exists>r\<in>set reqs. req_TypeUrl r = t \<and> ResponseNonce r = []"
    if "t \<in> set subscribeTypes" "t \<notin> insert ?u (l_subscribed s)" for t
    using loop_invD(6) [OF inv that(1)] that(2) up by auto
  ultimately show ?thesis using inv view resp(1,2) 1(3,4) unfolding loop_inv_def by auto
next
  case 2
  have other: "req_TypeUrl req \<noteq> t \<or> ResponseNonce req \<noteq> []" if "t \<in> set subscribeTypes" for t
    using 2(1) that by (auto simp: subscribeTypes_def)
  have "\<exists>r\<in>set reqs. req_TypeUrl r = t \<and> ResponseNonce r = []"
    if "t \<in> set subscribeTypes" "t \<notin> l_subscribed s" for t
    using loop_invD(6) [OF inv that] other [OF that(1)] up by auto
  moreover have "will_push t ?s = will_push t s" "synced P t ?s = synced P t s" for t
    using 2(2) by (simp_all add: will_push_def synced_def of_type_def)
  ultimately show ?thesis using inv 2(2,3) unfolding loop_inv_def by simp
qed

lemma inv_start: "loop_inv P [NewMemory] (loop_start x m)"
proof -
  have "store_ok (Watch 0 NewMemory)"
    using wf_Watch [OF wf_NewMemory] by (simp add: store_ok_def) (simp add: NewMemory_def)
  then show ?thesis
    by (auto simp: loop_inv_def loop_start_def client_ok_start subscribeTypes_def subscription_def)
      (auto simp: client_has_def NewClient_def NewMemory_def)
qed

lemma inv_change:
  assumes inv: "loop_inv P hist s" and "change s s'"
  shows "loop_inv P (l_store s' # hist) s'"
  using assms(2)
proof cases
  case (mutated c)
  have "will_push t s'" for t using mutated by (simp add: will_push_def)
  moreover have "store_ok (l_store s')" using mutated store_ok_mutate loop_invD(1) [OF inv] by simp
  ultimately show ?thesis using inv mutated unfolding loop_inv_def by auto
next
  case (reconnected ch)
  then show ?thesis
    using inv store_ok_frame(2) [OF loop_invD(1) [OF inv], of ch "l_chan s"] unfolding loop_inv_def
    by (auto simp: subscription_def)
qed

lemma inv_handled:
  assumes inv: "loop_inv P hist s" and d: "downlink s = resp # resps"
    and h: "handle E P resp (l_client s, l_writer s) = (req, plan, c, w)"
  shows "loop_inv P hist (s\<lparr>downlink := resps, uplink := uplink s @ [req], l_client := c, l_writer := w\<rparr>)"
    (is "loop_inv P hist ?s")
proof -
  let ?t = "resp_TypeUrl resp"
  obtain m where m: "m \<in> set hist" "carries P ?t resp m" using inv d by (auto simp: loop_inv_def)
  have ok: "client_ok (l_client s, l_writer s)" using inv by (simp add: loop_inv_def)
  obtain plan' c' w' where "handle E P resp (l_client s, l_writer s) = (ack resp, Some plan', c', w')"
    and c': "client_ok (c', w')" "client_has ?t c' m"
      "\<And>u m'. u \<noteq> ?t \<Longrightarrow> client_has u c' m' = client_has u (l_client s) m'"
    using handle_carried [OF ok m(2)] by metis
  then have c: "client_ok (c, w)" "client_has ?t c m"
      "\<And>u m'. u \<noteq> ?t \<Longrightarrow> client_has u c m' = client_has u (l_client s) m'"
    using h by simp_all
  have had: "\<exists>m\<in>set hist. client_has t c m" if "t \<in> set subscribeTypes" for t
    using inv that m(1) c(2,3) by (cases "t = ?t") (auto simp: loop_inv_def)
  have sync: "synced P t ?s" if "synced P t s" for t
  proof (cases "t = ?t")
    case True
    show ?thesis
    proof (cases "filter (\<lambda>r. resp_TypeUrl r = t) resps = []")
      case only: True
      then have cur: "carries P ?t resp (l_store s)" using that True d by (simp add: synced_def of_type_def)
      from handle_carried [OF ok cur] h have "client_has ?t c (l_store s)" by (metis prod.inject)
      then show ?thesis using only True by (simp add: synced_def of_type_def)
    next
      case False
      then show ?thesis using that True d by (simp add: synced_def of_type_def)
    qed
  next
    case False
    then show ?thesis using that d c(3) by (auto simp: synced_def of_type_def)
  qed
  have types: "(t \<in> l_subscribed s \<longrightarrow> will_push t s \<or> synced P t s) \<and>
      (t \<notin> l_subscribed s \<longrightarrow> (\<exists>req\<in>set (uplink s). req_TypeUrl req = t \<and> ResponseNonce req = []))"
    if "t \<in> set subscribeTypes" for t using inv that by (simp add: loop_inv_def)
  have "will_push t ?s = will_push t s" for t by (simp add: will_push_def)
  then show ?thesis
    using inv c(1) had sync types d unfolding loop_inv_def by auto
qed

lemma inv_deliver:
  assumes inv: "loop_inv P hist s" and "deliver E P s s'"
  shows "loop_inv P hist s'"
  using assms(2)
proof cases
  case (pushed t ts ord resp st)
  then show ?thesis using inv_pushed [OF inv] push_carries [OF loop_invD(1) [OF inv]] by metis
qed (use inv_notified [OF inv] inv_woken [OF inv] inv_requested [OF inv] inv_handled [OF inv] in blast)+

theorem reachable_inv: "reachable E P hist s \<Longrightarrow> loop_inv P hist s"
proof (induction rule: reachable.induct)
  case (start x m)
  show ?case by (rule inv_start)
next
  case (changed hist s s')
  then show ?case using inv_change by blast
next
  case (delivered hist s s')
  then show ?case using inv_deliver by blast
qed

end

end
