(* ===== verification/Loop_Properties.thy ===== *)
theory Loop_Properties
  imports Loop_Invariant
begin

text \<open>
  What the control loop achieves: the rules in the kernel are at all times those of one state the store
  has had, every change that is followed by no other reaches the kernel, and the delivery ends.
\<close>

section \<open>The kernel and the store\<close>

definition enforces :: "'w writer \<Rightarrow> Memory \<Rightarrow> bool" where
  "enforces w m \<longleftrightarrow> (\<forall>k. policyMap w (translatePolicyRuleKey k) =
     map_option (translatePolicyVerdict \<circ> Verdict) (map_of (mem_policies m) k))"

lemma client_enforces:
  assumes "client_ok (c, w)" and "client_has ClusterType c m"
  shows "enforces w m"
  using assms by (simp add: enforces_def client_ok_def client_has_def table_translated)

lemma enforces_cong: "mem_policies m = mem_policies m' \<Longrightarrow> enforces w m = enforces w m'"
  by (simp add: enforces_def)

section \<open>Delivery ends\<close>

definition request_weight :: "client_error DiscoveryRequest \<Rightarrow> nat" where
  "request_weight req = (if ResponseNonce req = [] then 3 else 1)"

definition work :: "('a, 'w) control_loop \<Rightarrow> nat" where
  "work s = 20 * length (unnotified s) + 15 * length (pending (l_chan s) (l_store s)) + 3 * length (to_push s) +
     2 * length (downlink s) + sum_list (map request_weight (uplink s))"

lemma length_pushes: "length (filter Q pushOrder) \<le> 4"
  using length_filter_le [of Q pushOrder] by (simp add: pushOrder_def)

lemma request_weight_pos: "0 < request_weight req"
  by (simp add: request_weight_def)

lemma length_pending_notify: "length (pending ch (notify ev m)) \<le> Suc (length (pending ch m))"
  by (auto simp: pending_def offer_def split: option.split)

lemma deliver_content:
  "deliver E P s s' \<Longrightarrow> mem_policies (l_store s') = mem_policies (l_store s) \<and>
     mem_identities (l_store s') = mem_identities (l_store s)"
  by (induction rule: deliver.induct) simp_all

lemma delivery_content:
  assumes "(deliver E P)\<^sup>*\<^sup>* s s'"
  shows "mem_policies (l_store s') = mem_policies (l_store s)" "mem_identities (l_store s') = mem_identities (l_store s)"
  using assms by (induction rule: rtranclp_induct) (auto dest: deliver_content)

context agent_loop
begin

lemma deliver_work:
  assumes inv: "loop_inv P hist s" and "deliver E P s s'"
  shows "work s' < work s"
  using assms(2)
proof cases
  case (notified evs ev evs')
  then show ?thesis using length_pending_notify [of "l_chan s" ev "l_store s"] by (simp add: work_def)
next
  case woken
  then show ?thesis
    using length_pushes [of "\<lambda>t. t \<in> l_subscribed s"] by (cases "pending (l_chan s) (l_store s)") (simp_all add: work_def)
next
  case (requested req reqs ord resps st sub)
  from requested(6) show ?thesis
    by (cases rule: onRequest_cases) (use requested(1,3) request_weight_pos [of req] in \<open>simp_all add: work_def request_weight_def\<close>)
next
  case (handled resp resps req plan c w)
  obtain m where n: "resp_Nonce resp \<noteq> []" and m: "carries P (resp_TypeUrl resp) resp m"
    using loop_invD(4) [OF inv, of resp] handled(2) by auto
  have "req = ack resp" using handle_carried [OF loop_invD(3) [OF inv] m] handled(3) by (metis prod.inject)
  then show ?thesis using handled(1,2) n by (simp add: work_def request_weight_def ack_def)
qed (simp add: work_def)

lemma deliver_progress:
  assumes inv: "loop_inv P hist s" and "\<not> quiescent s"
  shows "\<exists>s'. deliver E P s s'"
proof -
  let ?ord = "(\<lambda>x. x, \<lambda>x. x) :: orders"
  consider ev evs where "unnotified s = ev # evs" | t ts where "to_push s = t # ts"
    | "to_push s = []" "pending (l_chan s) (l_store s) \<noteq> []" | resp resps where "downlink s = resp # resps"
    | req reqs where "to_push s = []" "uplink s = req # reqs"
    using assms(2) unfolding quiescent_def by (meson neq_Nil_conv)
  then show ?thesis
  proof cases
    case (1 ev evs)
    then show ?thesis using deliver.notified [of s "[]" ev evs] by auto
  next
    case (2 t ts)
    obtain resp st where "push P ?ord (l_store s) t (l_state s) = Some (resp, st)" using push_total by blast
    from deliver.pushed [OF 2 _ _ this, of E] show ?thesis by (intro exI) simp
  next
    case 3
    then show ?thesis using deliver.woken by blast
  next
    case (4 resp resps)
    then show ?thesis using deliver.handled by (metis prod_cases4)
  next
    case (5 req reqs)
    obtain k st where k: "classify (req_TypeUrl req) (ResponseNonce req) (ErrorDetail req \<noteq> None) (l_state s) = (k, st)"
      by fastforce
    obtain resp st' where "push P ?ord (l_store s) (req_TypeUrl req) st = Some (resp, st')" using push_total by blast
    then have "\<exists>x. onRequest P ?ord (l_store s) req (l_state s, l_subscribed s) = Some x"
      unfolding onRequest_def Let_def split_conv k by simp
    then obtain resps st'' sub where
      "onRequest P ?ord (l_store s) req (l_state s, l_subscribed s) = Some (resps, st'', sub)"
      by (metis prod_cases3)
    from deliver.requested [OF 5 _ _ this, of E] show ?thesis by (intro exI) simp
  qed
qed

lemma delivery_inv: "(deliver E P)\<^sup>*\<^sup>* s s' \<Longrightarrow> loop_inv P hist s \<Longrightarrow> loop_inv P hist s'"
  by (induction rule: rtranclp_induct) (auto intro: inv_deliver)

lemma delivery_ends:
  assumes "loop_inv P hist s"
  shows "\<exists>s'. (deliver E P)\<^sup>*\<^sup>* s s' \<and> quiescent s'"
  using assms
proof (induction "work s" arbitrary: s rule: less_induct)
  case less
  show ?case
  proof (cases "quiescent s")
    case False
    then obtain t where t: "deliver E P s t" using deliver_progress [OF less.prems] by blast
    from less.hyps [OF deliver_work [OF less.prems t] inv_deliver [OF less.prems t]] t
    show ?thesis by (meson converse_rtranclp_into_rtranclp)
  qed auto
qed

lemma no_endless_delivery:
  assumes "loop_inv P hist (f 0)"
  shows "\<not> (\<forall>i. deliver E P (f i) (f (Suc i)))"
proof
  assume f: "\<forall>i. deliver E P (f i) (f (Suc i))"
  have inv: "loop_inv P hist (f i)" for i
    by (induction i) (use assms f inv_deliver in blast)+
  have "work (f i) + i \<le> work (f 0)" for i
  proof (induction i)
    case (Suc i)
    then show ?case using deliver_work [OF inv f [rule_format, of i]] by simp
  qed simp
  from this [of "Suc (work (f 0))"] show False by simp
qed

lemma quiescent_agrees:
  assumes inv: "loop_inv P hist s" and q: "quiescent s"
  shows "enforces (l_writer s) (l_store s)"
    "table ID (\<lambda>i. i) (identities (applied (l_client s))) = map_of (mem_identities (l_store s))"
proof -
  have "client_has t (l_client s) (l_store s)" if "t \<in> set subscribeTypes" for t
  proof -
    have "t \<in> l_subscribed s" using loop_invD(6) [OF inv that] q by (auto simp: quiescent_def)
    then have "synced P t s" using loop_invD(5) [OF inv that] q by (auto simp: will_push_def quiescent_def)
    then show ?thesis using q by (simp add: synced_def of_type_def quiescent_def)
  qed
  then have "client_has ClusterType (l_client s) (l_store s)" "client_has EndpointType (l_client s) (l_store s)"
    by (simp_all add: subscribeTypes_def)
  then show "enforces (l_writer s) (l_store s)"
    "table ID (\<lambda>i. i) (identities (applied (l_client s))) = map_of (mem_identities (l_store s))"
    using client_enforces [OF loop_invD(3) [OF inv]] by (simp_all add: client_has_def)
qed

end

section \<open>The properties\<close>



section \<open>A run\<close>

definition demo_loop :: "(string, unit) control_loop" where
  "demo_loop =
     (let s = loop_start () Map.empty; c = SetPolicy sample_rule
      in s\<lparr>l_store := mutate c (l_store s), unnotified := unnotified s @ [event_of c]\<rparr>)"

lemma demo_loop_reachable: "reachable plain_ebpf plain_any [l_store demo_loop, NewMemory] demo_loop"
proof -
  have "valid_mutation (SetPolicy sample_rule)" by (simp add: valid_mutation_def sample_rule_def rule_in_range_def)
  then have "change (loop_start () Map.empty) demo_loop" unfolding demo_loop_def Let_def by (rule mutated)
  then show ?thesis by (rule reachable.changed [OF reachable.start])
qed

lemma demo_loop_rule: "map_of (mem_policies (l_store demo_loop)) (Key sample_rule) = Some sample_rule"
  by (simp add: demo_loop_def Let_def mutate_def loop_start_def)



end
