(* ===== verification/Spec_To_Packet.thy ===== *)
theory Spec_To_Packet
  imports Ingress_Properties Datapath_Properties Socket_Layer
begin

text \<open>
  From the declarative policy to the packet: the compiler, the writer and the ingress program together
  decide each plain IPv4 packet as the conformance oracle decides its flow.
\<close>

section \<open>The kernel's lookups\<close>

lemma ingress_key_translated:
  "ingress_key src dst port proto = translatePolicyRuleKey
     \<lparr>SrcIdentity = src, DstIdentity = dst, DstPort = port, Protocol = proto, Direction = DirectionIngress\<rparr>"
  by (simp add: ingress_key_def translatePolicyRuleKey_def)

lemma known_pod:
  assumes "installed s w" and "wf_snapshot s" and "i \<in> set (identities s)"
    and "PodIPv4 i = dotted (p ! k) (p ! (k + 1)) (p ! (k + 2)) (p ! (k + 3))"
  shows "known_id (identityMap w) (w32 p k) = ID i"
proof -
  have "w32 p k = key_of i" using identity_key_dotted(2) [OF assms(4)] by (simp add: w32_def)
  moreover have "table key_of ID (identities s) (key_of i) = Some (ID i)"
    using table_Some assms(2,3) unfolding wf_snapshot_def by metis
  ultimately show ?thesis using assms(1) by (simp add: known_id_def installed_def)
qed

text \<open>Deciding by the table of compiled rules.\<close>

lemma decide_compiled:
  assumes "permutes_lists order" and "Compile order spec ids = Inr rs" and "src \<noteq> 0" and "dst \<noteq> 0"
    and pol: "pol = table (translatePolicyRuleKey \<circ> Key) (translatePolicyVerdict \<circ> Verdict) rs"
    and k: "k = \<lparr>SrcIdentity = src, DstIdentity = dst, DstPort = port, Protocol = proto, Direction = DirectionIngress\<rparr>"
    and v: "\<lparr>Key = k, Verdict = v\<rparr> \<in> set rs \<or> k \<notin> Key ` set rs \<and> v = \<lparr>Action = PolicyActionDeny, Flags = 0\<rparr>"
  shows "action_of TC_ACT_SHOT (decide False pol src dst port proto) =
    (if Action v = PolicyActionDeny then TC_ACT_SHOT else TC_ACT_OK)"
  using v
proof (elim disjE conjE)
  assume r: "\<lparr>Key = k, Verdict = v\<rparr> \<in> set rs"
  have d: "distinct (map Key rs)" using Compile_rules(1) [OF assms(1,2)] strict_sorted_iff by blast
  have "table Key (\<lambda>r. r) rs k = Some \<lparr>Key = k, Verdict = v\<rparr>"
    using table_Some [OF d r, of "\<lambda>r. r"] by simp
  then have look: "pol (ingress_key src dst port proto) = Some (translatePolicyVerdict v)"
    unfolding pol ingress_key_translated k [symmetric] table_translated by simp
  have "is_ok (validateVerdict v)"
    using compiled_rule_valid [OF assms(1,2) r] by (simp add: validateRule_ok)
  then have "Action v = 0 \<or> Action v = 1 \<or> Action v = 2" unfolding validateVerdict_ok by auto
  then show ?thesis
    using assms(3,4) look by (auto simp: decide_def action_of_def translatePolicyVerdict_def)
next
  assume "k \<notin> Key ` set rs" and deny: "v = \<lparr>Action = PolicyActionDeny, Flags = 0\<rparr>"
  then have "table Key (\<lambda>r. r) rs k = None" using table_None_iff by metis
  then have "pol (ingress_key src dst port proto) = None"
    unfolding pol ingress_key_translated k [symmetric] table_translated by simp
  then show ?thesis using assms(3,4) deny by (simp add: decide_def action_of_def)
qed

section \<open>From specification to packet\<close>


definition demo_kernel :: "byte list \<Rightarrow> u64 dp" where
  "demo_kernel frame = (demo_dp frame 0 Map.empty)
     \<lparr>identity_map := identityMap (snd (Apply plain_ebpf (diff demo_old demo_new) (demo_writer () demo_old))),
      policy_map := policyMap (snd (Apply plain_ebpf (diff demo_old demo_new) (demo_writer () demo_old)))\<rparr>"

lemma demo_dotted: "dotted 10 0 0 1 = ''10.0.0.1''" "dotted 10 0 0 2 = ''10.0.0.2''"
  by code_simp+

lemma demo_kernel_start:
  "\<not> Tc_Ingress.failopen_unknown_enabled (demo_kernel (tcp_frame 2))"
  "fst (ingress_start model_kernel (demo_kernel (tcp_frame 2))) = 0"
proof -
  let ?s = "\<lambda>a b. (demo_dp (tcp_frame 2) 0 Map.empty)\<lparr>identity_map := a, policy_map := b\<rparr>"
  have "\<not> Tc_Ingress.failopen_unknown_enabled (?s a b)" "fst (ingress_start model_kernel (?s a b)) = 0" for a b
    by code_simp+
  then show "\<not> Tc_Ingress.failopen_unknown_enabled (demo_kernel (tcp_frame 2))"
    "fst (ingress_start model_kernel (demo_kernel (tcp_frame 2))) = 0"
    unfolding demo_kernel_def by blast+
qed


section \<open>The socket fast path\<close>

lemma compiled_flags_even:
  assumes "permutes_lists order" and "Compile order spec ids = Inr rs"
    and "table (translatePolicyRuleKey \<circ> Key) (translatePolicyVerdict \<circ> Verdict) rs q = Some v"
  shows "\<not> bit (pv_flags v) 0"
proof -
  obtain r where r: "r \<in> set rs" "translatePolicyVerdict (Verdict r) = v"
    using table_SomeD [OF assms(3)] by (metis comp_apply)
  have "is_ok (validateRule \<lparr>Key = Key r, Verdict = Verdict r\<rparr>)"
    using compiled_rule_valid [OF assms(1,2) r(1)] by simp
  then have "Flags (Verdict r) \<in> {0, 2, 4, 16, 20}" unfolding validateRule_ok validateVerdict_ok by blast
  moreover have "\<not> bit (x :: u8) 0" if "x \<in> {0, 2, 4, 16, 20}" for x using that by (auto simp: bit_0)
  moreover have "pv_flags v = Flags (Verdict r)" unfolding r(2) [symmetric] by (simp add: translatePolicyVerdict_def)
  ultimately show ?thesis by simp
qed

text \<open>
  C32. The compiler shifts by flags that are masks already. It refuses a verdict whose flag is
  \<open>PolicyFlagSockmapEligible\<close> or \<open>PolicyFlagAudit\<close>, accepts the reserved bit 4, and no rule it produces
  ever has the bit that the kernel tests: under compiled policy the \<open>sock_ops\<close> program never stores a
  socket, whatever the specification says.
\<close>

theorem compiled_policy_disables_sockmap:
  assumes "permutes_lists order" and "Compile order spec ids = Inr rs"
    and "policy_map s = table (translatePolicyRuleKey \<circ> Key) (translatePolicyVerdict \<circ> Verdict) rs"
  shows "meridian_sock_ops K ctx s = (0, s) \<and>
    validateVerdict \<lparr>Action = PolicyActionAllow, Flags = PolicyFlagSockmapEligible\<rparr> = Inl (Unknown_Flag_Bits 1) \<and>
    validateVerdict \<lparr>Action = PolicyActionAllow, Flags = PolicyFlagAudit\<rparr> = Inl (Unknown_Flag_Bits 8) \<and>
    is_ok (validateVerdict \<lparr>Action = PolicyActionAllow, Flags = 16\<rparr>)"
proof -
  have "\<not> sockmap_flow (identity_map s) (policy_map s) ctx"
    using compiled_flags_even [OF assms(1,2), of "callback_rule (identity_map s) ctx"]
    unfolding sockmap_flow_def assms(3)
    by (cases "table (translatePolicyRuleKey \<circ> Key) (translatePolicyVerdict \<circ> Verdict) rs
        (callback_rule (identity_map s) ctx)") simp_all
  then have "meridian_sock_ops K ctx s = (0, s)" by (simp add: sock_ops_eq)
  moreover have "validateVerdict \<lparr>Action = PolicyActionAllow, Flags = PolicyFlagSockmapEligible\<rparr> = Inl (Unknown_Flag_Bits 1)"
    "validateVerdict \<lparr>Action = PolicyActionAllow, Flags = PolicyFlagAudit\<rparr> = Inl (Unknown_Flag_Bits 8)"
    by (simp_all add: validateVerdict_def flagMask_values)
  moreover have "is_ok (validateVerdict \<lparr>Action = PolicyActionAllow, Flags = 16\<rparr>)" unfolding validateVerdict_ok by simp
  ultimately show ?thesis by blast
qed

theorem compiled_policy_disables_sockmap_witness:
  "meridian_sock_ops model_kernel (demo_accept 0x0100000a 40000 2) (demo_kernel (tcp_frame 2)) = (0, demo_kernel (tcp_frame 2))"
proof -
  have "fst (Apply plain_ebpf (diff demo_old demo_new) (demo_writer () demo_old)) = None" by code_simp
  then obtain w' where w': "Apply plain_ebpf (diff demo_old demo_new) (demo_writer () demo_old) = (None, w')"
    by (metis prod.collapse)
  have "policy_map (demo_kernel (tcp_frame 2)) =
      table (translatePolicyRuleKey \<circ> Key) (translatePolicyVerdict \<circ> Verdict) demo_rules"
    using plain.diff_policy_map [OF demo_wf(1,2) demo_writer_installed w'] w' by (simp add: demo_kernel_def demo_new_def)
  then show ?thesis
    using compiled_policy_disables_sockmap [OF permutes_lists_id(2) demo_Compile] by blast
qed

end
