(* ===== verification/Policy_Crd.thy ===== *)
theory Policy_Crd
  imports Wire_Types
begin

text \<open>
  The \<^verbatim>\<open>MeridianPolicy\<close> custom resource: \<^verbatim>\<open>internal/control/k8s/crd.go\<close> (types, validation, admission
  verdict) and the expansion into compiled rules of \<^verbatim>\<open>policy_informer.go\<close>. Decoding an API object is
  Kubernetes library code; its result is an argument.
\<close>

section \<open>Types\<close>

definition GroupName :: string where [simp]: "GroupName = ''meridian.io''"
definition PolicyKind :: string where [simp]: "PolicyKind = ''MeridianPolicy''"
definition PolicyActionNameAllow :: string where [simp]: "PolicyActionNameAllow = ''allow''"
definition PolicyActionNameDeny :: string where [simp]: "PolicyActionNameDeny = ''deny''"
definition ProtocolNameTCP :: string where [simp]: "ProtocolNameTCP = ''tcp''"
definition ProtocolNameUDP :: string where [simp]: "ProtocolNameUDP = ''udp''"
definition MaxPolicySources :: nat where [simp]: "MaxPolicySources = 64"
definition MaxPolicyPorts :: nat where [simp]: "MaxPolicyPorts = 64"
definition ProtocolTCP :: u8 where [simp]: "ProtocolTCP = 6"
definition ProtocolUDP :: u8 where [simp]: "ProtocolUDP = 17"
definition maxCompiledRulesPerPolicy :: nat where [simp]: "maxCompiledRulesPerPolicy = 65536"

record WorkloadSelector =
  ws_Namespace :: string
  ws_Labels :: "(string, string) gomap"

record MeridianPolicySpec =
  mp_Selector :: WorkloadSelector
  mp_Sources :: "string list"
  mp_Ports :: "u16 list"
  mp_Protocols :: "string list"
  mp_Action :: string

record MeridianPolicy =
  mp_Namespace :: string
  mp_Name :: string
  mp_Spec :: MeridianPolicySpec

section \<open>Validation and admission\<close>

datatype spec_error =
    Bad_Action string
  | Namespace_Required
  | No_Sources
  | Too_Many_Sources nat
  | Bad_Source nat string
  | No_Ports
  | Too_Many_Ports nat
  | Zero_Port nat
  | Bad_Protocol nat string

definition HasPrefix :: "string \<Rightarrow> string \<Rightarrow> bool" where
  "HasPrefix s prefix \<longleftrightarrow> length s \<ge> length prefix \<and> take (length prefix) s = prefix"

text \<open>A loop \<open>for i, x := range xs\<close> that returns at the first element which is not accepted.\<close>

primrec first_bad :: "('a \<Rightarrow> bool) \<Rightarrow> (nat \<Rightarrow> 'a \<Rightarrow> 'e) \<Rightarrow> nat \<Rightarrow> 'a list \<Rightarrow> 'e + unit" where
  "first_bad good err i [] = Inr ()"
| "first_bad good err i (x # xs) = (if good x then first_bad good err (Suc i) xs else Inl (err i x))"

definition good_source :: "string \<Rightarrow> bool" where
  "good_source src \<longleftrightarrow> HasPrefix src ''spiffe://'' \<and> length ''spiffe://'' < length src"

definition good_protocol :: "string \<Rightarrow> bool" where
  "good_protocol proto \<longleftrightarrow> proto = ProtocolNameTCP \<or> proto = ProtocolNameUDP"

definition ValidatePolicySpec :: "MeridianPolicySpec \<Rightarrow> spec_error + unit" where
  "ValidatePolicySpec spec =
     (if \<not> (mp_Action spec = PolicyActionNameAllow \<or> mp_Action spec = PolicyActionNameDeny)
      then Inl (Bad_Action (mp_Action spec))
      else if ws_Namespace (mp_Selector spec) = [] then Inl Namespace_Required
      else if length (mp_Sources spec) = 0 then Inl No_Sources
      else if length (mp_Sources spec) > MaxPolicySources then Inl (Too_Many_Sources (length (mp_Sources spec)))
      else and_then (first_bad good_source Bad_Source 0 (mp_Sources spec)) (\<lambda>_.
        if length (mp_Ports spec) = 0 then Inl No_Ports
        else if length (mp_Ports spec) > MaxPolicyPorts then Inl (Too_Many_Ports (length (mp_Ports spec)))
        else and_then (first_bad (\<lambda>port. port \<noteq> 0) (\<lambda>i _. Zero_Port i) 0 (mp_Ports spec)) (\<lambda>_.
          first_bad good_protocol Bad_Protocol 0 (mp_Protocols spec))))"

datatype admission_operation = Create | Update | Delete | Connect

datatype admission_denial = Unexpected_Kind string string | Undecodable_Policy | Invalid_Spec spec_error

text \<open>\<open>review\<close>: the request's operation, API group, kind and decoded object, if it can be decoded.\<close>

definition review ::
  "admission_operation \<Rightarrow> string \<Rightarrow> string \<Rightarrow> MeridianPolicy option \<Rightarrow> admission_denial + unit" where
  "review operation grp kind obj =
     (if operation = Delete then Inr ()
      else if grp \<noteq> GroupName \<or> kind \<noteq> PolicyKind then Inl (Unexpected_Kind grp kind)
      else case obj of
        None \<Rightarrow> Inl Undecodable_Policy
      | Some pol \<Rightarrow>
          (case ValidatePolicySpec (mp_Spec pol) of
             Inl e \<Rightarrow> Inl (Invalid_Spec e)
           | Inr _ \<Rightarrow> Inr ()))"

section \<open>Expansion into rules\<close>

record 'e IdentityResolver =
  ResolveSelector :: "WorkloadSelector \<Rightarrow> 'e + u32 list"
  ResolveSpiffeID :: "string \<Rightarrow> u32 option"

datatype 'e crd_error =
    Spec_Invalid spec_error
  | Source_Unknown string
  | Selector_Unresolved 'e
  | Unknown_Protocol string
  | Unknown_Action string
  | Too_Many_Rules nat

fun resolveSources :: "'e IdentityResolver \<Rightarrow> string list \<Rightarrow> 'e crd_error + u32 list" where
  "resolveSources R [] = Inr []"
| "resolveSources R (src # srcs) =
     (case ResolveSpiffeID R src of
        None \<Rightarrow> Inl (Source_Unknown src)
      | Some i \<Rightarrow> and_then (resolveSources R srcs) (\<lambda>is. Inr (i # is)))"

fun protocol_list :: "string list \<Rightarrow> 'e crd_error + u8 list" where
  "protocol_list [] = Inr []"
| "protocol_list (name # names) =
     (if name = ProtocolNameTCP then and_then (protocol_list names) (\<lambda>ps. Inr (ProtocolTCP # ps))
      else if name = ProtocolNameUDP then and_then (protocol_list names) (\<lambda>ps. Inr (ProtocolUDP # ps))
      else Inl (Unknown_Protocol name))"

definition protocolNumbers :: "string list \<Rightarrow> 'e crd_error + u8 list" where
  "protocolNumbers names = (if length names = 0 then Inr [ProtocolTCP] else protocol_list names)"

definition verdictForAction :: "string \<Rightarrow> 'e crd_error + PolicyVerdict" where
  "verdictForAction action =
     (if action = PolicyActionNameAllow then Inr \<lparr>Action = PolicyActionAllow, Flags = 0\<rparr>
      else if action = PolicyActionNameDeny then Inr \<lparr>Action = PolicyActionDeny, Flags = 0\<rparr>
      else Inl (Unknown_Action action))"

definition crd_rule :: "PolicyVerdict \<Rightarrow> u32 \<Rightarrow> u32 \<Rightarrow> u16 \<Rightarrow> u8 \<Rightarrow> PolicyRule" where
  "crd_rule verdict src dst port proto =
     \<lparr>Key = \<lparr>SrcIdentity = src, DstIdentity = dst, DstPort = port, Protocol = proto, Direction = DirectionIngress\<rparr>,
      Verdict = verdict\<rparr>"

definition expand_rules :: "PolicyVerdict \<Rightarrow> u32 list \<Rightarrow> u32 list \<Rightarrow> u16 list \<Rightarrow> u8 list \<Rightarrow> PolicyRule list" where
  "expand_rules verdict srcs dsts ports protos =
     concat (map (\<lambda>src. concat (map (\<lambda>dst. concat (map (\<lambda>port.
       map (crd_rule verdict src dst port) protos) ports)) dsts)) srcs)"

definition CompilePolicyRules :: "'e IdentityResolver \<Rightarrow> MeridianPolicy \<Rightarrow> 'e crd_error + PolicyRule list" where
  "CompilePolicyRules R pol =
     (let spec = mp_Spec pol in
      case ValidatePolicySpec spec of
        Inl e \<Rightarrow> Inl (Spec_Invalid e)
      | Inr _ \<Rightarrow>
          and_then (resolveSources R (mp_Sources spec)) (\<lambda>srcIDs.
          case ResolveSelector R (mp_Selector spec) of
            Inl e \<Rightarrow> Inl (Selector_Unresolved e)
          | Inr dstIDs \<Rightarrow>
              and_then (protocolNumbers (mp_Protocols spec)) (\<lambda>protocols.
              and_then (verdictForAction (mp_Action spec)) (\<lambda>verdict.
              let product = length srcIDs * length dstIDs * length (mp_Ports spec) * length protocols
              in if product > maxCompiledRulesPerPolicy then Inl (Too_Many_Rules product)
                 else Inr (expand_rules verdict srcIDs dstIDs (mp_Ports spec) protocols)))))"

text \<open>\<open>StaticResolver\<close>: selectors match on the namespace only.\<close>

record StaticResolver =
  BySpiffeID :: "(string, u32) gomap"
  ByNamespace :: "(string, u32 list) gomap"

definition static_resolver :: "StaticResolver \<Rightarrow> string IdentityResolver" where
  "static_resolver s =
     \<lparr>ResolveSelector = (\<lambda>sel. case map_of (ByNamespace s) (ws_Namespace sel) of
        None \<Rightarrow> Inl (ws_Namespace sel)
      | Some ids \<Rightarrow> if length ids = 0 then Inl (ws_Namespace sel) else Inr ids),
      ResolveSpiffeID = (\<lambda>spiffe. map_of (BySpiffeID s) spiffe)\<rparr>"

section \<open>What the functions compute\<close>

lemma first_bad_ok [simp]: "first_bad good err i xs = Inr u \<longleftrightarrow> (\<forall>x\<in>set xs. good x)"
  by (induction xs arbitrary: i) auto

definition spec_valid :: "MeridianPolicySpec \<Rightarrow> bool" where
  "spec_valid spec \<longleftrightarrow> mp_Action spec \<in> {PolicyActionNameAllow, PolicyActionNameDeny} \<and>
     ws_Namespace (mp_Selector spec) \<noteq> [] \<and> length (mp_Sources spec) \<in> {1..MaxPolicySources} \<and>
     (\<forall>src\<in>set (mp_Sources spec). good_source src) \<and> length (mp_Ports spec) \<in> {1..MaxPolicyPorts} \<and>
     0 \<notin> set (mp_Ports spec) \<and> (\<forall>proto\<in>set (mp_Protocols spec). good_protocol proto)"

lemma ValidatePolicySpec_ok: "ValidatePolicySpec spec = Inr u \<longleftrightarrow> spec_valid spec"
  by (auto simp: ValidatePolicySpec_def spec_valid_def and_then_Inr_iff Suc_le_eq)

lemma resolveSources_cases:
  "case resolveSources R srcs of
     Inl e \<Rightarrow> \<exists>src\<in>set srcs. e = Source_Unknown src \<and> ResolveSpiffeID R src = None
   | Inr is \<Rightarrow> map (ResolveSpiffeID R) srcs = map Some is"
proof (induction srcs)
  case (Cons src srcs)
  then show ?case by (cases "resolveSources R srcs") (auto split: option.split)
qed simp

definition protocol_number :: "string \<Rightarrow> u8" where
  "protocol_number name = (if name = ProtocolNameTCP then ProtocolTCP else ProtocolUDP)"

lemma protocol_list_ok: "\<forall>name\<in>set names. good_protocol name \<Longrightarrow> protocol_list names = Inr (map protocol_number names)"
  by (induction names) (auto simp: good_protocol_def protocol_number_def)

definition effective_protocols :: "MeridianPolicySpec \<Rightarrow> u8 list" where
  "effective_protocols spec =
     (if mp_Protocols spec = [] then [ProtocolTCP] else map protocol_number (mp_Protocols spec))"

definition effective_verdict :: "MeridianPolicySpec \<Rightarrow> PolicyVerdict" where
  "effective_verdict spec =
     \<lparr>Action = (if mp_Action spec = PolicyActionNameAllow then PolicyActionAllow else PolicyActionDeny), Flags = 0\<rparr>"

lemma expand_rules_set:
  "set (expand_rules v srcs dsts ports protos) =
     {crd_rule v s d p t |s d p t. s \<in> set srcs \<and> d \<in> set dsts \<and> p \<in> set ports \<and> t \<in> set protos}"
  by (auto simp: expand_rules_def)

lemma expand_rules_length:
  "length (expand_rules v srcs dsts ports protos) = length srcs * length dsts * length ports * length protos"
  by (simp add: expand_rules_def length_concat comp_def sum_list_triv)

lemma CompilePolicyRules_valid:
  fixes R :: "'e IdentityResolver"
  assumes "spec_valid (mp_Spec pol)"
  shows "CompilePolicyRules R pol =
    and_then (resolveSources R (mp_Sources (mp_Spec pol))) (\<lambda>srcIDs.
    case ResolveSelector R (mp_Selector (mp_Spec pol)) of
      Inl e \<Rightarrow> Inl (Selector_Unresolved e)
    | Inr dstIDs \<Rightarrow>
        let rs = expand_rules (effective_verdict (mp_Spec pol)) srcIDs dstIDs (mp_Ports (mp_Spec pol))
          (effective_protocols (mp_Spec pol))
        in if length rs > maxCompiledRulesPerPolicy then Inl (Too_Many_Rules (length rs)) else Inr rs)"
proof -
  have "ValidatePolicySpec (mp_Spec pol) = Inr ()" using assms ValidatePolicySpec_ok by blast
  moreover have "(protocolNumbers (mp_Protocols (mp_Spec pol)) :: 'e crd_error + u8 list) = Inr (effective_protocols (mp_Spec pol))"
    "(verdictForAction (mp_Action (mp_Spec pol)) :: 'e crd_error + PolicyVerdict) = Inr (effective_verdict (mp_Spec pol))"
    using assms protocol_list_ok
    by (auto simp: spec_valid_def protocolNumbers_def effective_protocols_def verdictForAction_def effective_verdict_def)
  ultimately show ?thesis
    by (cases "ResolveSelector R (mp_Selector (mp_Spec pol))")
      (simp_all add: CompilePolicyRules_def Let_def expand_rules_length cong: if_cong)
qed

lemma CompilePolicyRules_invalid:
  "CompilePolicyRules R pol = Inl (Spec_Invalid e) \<longleftrightarrow> ValidatePolicySpec (mp_Spec pol) = Inl e"
proof (cases "ValidatePolicySpec (mp_Spec pol)")
  case (Inl e')
  then show ?thesis by (simp add: CompilePolicyRules_def)
next
  case (Inr u)
  then have "spec_valid (mp_Spec pol)" using ValidatePolicySpec_ok by blast
  from CompilePolicyRules_valid [OF this, of R] show ?thesis
    using Inr resolveSources_cases [of "mp_Sources (mp_Spec pol)" R]
    by (auto simp: Let_def and_then_def split: sum.splits)
qed

text \<open>The rules a specification stands for under a resolver.\<close>

definition crd_product :: "'e IdentityResolver \<Rightarrow> MeridianPolicySpec \<Rightarrow> PolicyRule set" where
  "crd_product R spec =
     {crd_rule (effective_verdict spec) s d p t |s d p t dsts.
       Some s \<in> ResolveSpiffeID R ` set (mp_Sources spec) \<and> ResolveSelector R (mp_Selector spec) = Inr dsts \<and>
       d \<in> set dsts \<and> p \<in> set (mp_Ports spec) \<and> t \<in> set (effective_protocols spec)}"

lemma valid_policy_cases:
  fixes R :: "'e IdentityResolver"
  assumes "spec_valid (mp_Spec pol)"
  shows "(\<exists>src\<in>set (mp_Sources (mp_Spec pol)).
      ResolveSpiffeID R src = None \<and> CompilePolicyRules R pol = Inl (Source_Unknown src)) \<or>
    (\<exists>x. ResolveSelector R (mp_Selector (mp_Spec pol)) = Inl x \<and> CompilePolicyRules R pol = Inl (Selector_Unresolved x)) \<or>
    (\<exists>n>maxCompiledRulesPerPolicy. CompilePolicyRules R pol = Inl (Too_Many_Rules n)) \<or>
    (\<exists>rs. CompilePolicyRules R pol = Inr rs \<and> length rs \<le> maxCompiledRulesPerPolicy \<and>
      (\<forall>src\<in>set (mp_Sources (mp_Spec pol)). ResolveSpiffeID R src \<noteq> None) \<and>
      set rs = crd_product R (mp_Spec pol))"
proof -
  let ?spec = "mp_Spec pol"
  note C = CompilePolicyRules_valid [OF assms, of R]
  note S = resolveSources_cases [of "mp_Sources ?spec" R]
  consider (src) src where "src \<in> set (mp_Sources ?spec)" "ResolveSpiffeID R src = None"
      "resolveSources R (mp_Sources ?spec) = Inl (Source_Unknown src)"
    | (sel) srcs x where "resolveSources R (mp_Sources ?spec) = Inr srcs" "ResolveSelector R (mp_Selector ?spec) = Inl x"
    | (ids) srcs dsts where "resolveSources R (mp_Sources ?spec) = Inr srcs"
      "ResolveSelector R (mp_Selector ?spec) = Inr dsts" "map (ResolveSpiffeID R) (mp_Sources ?spec) = map Some srcs"
    using S by (cases "resolveSources R (mp_Sources ?spec)"; cases "ResolveSelector R (mp_Selector ?spec)") auto
  then show ?thesis
  proof cases
    case ids
    let ?rs = "expand_rules (effective_verdict ?spec) srcs dsts (mp_Ports ?spec) (effective_protocols ?spec)"
    have srcs: "ResolveSpiffeID R ` set (mp_Sources ?spec) = Some ` set srcs"
      using ids(3) by (metis list.set_map)
    then have "set ?rs = crd_product R ?spec"
      unfolding expand_rules_set crd_product_def ids(2) by (simp add: inj_image_mem_iff)
    moreover have "\<forall>src\<in>set (mp_Sources ?spec). ResolveSpiffeID R src \<noteq> None" using srcs by force
    moreover have "CompilePolicyRules R pol =
        (if length ?rs > maxCompiledRulesPerPolicy then Inl (Too_Many_Rules (length ?rs)) else Inr ?rs)"
      unfolding C ids(1,2) by (simp add: Let_def)
    ultimately show ?thesis by (metis not_less)
  next
    case src
    then show ?thesis using C by auto
  next
    case sel
    then show ?thesis using C by auto
  qed
qed

section \<open>Properties\<close>

text \<open>
  C36. What the admission webhook promises the informer: it refuses exactly the specifications the
  expansion refuses as invalid, with the same error. An admitted policy is expanded into exactly the
  product of its sources, selected workloads, ports and protocols with the verdict of its action, at
  most 65536 rules, or into nothing: when a source or the selector has no identity, or when the
  product is larger.
\<close>

theorem admitted_policy_expands:
  fixes R :: "'e IdentityResolver"
  assumes "operation \<noteq> Delete"
  shows "(review operation GroupName PolicyKind (Some pol) = Inl (Invalid_Spec e) \<longleftrightarrow>
      CompilePolicyRules R pol = Inl (Spec_Invalid e)) \<and>
    (review operation GroupName PolicyKind (Some pol) = Inr () \<longrightarrow>
      (case CompilePolicyRules R pol of
         Inl (Source_Unknown src) \<Rightarrow> src \<in> set (mp_Sources (mp_Spec pol)) \<and> ResolveSpiffeID R src = None
       | Inl (Selector_Unresolved x) \<Rightarrow> ResolveSelector R (mp_Selector (mp_Spec pol)) = Inl x
       | Inl (Too_Many_Rules n) \<Rightarrow> n > maxCompiledRulesPerPolicy
       | Inl _ \<Rightarrow> False
       | Inr rs \<Rightarrow> length rs \<le> maxCompiledRulesPerPolicy \<and> set rs = crd_product R (mp_Spec pol) \<and>
           (\<forall>src\<in>set (mp_Sources (mp_Spec pol)). ResolveSpiffeID R src \<noteq> None)))"
proof (intro conjI impI)
  show "review operation GroupName PolicyKind (Some pol) = Inl (Invalid_Spec e) \<longleftrightarrow>
      CompilePolicyRules R pol = Inl (Spec_Invalid e)"
    unfolding CompilePolicyRules_invalid using assms by (auto simp: review_def split: sum.split)
next
  assume "review operation GroupName PolicyKind (Some pol) = Inr ()"
  then have "spec_valid (mp_Spec pol)"
    using assms ValidatePolicySpec_ok by (auto simp: review_def split: sum.splits)
  from valid_policy_cases [OF this, of R] show "case CompilePolicyRules R pol of
         Inl (Source_Unknown src) \<Rightarrow> src \<in> set (mp_Sources (mp_Spec pol)) \<and> ResolveSpiffeID R src = None
       | Inl (Selector_Unresolved x) \<Rightarrow> ResolveSelector R (mp_Selector (mp_Spec pol)) = Inl x
       | Inl (Too_Many_Rules n) \<Rightarrow> n > maxCompiledRulesPerPolicy
       | Inl _ \<Rightarrow> False
       | Inr rs \<Rightarrow> length rs \<le> maxCompiledRulesPerPolicy \<and> set rs = crd_product R (mp_Spec pol) \<and>
           (\<forall>src\<in>set (mp_Sources (mp_Spec pol)). ResolveSpiffeID R src \<noteq> None)"
    by (elim disjE exE bexE conjE) simp_all
qed

text \<open>A policy that lets a workload of the namespace \<^verbatim>\<open>shop\<close> be reached on one port.\<close>

definition demo_resolver :: "string IdentityResolver" where
  "demo_resolver = static_resolver \<lparr>BySpiffeID = [(''spiffe://web'', 7)], ByNamespace = [(''shop'', [9])]\<rparr>"

definition demo_crd :: "string \<Rightarrow> MeridianPolicy" where
  "demo_crd name = \<lparr>mp_Namespace = ''shop'', mp_Name = name,
     mp_Spec = \<lparr>mp_Selector = \<lparr>ws_Namespace = ''shop'', ws_Labels = []\<rparr>, mp_Sources = [''spiffe://web''],
       mp_Ports = [8080], mp_Protocols = [''udp''], mp_Action = ''allow''\<rparr>\<rparr>"

definition demo_crd_rule :: PolicyRule where
  "demo_crd_rule = crd_rule \<lparr>Action = PolicyActionAllow, Flags = 0\<rparr> 7 9 8080 17"

lemma demo_crd_compiles: "CompilePolicyRules demo_resolver (demo_crd name) = Inr [demo_crd_rule]"
  by (simp add: CompilePolicyRules_def ValidatePolicySpec_def demo_crd_def demo_resolver_def static_resolver_def
      good_source_def HasPrefix_def good_protocol_def protocolNumbers_def verdictForAction_def expand_rules_def
      demo_crd_rule_def)

theorem admitted_policy_expands_witness:
  "review Create GroupName PolicyKind (Some (demo_crd ''p'')) = Inr () \<and>
   crd_product demo_resolver (mp_Spec (demo_crd ''p'')) = {demo_crd_rule}"
proof -
  have "review Create GroupName PolicyKind (Some (demo_crd ''p'')) = Inr ()"
    by (simp add: review_def ValidatePolicySpec_def demo_crd_def good_source_def HasPrefix_def good_protocol_def)
  then show ?thesis
    using admitted_policy_expands [of Create "demo_crd ''p''" _ demo_resolver]
    by (simp add: demo_crd_compiles)
qed

end
