(* ===== verification/Policy_Watcher.thy ===== *)
theory Policy_Watcher
  imports Policy_Crd Control_Store
begin

text \<open>
  The policy informer of \<^verbatim>\<open>internal/control/k8s/policy_informer.go\<close>: how events on \<^verbatim>\<open>MeridianPolicy\<close>
  objects change the policy store, and the record of applied keys it cleans up by. The store is an
  interface: a record of the two operations the informer calls, each of which may fail.
\<close>

section \<open>Events and stores\<close>

text \<open>What the informer machinery delivers: an object, a tombstone of one, or something else.\<close>

datatype 'a informer_obj = Object 'a | DeletedFinalStateUnknown "'a informer_obj" | Foreign

definition policyFromObject :: "MeridianPolicy option informer_obj \<Rightarrow> MeridianPolicy option" where
  "policyFromObject obj =
     (case (case obj of DeletedFinalStateUnknown inner \<Rightarrow> inner | _ \<Rightarrow> obj) of
        Object converted \<Rightarrow> converted
      | _ \<Rightarrow> None)"

record 's PolicyStore =
  store_put :: "PolicyRule \<Rightarrow> 's \<Rightarrow> bool \<times> 's"
  store_delete :: "PolicyRuleKey \<Rightarrow> 's \<Rightarrow> bool \<times> 's"

text \<open>The in-memory store as such an interface: its operations never fail.\<close>

definition memory_store :: "Memory PolicyStore" where
  "memory_store = \<lparr>store_put = (\<lambda>r m. (True, PutPolicy r m)), store_delete = (\<lambda>k m. (True, DeletePolicy k m))\<rparr>"

section \<open>The handlers\<close>

type_synonym applied_keys = "(string, PolicyRuleKey list) gomap"

definition swapApplied ::
  "string \<Rightarrow> PolicyRuleKey list option \<Rightarrow> applied_keys \<Rightarrow> PolicyRuleKey list option \<times> applied_keys" where
  "swapApplied name keys a =
     (map_of a name, case keys of None \<Rightarrow> AList.delete name a | Some ks \<Rightarrow> AList.update name ks a)"

primrec put_rules ::
  "'s PolicyStore \<Rightarrow> PolicyRule list \<Rightarrow> PolicyRuleKey list \<times> 's \<Rightarrow> PolicyRuleKey list \<times> 's" where
  "put_rules S [] = (\<lambda>s. s)"
| "put_rules S (rule # rules) = (\<lambda>(ks, st).
     case store_put S rule st of
       (True, st') \<Rightarrow> put_rules S rules (ks @ [Key rule], st')
     | (False, st') \<Rightarrow> put_rules S rules (ks, st'))"

primrec delete_keys :: "'s PolicyStore \<Rightarrow> PolicyRuleKey list \<Rightarrow> 's \<Rightarrow> 's" where
  "delete_keys S [] st = st"
| "delete_keys S (k # ks) st = delete_keys S ks (snd (store_delete S k st))"

definition policy_name :: "MeridianPolicy \<Rightarrow> string" where
  "policy_name pol = mp_Namespace pol @ ''/'' @ mp_Name pol"

definition onUpsert ::
  "'s PolicyStore \<Rightarrow> 'e IdentityResolver \<Rightarrow> MeridianPolicy option informer_obj \<Rightarrow>
   applied_keys \<times> 's \<Rightarrow> applied_keys \<times> 's" where
  "onUpsert S R obj = (\<lambda>(a, st).
     case policyFromObject obj of
       None \<Rightarrow> (a, st)
     | Some pol \<Rightarrow>
         (case CompilePolicyRules R pol of
            Inl _ \<Rightarrow> (a, st)
          | Inr rules \<Rightarrow>
              (let (appliedKeys, st1) = put_rules S rules ([], st);
                   (prev, a1) = swapApplied (policy_name pol) (Some appliedKeys) a;
                   stale = filter (\<lambda>key. key \<notin> set (map Key rules)) (case prev of None \<Rightarrow> [] | Some ks \<Rightarrow> ks)
               in (a1, delete_keys S stale st1))))"

definition onDelete ::
  "'s PolicyStore \<Rightarrow> 'e IdentityResolver \<Rightarrow> MeridianPolicy option informer_obj \<Rightarrow>
   applied_keys \<times> 's \<Rightarrow> applied_keys \<times> 's" where
  "onDelete S R obj = (\<lambda>(a, st).
     case policyFromObject obj of
       None \<Rightarrow> (a, st)
     | Some pol \<Rightarrow>
         (case swapApplied (policy_name pol) None a of
            (Some keys, a1) \<Rightarrow> (a1, delete_keys S keys st)
          | (None, a1) \<Rightarrow>
              (case CompilePolicyRules R pol of
                 Inl _ \<Rightarrow> (a1, st)
               | Inr rules \<Rightarrow> (a1, delete_keys S (map Key rules) st))))"

text \<open>A sequence of events; every event meets the resolver as it is at that time.\<close>

datatype 'e policy_event =
    PolicyUpserted "'e IdentityResolver" "MeridianPolicy option informer_obj"
  | PolicyDeleted "'e IdentityResolver" "MeridianPolicy option informer_obj"

primrec policy_step :: "'s PolicyStore \<Rightarrow> 'e policy_event \<Rightarrow> applied_keys \<times> 's \<Rightarrow> applied_keys \<times> 's" where
  "policy_step S (PolicyUpserted R obj) = onUpsert S R obj"
| "policy_step S (PolicyDeleted R obj) = onDelete S R obj"

definition watch_policies :: "'s PolicyStore \<Rightarrow> 'e policy_event list \<Rightarrow> 's \<Rightarrow> applied_keys \<times> 's" where
  "watch_policies S evs st = fold (policy_step S) evs ([], st)"

section \<open>What the events ask for\<close>

text \<open>
  The rules a policy object stands for after a sequence of events: those of its last revision that
  could be expanded, and none after its deletion.
\<close>

primrec event_resolver :: "'e policy_event \<Rightarrow> 'e IdentityResolver" where
  "event_resolver (PolicyUpserted R obj) = R"
| "event_resolver (PolicyDeleted R obj) = R"

primrec event_policy :: "'e policy_event \<Rightarrow> MeridianPolicy option" where
  "event_policy (PolicyUpserted R obj) = policyFromObject obj"
| "event_policy (PolicyDeleted R obj) = policyFromObject obj"

definition event_rules :: "'e policy_event \<Rightarrow> PolicyRule list" where
  "event_rules ev =
     (case event_policy ev of
        None \<Rightarrow> []
      | Some pol \<Rightarrow> (case CompilePolicyRules (event_resolver ev) pol of Inl _ \<Rightarrow> [] | Inr rs \<Rightarrow> rs))"

fun live_step :: "'e policy_event \<Rightarrow> (string \<rightharpoonup> PolicyRule list) \<Rightarrow> (string \<rightharpoonup> PolicyRule list)" where
  "live_step (PolicyUpserted R obj) live =
     (case policyFromObject obj of
        None \<Rightarrow> live
      | Some pol \<Rightarrow> (case CompilePolicyRules R pol of Inl _ \<Rightarrow> live | Inr rs \<Rightarrow> live(policy_name pol \<mapsto> rs)))"
| "live_step (PolicyDeleted R obj) live =
     (case policyFromObject obj of None \<Rightarrow> live | Some pol \<Rightarrow> live(policy_name pol := None))"

definition live_rules :: "'e policy_event list \<Rightarrow> string \<rightharpoonup> PolicyRule list" where
  "live_rules evs = fold live_step evs Map.empty"

text \<open>
  The invariant of a run, for a key that one policy alone produces: the record lists the keys of the
  live rules, and the value of the key is the one its policy asks for.
\<close>

definition mirrors ::
  "(string \<rightharpoonup> PolicyRule list) \<Rightarrow> string \<Rightarrow> PolicyRuleKey \<Rightarrow> applied_keys \<Rightarrow> PolicyRule option \<Rightarrow> bool" where
  "mirrors live n k a v \<longleftrightarrow> map_of a = (\<lambda>m. map_option (map Key) (live m)) \<and>
     (\<forall>m rs. live m = Some rs \<longrightarrow> k \<in> Key ` set rs \<longrightarrow> m = n) \<and>
     v = (case live n of None \<Rightarrow> None | Some rs \<Rightarrow> writes Key (\<lambda>r. r) rs Map.empty k)"

lemma writes_hit: "k \<in> f ` set xs \<Longrightarrow> writes f g xs m k = writes f g xs m' k"
proof (induction xs arbitrary: m m')
  case (Cons x xs)
  show ?case
  proof (cases "k \<in> f ` set xs")
    case True
    then show ?thesis using Cons.IH by simp
  next
    case False
    then show ?thesis using Cons.prems by (auto simp: writes_other)
  qed
qed simp

lemma mirrors_absent:
  assumes "mirrors live n k a v" and "\<And>rs. live n = Some rs \<Longrightarrow> k \<notin> Key ` set rs"
  shows "v = None"
  using assms writes_other [of k Key] unfolding mirrors_def by (auto split: option.splits)

lemma mirrors_put:
  assumes inv: "mirrors live n k a v" and own: "k \<in> Key ` set rs \<Longrightarrow> name = n"
    and a': "map_of a' = (map_of a)(name \<mapsto> map Key rs)"
    and v': "v' = (if k \<in> Key ` set rs then writes Key (\<lambda>r. r) rs m k
      else if k \<in> set (case map_of a name of None \<Rightarrow> [] | Some ks \<Rightarrow> ks) then None else v)"
  shows "mirrors (live(name \<mapsto> rs)) n k a' v'"
proof -
  have a: "map_of a m = map_option (map Key) (live m)" for m using inv by (simp add: mirrors_def)
  have others: "live m = Some qs \<Longrightarrow> k \<in> Key ` set qs \<Longrightarrow> m = n" for m qs using inv by (simp add: mirrors_def)
  have "v' = (case (live(name \<mapsto> rs)) n of None \<Rightarrow> None | Some rs \<Rightarrow> writes Key (\<lambda>r. r) rs Map.empty k)"
  proof (cases "k \<in> Key ` set rs")
    case True
    then show ?thesis using v' own writes_hit [OF True, of _ m] by simp
  next
    case False
    show ?thesis
    proof (cases "name = n")
      case True
      have "v' = None"
        using v' False mirrors_absent [OF inv] True by (auto simp: a split: option.splits if_splits)
      then show ?thesis using True False by (simp add: writes_other)
    next
      case other: False
      have "k \<notin> set (case map_of a name of None \<Rightarrow> [] | Some ks \<Rightarrow> ks)"
        using others [of name] other by (cases "live name") (auto simp: a)
      then have "v' = v" using v' False by auto
      then show ?thesis using inv other by (simp add: mirrors_def)
    qed
  qed
  then show ?thesis using own others by (auto simp: mirrors_def a' a fun_eq_iff split: if_splits)
qed

lemma mirrors_drop:
  assumes inv: "mirrors live n k a v" and own: "k \<in> set ks \<Longrightarrow> name = n"
    and a': "map_of a' = (map_of a)(name := None)"
    and v': "v' = (if k \<in> set (case map_of a name of None \<Rightarrow> ks | Some qs \<Rightarrow> qs) then None else v)"
  shows "mirrors (live(name := None)) n k a' v'"
proof -
  have a: "map_of a m = map_option (map Key) (live m)" for m using inv by (simp add: mirrors_def)
  have others: "live m = Some qs \<Longrightarrow> k \<in> Key ` set qs \<Longrightarrow> m = n" for m qs using inv by (simp add: mirrors_def)
  have "v' = (case (live(name := None)) n of None \<Rightarrow> None | Some rs \<Rightarrow> writes Key (\<lambda>r. r) rs Map.empty k)"
  proof (cases "name = n")
    case True
    have "v' = None"
      using v' mirrors_absent [OF inv] True by (auto simp: a split: option.splits if_splits)
    then show ?thesis using True by simp
  next
    case False
    have "k \<notin> set (case map_of a name of None \<Rightarrow> ks | Some qs \<Rightarrow> qs)"
      using others [of name] own False by (cases "live name") (auto simp: a)
    then have "v' = v" using v' by auto
    then show ?thesis using inv False by (simp add: mirrors_def)
  qed
  then show ?thesis using others by (auto simp: mirrors_def a' a fun_eq_iff split: if_splits)
qed

section \<open>The contract of a store\<close>

locale policy_store =
  fixes S :: "'s PolicyStore" and content :: "'s \<Rightarrow> PolicyRuleKey \<rightharpoonup> PolicyRule"
  assumes put_effect: "store_put S r st = (ok, st') \<Longrightarrow>
      content st' = (if ok then (content st)(Key r \<mapsto> r) else content st)"
    and delete_effect: "store_delete S k st = (ok, st') \<Longrightarrow>
      content st' = (if ok then (content st)(k := None) else content st)"
begin

lemma delete_keys_frame: "k \<notin> set ks \<Longrightarrow> content (delete_keys S ks st) k = content st k"
proof (induction ks arbitrary: st)
  case (Cons q ks)
  obtain ok st' where d: "store_delete S q st = (ok, st')" by fastforce
  show ?case using Cons delete_effect [OF d] by (simp add: d)
qed simp

text \<open>A key that is not recorded was not written.\<close>

lemma put_rules_unrecorded:
  assumes "put_rules S rules (ks, st) = (ks', st')" and "k \<notin> set ks'"
  shows "content st' k = content st k"
  using assms
proof (induction rules arbitrary: ks st)
  case (Cons r rules)
  obtain ok st1 where p: "store_put S r st = (ok, st1)" by fastforce
  have mono: "set qs \<subseteq> set qs'" if "put_rules S rs (qs, s) = (qs', s')" for rs qs qs' s s'
    using that
  proof (induction rs arbitrary: qs s)
    case (Cons r rs)
    then show ?case by (auto split: prod.splits bool.splits) fastforce+
  qed simp
  show ?case
  proof (cases ok)
    case True
    then have *: "put_rules S rules (ks @ [Key r], st1) = (ks', st')" using Cons.prems(1) p by simp
    then have "k \<noteq> Key r" using mono [OF *] Cons.prems(2) by auto
    then show ?thesis using Cons.IH [OF *] Cons.prems(2) put_effect [OF p] True by simp
  next
    case False
    then show ?thesis using Cons put_effect [OF p] p by simp
  qed
qed simp

end

locale live_policy_store = policy_store +
  assumes put_succeeds: "fst (store_put S r st)" and delete_succeeds: "fst (store_delete S k st)"
begin

lemma put_rules_live:
  "put_rules S rules (ks, st) = (ks', st') \<Longrightarrow>
     ks' = ks @ map Key rules \<and> content st' = writes Key (\<lambda>r. r) rules (content st)"
proof (induction rules arbitrary: ks st)
  case (Cons r rules)
  obtain st1 where p: "store_put S r st = (True, st1)" using put_succeeds [of r st] by (cases "store_put S r st") auto
  show ?case using Cons.IH [of "ks @ [Key r]" st1] Cons.prems put_effect [OF p]
    by (simp add: p del: fun_upd_apply)
qed simp

lemma delete_keys_live: "content (delete_keys S ks st) k = (if k \<in> set ks then None else content st k)"
proof (induction ks arbitrary: st)
  case (Cons q ks)
  obtain st' where d: "store_delete S q st = (True, st')"
    using delete_succeeds [of q st] by (cases "store_delete S q st") auto
  show ?case using Cons delete_effect [OF d] by (simp add: d)
qed simp

lemma onUpsert_live:
  assumes "policyFromObject obj = Some pol" and "CompilePolicyRules R pol = Inr rs"
    and "onUpsert S R obj (a, st) = (a', st')"
  shows "map_of a' = (map_of a)(policy_name pol \<mapsto> map Key rs)"
    "content st' k = (if k \<in> Key ` set rs then writes Key (\<lambda>r. r) rs (content st) k
       else if k \<in> set (case map_of a (policy_name pol) of None \<Rightarrow> [] | Some ks \<Rightarrow> ks) then None
       else content st k)"
proof -
  obtain ks st1 where p: "put_rules S rs ([], st) = (ks, st1)" by fastforce
  note P = put_rules_live [OF p]
  have e: "a' = AList.update (policy_name pol) (map Key rs) a"
    "st' = delete_keys S (filter (\<lambda>key. key \<notin> set (map Key rs))
       (case map_of a (policy_name pol) of None \<Rightarrow> [] | Some ks \<Rightarrow> ks)) st1"
    using assms P by (auto simp: onUpsert_def swapApplied_def p)
  show "map_of a' = (map_of a)(policy_name pol \<mapsto> map Key rs)" by (simp add: e(1))
  show "content st' k = (if k \<in> Key ` set rs then writes Key (\<lambda>r. r) rs (content st) k
       else if k \<in> set (case map_of a (policy_name pol) of None \<Rightarrow> [] | Some ks \<Rightarrow> ks) then None
       else content st k)"
    unfolding e(2) delete_keys_live using P writes_other [of k Key rs "\<lambda>r. r" "content st"] by auto
qed

lemma onDelete_live:
  assumes "policyFromObject obj = Some pol" and "onDelete S R obj (a, st) = (a', st')"
  shows "map_of a' = (map_of a)(policy_name pol := None)"
    "content st' k =
       (if k \<in> set (case map_of a (policy_name pol) of
            None \<Rightarrow> (case CompilePolicyRules R pol of Inl _ \<Rightarrow> [] | Inr rs \<Rightarrow> map Key rs)
          | Some ks \<Rightarrow> ks)
        then None else content st k)"
  using assms
  by (auto simp: onDelete_def swapApplied_def delete_keys_live split: option.splits sum.splits)

lemma mirrors_step:
  assumes inv: "mirrors live n k a (content s k)"
    and ev: "k \<in> Key ` set (event_rules ev) \<Longrightarrow> map_option policy_name (event_policy ev) = Some n"
    and step: "policy_step S ev (a, s) = (a', s')"
  shows "mirrors (live_step ev live) n k a' (content s' k)"
proof (cases "event_policy ev")
  case None
  then show ?thesis using inv step by (cases ev) (simp_all add: onUpsert_def onDelete_def)
next
  case (Some pol)
  show ?thesis
  proof (cases ev)
    case (PolicyUpserted R obj)
    have obj: "policyFromObject obj = Some pol" "onUpsert S R obj (a, s) = (a', s')"
      using Some PolicyUpserted step by simp_all
    show ?thesis
    proof (cases "CompilePolicyRules R pol")
      case (Inl e)
      then show ?thesis using inv obj PolicyUpserted by (simp add: onUpsert_def)
    next
      case (Inr rs)
      have "k \<in> Key ` set rs \<Longrightarrow> policy_name pol = n" using ev Some PolicyUpserted Inr by (simp add: event_rules_def)
      from mirrors_put [OF inv this onUpsert_live [OF obj(1) Inr obj(2)]] show ?thesis
        using PolicyUpserted obj Inr by simp
    qed
  next
    case (PolicyDeleted R obj)
    have obj: "policyFromObject obj = Some pol" "onDelete S R obj (a, s) = (a', s')"
      using Some PolicyDeleted step by simp_all
    let ?ks = "case CompilePolicyRules R pol of Inl _ \<Rightarrow> [] | Inr rs \<Rightarrow> map Key rs"
    have "k \<in> set ?ks \<Longrightarrow> policy_name pol = n"
      using ev Some PolicyDeleted by (auto simp: event_rules_def split: sum.splits)
    from mirrors_drop [OF inv this onDelete_live [OF obj]] show ?thesis using PolicyDeleted obj by simp
  qed
qed

lemma watch_policies_mirror:
  assumes "content st k = None"
    and "\<forall>ev\<in>set evs. k \<in> Key ` set (event_rules ev) \<longrightarrow> map_option policy_name (event_policy ev) = Some n"
  shows "mirrors (live_rules evs) n k (fst (watch_policies S evs st)) (content (snd (watch_policies S evs st)) k)"
  using assms(2)
proof (induction evs rule: rev_induct)
  case Nil
  then show ?case using assms(1) by (simp add: watch_policies_def live_rules_def mirrors_def fun_eq_iff)
next
  case (snoc ev evs)
  obtain a s where w: "watch_policies S evs st = (a, s)" by fastforce
  obtain a' s' where w': "policy_step S ev (a, s) = (a', s')" by fastforce
  have "mirrors (live_rules evs) n k a (content s k)" using snoc w by simp
  from mirrors_step [OF this _ w'] show ?case
    using snoc.prems w w' by (simp add: watch_policies_def live_rules_def)
qed

end

interpretation memory: live_policy_store memory_store "\<lambda>m. map_of (mem_policies m)"
  by unfold_locales
    (auto simp: memory_store_def PutPolicy_def DeletePolicy_def mutate_def)

section \<open>Properties\<close>

text \<open>
  C34. The informer mirrors the policy objects into the store. For every sequence of additions, updates
  and deletions, each with whatever the resolver knows at that time, and for every key that only one
  policy object ever produces: the store holds for this key the rule of the last revision of the object
  that could be expanded, and nothing when that revision has no such rule or the object was deleted.
\<close>

theorem policies_mirrored:
  assumes "\<forall>ev\<in>set evs. k \<in> Key ` set (event_rules ev) \<longrightarrow> map_option policy_name (event_policy ev) = Some n"
  shows "map_of (mem_policies (snd (watch_policies memory_store evs NewMemory))) k =
    (case live_rules evs n of None \<Rightarrow> None | Some rs \<Rightarrow> writes Key (\<lambda>r. r) rs Map.empty k)"
  using memory.watch_policies_mirror [OF _ assms] unfolding mirrors_def by (simp add: NewMemory_def)

text \<open>
  A policy is added, an object does not convert, and a resync finds the identities gone.
\<close>

definition demo_policy_events :: "string policy_event list" where
  "demo_policy_events =
     [PolicyUpserted demo_resolver (Object (Some (demo_crd ''p''))),
      PolicyUpserted demo_resolver (Object None),
      PolicyUpserted (static_resolver \<lparr>BySpiffeID = [], ByNamespace = []\<rparr>) (Object (Some (demo_crd ''p'')))]"

theorem policies_mirrored_witness:
  "map_of (mem_policies (snd (watch_policies memory_store demo_policy_events NewMemory))) (Key demo_crd_rule) =
     Some demo_crd_rule"
proof -
  let ?none = "static_resolver \<lparr>BySpiffeID = [], ByNamespace = []\<rparr> :: string IdentityResolver"
  have u: "CompilePolicyRules ?none (demo_crd name) = Inl (Source_Unknown ''spiffe://web'')" for name
    by (simp add: CompilePolicyRules_def ValidatePolicySpec_def demo_crd_def static_resolver_def
        good_source_def HasPrefix_def good_protocol_def)
  have "live_rules demo_policy_events (policy_name (demo_crd ''p'')) = Some [demo_crd_rule]"
    by (simp add: live_rules_def demo_policy_events_def policyFromObject_def demo_crd_compiles u)
  then show ?thesis
    using policies_mirrored [of demo_policy_events "Key demo_crd_rule" "policy_name (demo_crd ''p'')"]
    by (simp add: demo_policy_events_def event_rules_def policyFromObject_def demo_crd_compiles u)
qed

text \<open>
  C39. Two limits of the cleanup. When two policy objects produce the same key, deleting one of them
  removes the rule of the other, which stays recorded as applied. When a store refuses to write a key
  again, the key is dropped from the record although its old rule is still stored, and deleting the
  policy leaves that rule behind.
\<close>

theorem cleanup_limits:
  assumes "policyFromObject obj = Some pol" and "CompilePolicyRules R pol = Inr rules" and "k \<in> Key ` set rules"
    and "policyFromObject obj' = Some pol'" and "CompilePolicyRules R' pol' = Inr rules'" and "k \<in> Key ` set rules'"
    and "policy_name pol \<noteq> policy_name pol'"
    and "policy_store S content" and "content st k = Some old" and "k \<notin> set (fst (put_rules S rules ([], st)))"
  shows "(case onDelete memory_store R obj (onUpsert memory_store R' obj' (onUpsert memory_store R obj (a, m))) of
      (a', m') \<Rightarrow> map_of (mem_policies m') k = None \<and>
        (\<exists>ks. map_of a' (policy_name pol') = Some ks \<and> k \<in> set ks)) \<and>
    content (snd (onDelete S R'' obj (onUpsert S R obj (a, st)))) k = Some old"
proof
  obtain a1 m1 where 1: "onUpsert memory_store R obj (a, m) = (a1, m1)" by fastforce
  obtain a2 m2 where 2: "onUpsert memory_store R' obj' (a1, m1) = (a2, m2)" by fastforce
  obtain a3 m3 where 3: "onDelete memory_store R obj (a2, m2) = (a3, m3)" by fastforce
  have "map_of a2 (policy_name pol) = Some (map Key rules)" "map_of a3 (policy_name pol') = Some (map Key rules')"
    using memory.onUpsert_live(1) [OF assms(1,2) 1] memory.onUpsert_live(1) [OF assms(4,5) 2]
      memory.onDelete_live(1) [OF assms(1) 3] assms(7) by simp_all
  then show "case onDelete memory_store R obj (onUpsert memory_store R' obj' (onUpsert memory_store R obj (a, m))) of
      (a', m') \<Rightarrow> map_of (mem_policies m') k = None \<and>
        (\<exists>ks. map_of a' (policy_name pol') = Some ks \<and> k \<in> set ks)"
    using memory.onDelete_live(2) [OF assms(1) 3, of k] assms(3,6) by (simp add: 1 2 3)
next
  obtain ks st1 where p: "put_rules S rules ([], st) = (ks, st1)" by fastforce
  have st1: "content st1 k = Some old"
    using policy_store.put_rules_unrecorded [OF assms(8) p] assms(9,10) by (simp add: p)
  define stale where "stale = filter (\<lambda>key. key \<notin> set (map Key rules))
    (case map_of a (policy_name pol) of None \<Rightarrow> [] | Some ks \<Rightarrow> ks)"
  have "onUpsert S R obj (a, st) = (AList.update (policy_name pol) ks a, delete_keys S stale st1)"
    using assms(1,2) by (simp add: onUpsert_def swapApplied_def p stale_def)
  then have "snd (onDelete S R'' obj (onUpsert S R obj (a, st))) = delete_keys S ks (delete_keys S stale st1)"
    using assms(1) by (simp add: onDelete_def swapApplied_def)
  moreover have "k \<notin> set stale" "k \<notin> set ks" using assms(3,10) by (auto simp: stale_def p)
  ultimately show "content (snd (onDelete S R'' obj (onUpsert S R obj (a, st)))) k = Some old"
    using policy_store.delete_keys_frame [OF assms(8)] st1 by metis
qed

text \<open>A store that refuses writes.\<close>

definition full_store :: "(PolicyRuleKey, PolicyRule) gomap PolicyStore" where
  "full_store = \<lparr>store_put = (\<lambda>r m. (False, m)), store_delete = (\<lambda>k m. (True, AList.delete k m))\<rparr>"

interpretation full: policy_store full_store map_of
  by unfold_locales (auto simp: full_store_def)

theorem cleanup_limits_witness:
  "map_of (snd (onDelete full_store demo_resolver (Object (Some (demo_crd ''p'')))
     (onUpsert full_store demo_resolver (Object (Some (demo_crd ''p'')))
       ([], [(Key demo_crd_rule, demo_crd_rule)])))) (Key demo_crd_rule) = Some demo_crd_rule"
proof -
  have o: "policyFromObject (Object (Some (demo_crd name))) = Some (demo_crd name)" for name
    by (simp add: policyFromObject_def)
  have "policy_name (demo_crd ''p'') \<noteq> policy_name (demo_crd ''q'')" by (simp add: policy_name_def demo_crd_def)
  from cleanup_limits [OF o demo_crd_compiles _ o demo_crd_compiles _ this full.policy_store_axioms,
      of "Key demo_crd_rule" "[(Key demo_crd_rule, demo_crd_rule)]" demo_crd_rule "[]" NewMemory demo_resolver]
  show ?thesis by (simp add: full_store_def)
qed

end
