(* ===== verification/Identity_Registry.thy ===== *)
theory Identity_Registry
  imports Wire_Types
begin

text \<open>
  \<^verbatim>\<open>internal/control/identity/registry.go\<close>: the allocator of workload identities. The counter is a
  32-bit word, as in the source, so that it wraps.
\<close>

definition firstID :: u32 where [simp]: "firstID = 1"

record Registry =
  next_id :: u32
  byName :: "(string, u32) gomap"
  byID :: "(u32, string) gomap"

definition NewRegistry :: Registry where
  "NewRegistry = \<lparr>next_id = firstID, byName = [], byID = []\<rparr>"

datatype registry_error = Empty_Name

definition Allocate :: "string \<Rightarrow> Registry \<Rightarrow> (registry_error + u32) \<times> Registry" where
  "Allocate name r =
     (if name = [] then (Inl Empty_Name, r)
      else case map_of (byName r) name of
        Some i \<Rightarrow> (Inr i, r)
      | None \<Rightarrow>
          let i = next_id r
          in (Inr i, r\<lparr>next_id := next_id r + 1, byName := AList.update name i (byName r),
                       byID := AList.update i name (byID r)\<rparr>))"

definition LookupByName :: "string \<Rightarrow> Registry \<Rightarrow> u32 option" where
  "LookupByName name r = map_of (byName r) name"

definition LookupByID :: "u32 \<Rightarrow> Registry \<Rightarrow> string option" where
  "LookupByID i r = map_of (byID r) i"

definition Release :: "string \<Rightarrow> Registry \<Rightarrow> Registry" where
  "Release name r =
     (case map_of (byName r) name of
        Some i \<Rightarrow> r\<lparr>byName := AList.delete name (byName r), byID := AList.delete i (byID r)\<rparr>
      | None \<Rightarrow> r)"

section \<open>Sequences of calls\<close>

text \<open>The calls of all users of one registry in the order of its lock, with the identities handed out.\<close>

datatype registry_call = CallAllocate string | CallRelease string

fun registry_step :: "registry_call \<Rightarrow> (string \<times> u32) list \<times> Registry \<Rightarrow> (string \<times> u32) list \<times> Registry" where
  "registry_step (CallAllocate name) (out, r) =
     (case Allocate name r of
        (Inr i, r') \<Rightarrow> (out @ [(name, i)], r')
      | (Inl _, r') \<Rightarrow> (out, r'))"
| "registry_step (CallRelease name) (out, r) = (out, Release name r)"

definition registry_run :: "registry_call list \<Rightarrow> (string \<times> u32) list \<times> Registry" where
  "registry_run calls = fold registry_step calls ([], NewRegistry)"

section \<open>The invariant\<close>

text \<open>
  Before the counter wraps, the two maps are inverse to each other, and every identity ever handed
  out is non-zero, below the counter and belongs to one name.
\<close>

definition registry_ok :: "Registry \<Rightarrow> bool" where
  "registry_ok r \<longleftrightarrow> next_id r \<noteq> 0 \<and> (\<forall>n i. LookupByName n r = Some i \<longleftrightarrow> LookupByID i r = Some n) \<and>
     (\<forall>n i. LookupByName n r = Some i \<longrightarrow> n \<noteq> [] \<and> 0 < i \<and> i < next_id r)"

definition issued_ok :: "(string \<times> u32) list \<times> Registry \<Rightarrow> bool" where
  "issued_ok = (\<lambda>(out, r). registry_ok r \<and>
     (\<forall>n i. (n, i) \<in> set out \<longrightarrow> 0 < i \<and> i < next_id r) \<and>
     (\<forall>n n' i. (n, i) \<in> set out \<longrightarrow> (n', i) \<in> set out \<longrightarrow> n = n') \<and>
     (\<forall>n i. LookupByName n r = Some i \<longrightarrow> (n, i) \<in> set out))"

lemma counter_step:
  assumes "x + 1 \<noteq> (0::u32)"
  shows "x < x + 1" "i < x \<Longrightarrow> i < x + 1"
proof -
  have "unat (x + 1) = Suc (unat x)" using unatSuc [of x] assms by (simp add: add.commute)
  then show "x < x + 1" by (simp add: word_less_nat_alt)
  then show "i < x + 1" if "i < x" using that by simp
qed

lemma registry_ok_New [simp]: "registry_ok NewRegistry"
  by (simp add: registry_ok_def NewRegistry_def LookupByName_def LookupByID_def)

lemma Allocate_known: "LookupByName n r = Some i \<Longrightarrow> n \<noteq> [] \<Longrightarrow> Allocate n r = (Inr i, r)"
  by (simp add: Allocate_def LookupByName_def)

lemma Allocate_lookup:
  assumes "registry_ok r" and "next_id r + 1 \<noteq> 0" and "n \<noteq> []" and "Allocate n r = (x, r')"
  shows "registry_ok r'" "x = Inr (the (LookupByName n r'))" "LookupByName n r' \<noteq> None"
    "m \<noteq> n \<Longrightarrow> LookupByName m r' = LookupByName m r"
    "LookupByName n r' = (if LookupByName n r = None then Some (next_id r) else LookupByName n r)"
    "next_id r' = (if LookupByName n r = None then next_id r + 1 else next_id r)"
proof -
  consider (known) i where "LookupByName n r = Some i" "x = Inr i" "r' = r"
    | (fresh) "LookupByName n r = None" "x = Inr (next_id r)"
      "r' = r\<lparr>next_id := next_id r + 1, byName := AList.update n (next_id r) (byName r),
              byID := AList.update (next_id r) n (byID r)\<rparr>"
    using assms(3,4) by (cases "LookupByName n r") (auto simp: Allocate_def LookupByName_def Let_def)
  note C = this
  have fresh_id: "LookupByID (next_id r) r = None" "LookupByName k r \<noteq> Some (next_id r)" for k
    using assms(1) unfolding registry_ok_def by (metis less_irrefl option.exhaust)+
  show "registry_ok r'"
  proof (cases rule: C)
    case fresh
    have "LookupByID i r \<noteq> Some n" for i
      using assms(1) fresh(1) unfolding registry_ok_def by (metis option.distinct(1))
    then show ?thesis
      using assms(1) fresh(1) fresh_id assms(2,3) counter_step [OF assms(2)]
      unfolding registry_ok_def fresh(3) LookupByName_def LookupByID_def
      by (auto simp: word_gt_0)
  qed (use assms(1) in simp)
  show "x = Inr (the (LookupByName n r'))" "LookupByName n r' \<noteq> None"
    "m \<noteq> n \<Longrightarrow> LookupByName m r' = LookupByName m r"
    "LookupByName n r' = (if LookupByName n r = None then Some (next_id r) else LookupByName n r)"
    "next_id r' = (if LookupByName n r = None then next_id r + 1 else next_id r)"
    by (cases rule: C; simp add: LookupByName_def)+
qed

lemma Release_lookup:
  assumes "registry_ok r"
  shows "registry_ok (Release n r)" "next_id (Release n r) = next_id r"
    "LookupByName m (Release n r) = (if m = n then None else LookupByName m r)"
proof -
  show "next_id (Release n r) = next_id r"
    "LookupByName m (Release n r) = (if m = n then None else LookupByName m r)"
    by (auto simp: Release_def LookupByName_def split: option.split)
  have *: "map_of (byName r) k = Some i \<longleftrightarrow> map_of (byID r) i = Some k" for k i
    using assms unfolding registry_ok_def LookupByName_def LookupByID_def by blast
  show "registry_ok (Release n r)"
  proof (cases "map_of (byName r) n")
    case (Some i)
    then have e: "Release n r = r\<lparr>byName := AList.delete n (byName r), byID := AList.delete i (byID r)\<rparr>"
      by (simp add: Release_def)
    have "map_of (byID r) j = Some n \<longleftrightarrow> j = i" "map_of (byID r) i = Some k \<longleftrightarrow> k = n" for j k
      using * Some by (metis option.inject)+
    then show ?thesis
      using assms Some unfolding registry_ok_def e LookupByName_def LookupByID_def by (auto simp: *)
  qed (use assms in \<open>simp add: Release_def\<close>)
qed

lemma issued_ok_step:
  assumes "issued_ok (out, r)" and "next_id r + 1 \<noteq> 0" and "registry_step c (out, r) = (out', r')"
  shows "issued_ok (out', r')" "next_id r' = next_id r \<or> next_id r' = next_id r + 1"
proof -
  have ok: "registry_ok r" and old: "(n, i) \<in> set out \<Longrightarrow> 0 < i \<and> i < next_id r"
    "(n, i) \<in> set out \<Longrightarrow> (n', i) \<in> set out \<Longrightarrow> n = n'"
    "LookupByName n r = Some i \<Longrightarrow> (n, i) \<in> set out" for n n' i
    using assms(1) unfolding issued_ok_def by blast+
  have "issued_ok (out', r') \<and> (next_id r' = next_id r \<or> next_id r' = next_id r + 1)"
  proof (cases c)
    case (CallRelease name)
    then show ?thesis
      using assms(3) old Release_lookup(1,2) [OF ok] Release_lookup(3) [OF ok, where n = name]
      by (auto simp: issued_ok_def split: if_splits)
  next
    case (CallAllocate name)
    show ?thesis
    proof (cases "name = []")
      case True
      then show ?thesis using assms(1,3) CallAllocate by (simp add: Allocate_def)
    next
      case False
      obtain x s where a: "Allocate name r = (x, s)" by fastforce
      note L = Allocate_lookup [OF ok assms(2) False a]
      obtain i where i: "LookupByName name s = Some i" "x = Inr i" using L(2,3) by auto
      have e: "out' = out @ [(name, i)]" "r' = s" using assms(3) CallAllocate a i by simp_all
      consider "LookupByName name r = Some i" "next_id s = next_id r"
        | "i = next_id r" "next_id s = next_id r + 1"
        using L(5,6) i by (cases "LookupByName name r") auto
      then show ?thesis
      proof cases
        case 1
        then have "set out' = set out" using e old(3) by auto
        moreover have "LookupByName m s = LookupByName m r" for m using L(4) [of m] i 1 by metis
        ultimately show ?thesis using old L(1) 1(2) unfolding issued_ok_def e(2) by auto
      next
        case 2
        have "(n, i) \<notin> set out" for n using old(1) 2(1) by blast
        moreover have "LookupByName m s = (if m = name then Some i else LookupByName m r)" for m
          using L(4) [of m] i by simp
        moreover have "0 < i" using ok 2(1) unfolding registry_ok_def by (simp add: word_gt_0)
        ultimately show ?thesis
          using old L(1) counter_step [OF assms(2)] 2 unfolding issued_ok_def e
          by (auto split: if_splits)
      qed
    qed
  qed
  then show "issued_ok (out', r')" "next_id r' = next_id r \<or> next_id r' = next_id r + 1" by blast+
qed

text \<open>A run of fewer than \<open>2^32 - 1\<close> calls does not exhaust the counter.\<close>

lemma registry_run_ok:
  assumes "registry_run calls = (out, r)" and "length calls < 2 ^ 32 - 1"
  shows "issued_ok (out, r)" "unat (next_id r) \<le> Suc (length calls)"
proof -
  have "length calls < 2 ^ 32 - 1 \<Longrightarrow>
    issued_ok (fold registry_step calls ([], NewRegistry)) \<and>
    unat (next_id (snd (fold registry_step calls ([], NewRegistry)))) \<le> Suc (length calls)"
  proof (induction calls rule: rev_induct)
    case Nil
    then show ?case by (simp add: issued_ok_def) (simp add: NewRegistry_def LookupByName_def)
  next
    case (snoc c calls)
    obtain o1 r1 where 1: "fold registry_step calls ([], NewRegistry) = (o1, r1)" by fastforce
    obtain o2 r2 where 2: "registry_step c (o1, r1) = (o2, r2)" by fastforce
    have ok: "issued_ok (o1, r1)" and n: "unat (next_id r1) \<le> Suc (length calls)"
      using snoc 1 by simp_all
    have "unat (next_id r1) < 2 ^ 32 - 1" using n snoc.prems by simp
    then have "unat (next_id r1 + 1) = Suc (unat (next_id r1))"
      by (simp add: unat_word_ariths)
    then have s: "unat (next_id r1 + 1) = Suc (unat (next_id r1))" "next_id r1 + 1 \<noteq> 0" by auto
    show ?case using issued_ok_step [OF ok s(2) 2] s(1) n 1 2 by auto
  qed
  then show "issued_ok (out, r)" "unat (next_id r) \<le> Suc (length calls)"
    using assms unfolding registry_run_def by auto
qed

text \<open>Allocating new names one after the other counts up, through the wrap.\<close>

lemma registry_run_fresh:
  assumes "distinct names" and "[] \<notin> set names"
  shows "next_id (snd (registry_run (map CallAllocate names))) = 1 + of_nat (length names) \<and>
    fst ` set (byName (snd (registry_run (map CallAllocate names)))) = set names"
  using assms
proof (induction names rule: rev_induct)
  case Nil
  then show ?case by (simp add: registry_run_def NewRegistry_def)
next
  case (snoc n names)
  obtain o1 r1 where 1: "fold registry_step (map CallAllocate names) ([], NewRegistry) = (o1, r1)" by fastforce
  have "map_of (byName r1) n = None"
    using snoc 1 by (simp add: registry_run_def map_of_eq_None_iff)
  then show ?case
    using snoc 1 by (auto simp: registry_run_def Allocate_def Let_def dom_update)
qed

section \<open>Properties\<close>

text \<open>
  C37. Identities within fewer than \<open>2^32 - 1\<close> calls of \<open>Allocate\<close> and \<open>Release\<close> in any order: the reserved
  identity 0 is never handed out, no identity is ever handed out for two names, not even after a
  release, the two lookups are inverse, a bound name keeps its identity, and a name that is not bound
  gets one that was never handed out before.
\<close>

theorem identities_never_reused:
  assumes "registry_run calls = (out, r)" and "length calls < 2 ^ 32 - 1"
  shows "IdentityUnknown \<notin> snd ` set out \<and>
    (\<forall>n n' i. (n, i) \<in> set out \<and> (n', i) \<in> set out \<longrightarrow> n = n') \<and>
    (\<forall>n i. LookupByName n r = Some i \<longleftrightarrow> LookupByID i r = Some n) \<and>
    (\<forall>n i. LookupByName n r = Some i \<longrightarrow> fst (Allocate n r) = Inr i) \<and>
    (\<forall>n. n \<noteq> [] \<and> LookupByName n r = None \<longrightarrow>
       (\<exists>i. fst (Allocate n r) = Inr i \<and> i \<noteq> IdentityUnknown \<and> (\<forall>j\<in>snd ` set out. j < i)))"
proof -
  have ok: "registry_ok r" and old: "\<forall>n i. (n, i) \<in> set out \<longrightarrow> 0 < i \<and> i < next_id r"
    "\<forall>n n' i. (n, i) \<in> set out \<longrightarrow> (n', i) \<in> set out \<longrightarrow> n = n'"
    using registry_run_ok(1) [OF assms] unfolding issued_ok_def by blast+
  have "fst (Allocate n r) = Inr i" if "LookupByName n r = Some i" for n i
    using that ok Allocate_known unfolding registry_ok_def by (metis fst_conv)
  moreover have "fst (Allocate n r) = Inr (next_id r)" if "n \<noteq> []" "LookupByName n r = None" for n
    using that by (simp add: Allocate_def LookupByName_def Let_def)
  moreover have "IdentityUnknown \<notin> snd ` set out" "\<forall>j\<in>snd ` set out. j < next_id r"
    using old(1) by force+
  moreover have "\<forall>n i. LookupByName n r = Some i \<longleftrightarrow> LookupByID i r = Some n" "next_id r \<noteq> IdentityUnknown"
    using ok unfolding registry_ok_def by simp_all
  ultimately show ?thesis using old(2) by blast
qed

definition demo_registry_calls :: "registry_call list" where
  "demo_registry_calls =
     [CallAllocate ''web'', CallAllocate ''db'', CallRelease ''web'', CallAllocate ''web'', CallAllocate ''db'']"

lemma demo_registry_run:
  "registry_run demo_registry_calls =
     ([(''web'', 1), (''db'', 2), (''web'', 3), (''db'', 2)],
      \<lparr>next_id = 4, byName = [(''db'', 2), (''web'', 3)], byID = [(2, ''db''), (3, ''web'')]\<rparr>)"
  by (simp add: registry_run_def demo_registry_calls_def NewRegistry_def Allocate_def Release_def Let_def AList.delete_eq)

theorem identities_never_reused_witness:
  "\<exists>i. fst (Allocate ''cache'' (snd (registry_run demo_registry_calls))) = Inr i \<and> i \<noteq> IdentityUnknown \<and> 3 < i"
proof -
  let ?r = "snd (registry_run demo_registry_calls)"
  have l: "length demo_registry_calls < 2 ^ 32 - 1" by (simp add: demo_registry_calls_def)
  have "''cache'' \<noteq> []" "LookupByName ''cache'' ?r = None" by (simp_all add: demo_registry_run LookupByName_def)
  then obtain i where "fst (Allocate ''cache'' ?r) = Inr i" "i \<noteq> IdentityUnknown"
    "\<forall>j\<in>snd ` set (fst (registry_run demo_registry_calls)). j < i"
    using identities_never_reused [OF surjective_pairing l, THEN conjunct2, THEN conjunct2, THEN conjunct2,
        THEN conjunct2, THEN spec, of "''cache''"] by auto
  then show ?thesis by (simp add: demo_registry_run)
qed

text \<open>
  The counter wraps: after \<open>2^32 - 1\<close> names the next one gets the reserved identity 0, which the data
  plane treats as unknown, and the one after it shares identity 1 with the first.
\<close>

theorem identity_counter_wraps:
  assumes "distinct (names @ [n, n'])" and "[] \<notin> set (names @ [n, n'])" and "length names = 2 ^ 32 - 1"
  shows "case Allocate n (snd (registry_run (map CallAllocate names))) of (i, r) \<Rightarrow>
    i = Inr IdentityUnknown \<and> fst (Allocate n' r) = Inr firstID"
proof -
  define r where "r = snd (registry_run (map CallAllocate names))"
  have "next_id r = 0" "fst ` set (byName r) = set names"
    using registry_run_fresh [of names] assms by (simp_all add: r_def)
  then have "map_of (byName r) n = None" "map_of (byName r) n' = None" "next_id r = 0"
    using assms(1) by (auto simp: map_of_eq_None_iff)
  then show ?thesis using assms(1,2) unfolding r_def [symmetric] by (auto simp: Allocate_def Let_def)
qed

lemma numbered_names:
  "distinct (map itoa [0..<k] @ [itoa k, itoa (Suc k)])" "[] \<notin> set (map itoa [0..<k] @ [itoa k, itoa (Suc k)])"
  "length (map itoa [0..<k]) = k"
proof -
  show "distinct (map itoa [0..<k] @ [itoa k, itoa (Suc k)])" by (auto simp: distinct_map inj_on_def)
  have "x \<noteq> []" if x: "x \<in> set (map itoa [0..<k] @ [itoa k, itoa (Suc k)])" for x
  proof -
    obtain m where "x = itoa m" using x by auto
    then show ?thesis by simp
  qed
  then show "[] \<notin> set (map itoa [0..<k] @ [itoa k, itoa (Suc k)])" by blast
qed simp

theorem identity_counter_wraps_witness:
  "case Allocate (itoa (2 ^ 32 - 1)) (snd (registry_run (map CallAllocate (map itoa [0..<2 ^ 32 - 1])))) of
     (i, r) \<Rightarrow> i = Inr IdentityUnknown \<and> fst (Allocate (itoa (Suc (2 ^ 32 - 1))) r) = Inr firstID"
  by (rule identity_counter_wraps [OF numbered_names])

end
