(* ===== verification/Pod_Watcher.thy ===== *)
theory Pod_Watcher
  imports Policy_Watcher Identity_Registry
begin

text \<open>
  The pod informer of \<^verbatim>\<open>internal/control/k8s/informers.go\<close> and the resolver of \<^verbatim>\<open>pod_resolver.go\<close>:
  how pods get identities and how selectors find them. Listing pods is a cache of the Kubernetes
  client library; its answers are arguments.
\<close>

section \<open>The informer\<close>

definition SpiffeIDAnnotation :: string where "SpiffeIDAnnotation = ''meridian.io/spiffe-id''"

record Pod =
  pod_Name :: string
  pod_Namespace :: string
  Annotations :: "(string, string) gomap"
  PodIP :: string

definition pod_identity :: "Pod \<Rightarrow> string \<Rightarrow> u32 \<Rightarrow> Identity" where
  "pod_identity pod spiffeID i =
     \<lparr>ID = i, PodIPv4 = PodIP pod, SpiffeID = spiffeID, Namespace = pod_Namespace pod, Name = pod_Name pod\<rparr>"

definition onPodAdd :: "Pod informer_obj \<Rightarrow> Registry \<times> Memory \<Rightarrow> Registry \<times> Memory" where
  "onPodAdd obj = (\<lambda>(r, m).
     case obj of
       Object pod \<Rightarrow>
         (case map_of (Annotations pod) SpiffeIDAnnotation of
            None \<Rightarrow> (r, m)
          | Some spiffeID \<Rightarrow>
              if spiffeID = [] then (r, m)
              else if PodIP pod = [] then (r, m)
              else case Allocate (pod_Name pod) r of
                (Inl _, r') \<Rightarrow> (r', m)
              | (Inr i, r') \<Rightarrow> (r', PutIdentity (pod_identity pod spiffeID i) m))
     | _ \<Rightarrow> (r, m))"

definition onPodDelete :: "Pod informer_obj \<Rightarrow> Registry \<times> Memory \<Rightarrow> Registry \<times> Memory" where
  "onPodDelete obj = (\<lambda>(r, m).
     case obj of
       Object pod \<Rightarrow>
         (case LookupByName (pod_Name pod) r of
            None \<Rightarrow> (r, m)
          | Some i \<Rightarrow> (r, DeleteIdentity i m))
     | _ \<Rightarrow> (r, m))"

definition PodIdentity :: "Registry \<Rightarrow> Pod \<Rightarrow> u32 option" where
  "PodIdentity r pod = LookupByName (pod_Name pod) r"

datatype pod_event = PodUpserted "Pod informer_obj" | PodDeleted "Pod informer_obj"

primrec pod_step :: "pod_event \<Rightarrow> Registry \<times> Memory \<Rightarrow> Registry \<times> Memory" where
  "pod_step (PodUpserted obj) = onPodAdd obj"
| "pod_step (PodDeleted obj) = onPodDelete obj"

definition watch_pods :: "pod_event list \<Rightarrow> Registry \<times> Memory" where
  "watch_pods evs = fold pod_step evs (NewRegistry, NewMemory)"

section \<open>The resolver\<close>

text \<open>
  \<open>PodResolver\<close>: \<open>list_pods\<close> is \<open>lister.Pods(ns).List(labels)\<close> and \<open>all_pods\<close> is \<open>lister.List(Everything)\<close>.
\<close>

datatype 'e resolve_error = List_Failed 'e | No_Identities string

fun collect_ids :: "(Pod \<Rightarrow> u32 option) \<Rightarrow> Pod list \<Rightarrow> u32 list \<Rightarrow> u32 list" where
  "collect_ids identify [] ids = ids"
| "collect_ids identify (pod # pods) ids =
     (case identify pod of
        None \<Rightarrow> collect_ids identify pods ids
      | Some i \<Rightarrow> collect_ids identify pods (if i \<in> set ids then ids else ids @ [i]))"

definition pod_ResolveSelector ::
  "(WorkloadSelector \<Rightarrow> 'e + Pod list) \<Rightarrow> (Pod \<Rightarrow> u32 option) \<Rightarrow> WorkloadSelector \<Rightarrow> 'e resolve_error + u32 list" where
  "pod_ResolveSelector list_pods identify sel =
     (case list_pods sel of
        Inl e \<Rightarrow> Inl (List_Failed e)
      | Inr pods \<Rightarrow>
          (let ids = collect_ids identify pods []
           in if length ids = 0 then Inl (No_Identities (ws_Namespace sel)) else Inr (sort ids)))"

fun find_spiffe :: "(Pod \<Rightarrow> u32 option) \<Rightarrow> string \<Rightarrow> Pod list \<Rightarrow> u32 option" where
  "find_spiffe identify spiffeID [] = None"
| "find_spiffe identify spiffeID (pod # pods) =
     (if (case map_of (Annotations pod) SpiffeIDAnnotation of None \<Rightarrow> [] | Some s \<Rightarrow> s) \<noteq> spiffeID
      then find_spiffe identify spiffeID pods
      else case identify pod of Some i \<Rightarrow> Some i | None \<Rightarrow> find_spiffe identify spiffeID pods)"

definition pod_ResolveSpiffeID :: "('e + Pod list) \<Rightarrow> (Pod \<Rightarrow> u32 option) \<Rightarrow> string \<Rightarrow> u32 option" where
  "pod_ResolveSpiffeID all_pods identify spiffeID =
     (case all_pods of Inl _ \<Rightarrow> None | Inr pods \<Rightarrow> find_spiffe identify spiffeID pods)"

definition pod_resolver ::
  "(WorkloadSelector \<Rightarrow> 'e + Pod list) \<Rightarrow> ('e + Pod list) \<Rightarrow> Registry \<Rightarrow> 'e resolve_error IdentityResolver" where
  "pod_resolver list_pods all_pods r =
     \<lparr>ResolveSelector = pod_ResolveSelector list_pods (PodIdentity r),
      ResolveSpiffeID = pod_ResolveSpiffeID all_pods (PodIdentity r)\<rparr>"

section \<open>What the events ask for\<close>

definition pod_spiffe :: "Pod \<Rightarrow> string" where
  "pod_spiffe pod = (case map_of (Annotations pod) SpiffeIDAnnotation of None \<Rightarrow> [] | Some s \<Rightarrow> s)"

definition meshed :: "Pod \<Rightarrow> bool" where
  "meshed pod \<longleftrightarrow> pod_spiffe pod \<noteq> [] \<and> PodIP pod \<noteq> [] \<and> pod_Name pod \<noteq> []"

text \<open>The pod a name stands for after a sequence of events: the last meshed one that was not deleted.\<close>

fun pod_view_step :: "pod_event \<Rightarrow> (string \<rightharpoonup> Pod) \<Rightarrow> (string \<rightharpoonup> Pod)" where
  "pod_view_step (PodUpserted (Object pod)) view = (if meshed pod then view(pod_Name pod \<mapsto> pod) else view)"
| "pod_view_step (PodDeleted (Object pod)) view = view(pod_Name pod := None)"
| "pod_view_step _ view = view"

definition pod_view :: "pod_event list \<Rightarrow> string \<rightharpoonup> Pod" where
  "pod_view evs = fold pod_view_step evs Map.empty"

section \<open>The invariant\<close>

definition pods_ok :: "(string \<rightharpoonup> Pod) \<Rightarrow> Registry \<times> Memory \<Rightarrow> bool" where
  "pods_ok view = (\<lambda>(r, m). registry_ok r \<and>
     (\<forall>n pod. view n = Some pod \<longrightarrow> pod_Name pod = n \<and> LookupByName n r \<noteq> None) \<and>
     (\<forall>n i. LookupByName n r = Some i \<longrightarrow>
        map_of (mem_identities m) i = map_option (\<lambda>pod. pod_identity pod (pod_spiffe pod) i) (view n)) \<and>
     (\<forall>i. LookupByID i r = None \<longrightarrow> map_of (mem_identities m) i = None))"

lemma pods_okI:
  assumes "registry_ok r" and "\<And>n pod. view n = Some pod \<Longrightarrow> pod_Name pod = n \<and> LookupByName n r \<noteq> None"
    and "\<And>n i. LookupByName n r = Some i \<Longrightarrow>
       map_of (mem_identities m) i = map_option (\<lambda>pod. pod_identity pod (pod_spiffe pod) i) (view n)"
    and "\<And>i. LookupByID i r = None \<Longrightarrow> map_of (mem_identities m) i = None"
  shows "pods_ok view (r, m)"
  using assms unfolding pods_ok_def by blast

lemma pods_okD:
  assumes "pods_ok view (r, m)"
  shows "registry_ok r" "view n = Some pod \<Longrightarrow> pod_Name pod = n \<and> LookupByName n r \<noteq> None"
    "LookupByName n r = Some i \<Longrightarrow>
       map_of (mem_identities m) i = map_option (\<lambda>pod. pod_identity pod (pod_spiffe pod) i) (view n)"
    "LookupByID i r = None \<Longrightarrow> map_of (mem_identities m) i = None"
  using assms unfolding pods_ok_def by blast+

lemma stored_pod:
  assumes ok: "pods_ok view (r, m)" and "map_of (mem_identities m) i = Some x"
  shows "\<exists>pod. view (Name x) = Some pod \<and> x = pod_identity pod (pod_spiffe pod) i"
proof -
  obtain n where n: "LookupByName n r = Some i"
    using pods_okD(4) [OF ok, of i] pods_okD(1) [OF ok] assms(2) unfolding registry_ok_def
    by (metis option.distinct(1) option.exhaust)
  then obtain pod where "view n = Some pod" "x = pod_identity pod (pod_spiffe pod) i"
    using pods_okD(3) [OF ok n] assms(2) by (cases "view n") auto
  moreover from this have "Name x = n" using pods_okD(2) [OF ok] by (simp add: pod_identity_def)
  ultimately show ?thesis by blast
qed

lemma onPodAdd_meshed:
  assumes "meshed pod" and "Allocate (pod_Name pod) r = (Inr i, r')"
  shows "onPodAdd (Object pod) (r, m) = (r', PutIdentity (pod_identity pod (pod_spiffe pod) i) m)"
  using assms by (auto simp: onPodAdd_def meshed_def pod_spiffe_def split: option.splits)

lemma onPodAdd_other: "\<not> meshed pod \<Longrightarrow> onPodAdd (Object pod) s = s"
  by (cases s) (auto simp: onPodAdd_def meshed_def pod_spiffe_def Allocate_def split: option.splits)

lemma PutIdentity_content [simp]:
  "map_of (mem_identities (PutIdentity x m)) = (map_of (mem_identities m))(ID x \<mapsto> x)"
  "map_of (mem_identities (DeleteIdentity i m)) = (map_of (mem_identities m))(i := None)"
  by (simp_all add: PutIdentity_def DeleteIdentity_def mutate_def)

lemma pods_ok_add:
  assumes ok: "pods_ok view (r, m)" and n: "next_id r + 1 \<noteq> 0" and "meshed pod"
    and step: "onPodAdd (Object pod) (r, m) = (r', m')"
  shows "pods_ok (view(pod_Name pod \<mapsto> pod)) (r', m')" "next_id r' = next_id r \<or> next_id r' = next_id r + 1"
proof -
  let ?n = "pod_Name pod"
  have r: "registry_ok r" using ok by (simp add: pods_ok_def)
  have name: "?n \<noteq> []" using assms(3) by (simp add: meshed_def)
  obtain x s where a: "Allocate ?n r = (x, s)" by fastforce
  note A = Allocate_lookup [OF r n name a]
  obtain i where i: "LookupByName ?n s = Some i" "x = Inr i" using A(2,3) by auto
  have e: "r' = s" "m' = PutIdentity (pod_identity pod (pod_spiffe pod) i) m"
    using step onPodAdd_meshed [OF assms(3), of r i s m] a i by simp_all
  show "next_id r' = next_id r \<or> next_id r' = next_id r + 1" using A(6) e by simp
  have look: "LookupByName q s = (if q = ?n then Some i else LookupByName q r)" for q using A(4) i by simp
  have inj: "q = ?n" if "LookupByName q s = Some i" for q
    using A(1) that i unfolding registry_ok_def by (metis option.inject)
  have id: "LookupByID j s = Some q \<longleftrightarrow> LookupByName q s = Some j" "LookupByID j r = Some q \<longleftrightarrow> LookupByName q r = Some j"
    for j q using A(1) r unfolding registry_ok_def by blast+
  have "LookupByID j r = None" if "LookupByID j s = None" for j
  proof (rule ccontr)
    assume "LookupByID j r \<noteq> None"
    then obtain q where "LookupByName q r = Some j" using id(2) by blast
    then have "LookupByName q s = Some j" using look [of q] A(5) i by (auto split: if_splits)
    then show False using that id(1) by (metis option.distinct(1))
  qed
  note gone = this
  have frame: "map_of (mem_identities m') = (map_of (mem_identities m))(i \<mapsto> pod_identity pod (pod_spiffe pod) i)"
    by (simp add: e pod_identity_def)
  show "pods_ok (view(?n \<mapsto> pod)) (r', m')"
  proof (rule pods_okI)
    show "registry_ok r'" using A(1) e by simp
  next
    fix q pod' assume "(view(?n \<mapsto> pod)) q = Some pod'"
    then show "pod_Name pod' = q \<and> LookupByName q r' \<noteq> None"
      using pods_okD(2) [OF ok] look [of q] e(1) by (cases "q = ?n") auto
  next
    fix q j assume j: "LookupByName q r' = Some j"
    show "map_of (mem_identities m') j = map_option (\<lambda>pod. pod_identity pod (pod_spiffe pod) j) ((view(?n \<mapsto> pod)) q)"
    proof (cases "q = ?n")
      case True
      then show ?thesis using j look frame e(1) by simp
    next
      case False
      then have "LookupByName q r = Some j" using j look [of q] e(1) by simp
      moreover have "j \<noteq> i" using j inj [of q] False e(1) by blast
      ultimately show ?thesis using pods_okD(3) [OF ok, of q j] False frame by simp
    qed
  next
    fix j assume "LookupByID j r' = None"
    moreover have "LookupByID i s = Some ?n" using id(1) i(1) by blast
    ultimately have "j \<noteq> i" "LookupByID j r = None" using gone e(1) by auto
    then show "map_of (mem_identities m') j = None" using pods_okD(4) [OF ok] frame by simp
  qed
qed

lemma pods_ok_delete:
  assumes ok: "pods_ok view (r, m)" and step: "onPodDelete (Object pod) (r, m) = (r', m')"
  shows "pods_ok (view(pod_Name pod := None)) (r', m')" "r' = r"
proof -
  show r': "r' = r" using step by (auto simp: onPodDelete_def split: option.splits)
  show "pods_ok (view(pod_Name pod := None)) (r', m')"
  proof (cases "LookupByName (pod_Name pod) r")
    case None
    then have "view (pod_Name pod) = None" using pods_okD(2) [OF ok] by (metis option.exhaust)
    then have "view(pod_Name pod := None) = view" by auto
    then show ?thesis using ok step None by (simp add: onPodDelete_def)
  next
    case (Some i)
    then have m': "m' = DeleteIdentity i m" using step by (simp add: onPodDelete_def)
    have inj: "q = pod_Name pod" if "LookupByName q r = Some i" for q
      using pods_okD(1) [OF ok] that Some unfolding registry_ok_def by (metis option.inject)
    show ?thesis unfolding r'
    proof (rule pods_okI)
      fix q j assume j: "LookupByName q r = Some j"
      show "map_of (mem_identities m') j =
        map_option (\<lambda>pod. pod_identity pod (pod_spiffe pod) j) ((view(pod_Name pod := None)) q)"
      proof (cases "q = pod_Name pod")
        case True
        then show ?thesis using j Some by (simp add: m')
      next
        case False
        then have "j \<noteq> i" using inj [of q] j by blast
        then show ?thesis using pods_okD(3) [OF ok j] False by (simp add: m')
      qed
    next
      show "registry_ok r" by (rule pods_okD(1) [OF ok])
    next
      fix q pod' assume "(view(pod_Name pod := None)) q = Some pod'"
      then show "pod_Name pod' = q \<and> LookupByName q r \<noteq> None"
        using pods_okD(2) [OF ok, of q pod'] by (simp split: if_splits)
    next
      fix j assume "LookupByID j r = None"
      then show "map_of (mem_identities m') j = None" using pods_okD(4) [OF ok] by (simp add: m')
    qed
  qed
qed

lemma pods_ok_step:
  assumes "pods_ok view s" and "next_id (fst s) + 1 \<noteq> 0"
  shows "pods_ok (pod_view_step ev view) (pod_step ev s)"
    "next_id (fst (pod_step ev s)) = next_id (fst s) \<or> next_id (fst (pod_step ev s)) = next_id (fst s) + 1"
proof -
  obtain r m r' m' where s: "s = (r, m)" "pod_step ev s = (r', m')" by (metis surj_pair)
  have "pods_ok (pod_view_step ev view) (r', m') \<and> (next_id r' = next_id r \<or> next_id r' = next_id r + 1)"
  proof (cases ev)
    case (PodUpserted obj)
    show ?thesis
    proof (cases "\<exists>pod. obj = Object pod \<and> meshed pod")
      case True
      then show ?thesis using pods_ok_add [of view r m _ r' m'] assms s PodUpserted by auto
    next
      case False
      then have "(r', m') = (r, m)" "pod_view_step ev view = view"
        using s PodUpserted onPodAdd_other by (cases obj; fastforce simp: onPodAdd_def)+
      then show ?thesis using assms s by simp
    qed
  next
    case (PodDeleted obj)
    show ?thesis
    proof (cases obj)
      case (Object pod)
      then show ?thesis using pods_ok_delete [of view r m pod r' m'] assms s PodDeleted by auto
    qed (use assms s PodDeleted in \<open>simp_all add: onPodDelete_def\<close>)
  qed
  then show "pods_ok (pod_view_step ev view) (pod_step ev s)"
    "next_id (fst (pod_step ev s)) = next_id (fst s) \<or> next_id (fst (pod_step ev s)) = next_id (fst s) + 1"
    using s by simp_all
qed

lemma watch_pods_ok:
  "length evs < 2 ^ 32 - 1 \<Longrightarrow>
    pods_ok (pod_view evs) (watch_pods evs) \<and> unat (next_id (fst (watch_pods evs))) \<le> Suc (length evs)"
proof (induction evs rule: rev_induct)
  case Nil
  then show ?case
    by (simp add: watch_pods_def pod_view_def pods_ok_def) (simp add: NewRegistry_def NewMemory_def LookupByName_def)
next
  case (snoc ev evs)
  let ?s = "watch_pods evs"
  have ok: "pods_ok (pod_view evs) ?s" and n: "unat (next_id (fst ?s)) \<le> Suc (length evs)" using snoc by simp_all
  have "unat (next_id (fst ?s)) < 2 ^ 32 - 1" using n snoc.prems by simp
  then have "unat (next_id (fst ?s) + 1) = Suc (unat (next_id (fst ?s)))" by (simp add: unat_word_ariths)
  then have c: "unat (next_id (fst ?s) + 1) = Suc (unat (next_id (fst ?s)))" "next_id (fst ?s) + 1 \<noteq> 0" by auto
  have "watch_pods (evs @ [ev]) = pod_step ev ?s" "pod_view (evs @ [ev]) = pod_view_step ev (pod_view evs)"
    by (simp_all add: watch_pods_def pod_view_def)
  then show ?case using pods_ok_step [OF ok c(2), of ev] c(1) n by auto
qed

section \<open>What the resolver finds\<close>

lemma collect_ids_set:
  "set (collect_ids identify pods ids) = set ids \<union> {i. \<exists>pod\<in>set pods. identify pod = Some i}"
  "distinct ids \<Longrightarrow> distinct (collect_ids identify pods ids)"
proof (induction pods arbitrary: ids)
  case (Cons pod pods)
  case 1 show ?case using Cons(1) by (auto split: option.splits)
  case 2 then show ?case using Cons(2) by (auto split: option.split)
qed simp_all

lemma pod_ResolveSelector_ok:
  assumes "pod_ResolveSelector list_pods identify sel = Inr ids"
  obtains pods where "list_pods sel = Inr pods" "ids \<noteq> []" "sorted ids" "distinct ids"
    "set ids = {i. \<exists>pod\<in>set pods. identify pod = Some i}"
proof -
  obtain pods where p: "list_pods sel = Inr pods" "ids = sort (collect_ids identify pods [])" "collect_ids identify pods [] \<noteq> []"
    using assms by (auto simp: pod_ResolveSelector_def Let_def split: sum.splits if_splits)
  have "set ids = {i. \<exists>pod\<in>set pods. identify pod = Some i}" "sorted ids" "distinct ids"
    using p(2) collect_ids_set [where ids = "[]" and pods = pods and identify = identify] by simp_all
  moreover have "ids \<noteq> []" using p(2,3) by (metis set_empty set_sort)
  ultimately show ?thesis using that p(1) by blast
qed

lemma find_spiffe_Some:
  "find_spiffe identify spiffeID pods = Some i \<Longrightarrow> \<exists>pod\<in>set pods. pod_spiffe pod = spiffeID \<and> identify pod = Some i"
proof (induction pods)
  case (Cons pod pods)
  then show ?case by (cases "identify pod"; cases "pod_spiffe pod = spiffeID") (auto simp: pod_spiffe_def)
qed simp

section \<open>Properties\<close>


text \<open>A pod is added, gets an address, and another one is deleted.\<close>

definition demo_pod :: "string \<Rightarrow> string \<Rightarrow> string \<Rightarrow> Pod" where
  "demo_pod name ns ip = \<lparr>pod_Name = name, pod_Namespace = ns,
     Annotations = [(SpiffeIDAnnotation, ''spiffe://'' @ ns)], PodIP = ip\<rparr>"

definition demo_pod_events :: "pod_event list" where
  "demo_pod_events =
     [PodUpserted (Object (demo_pod ''web'' ''shop'' [])), PodUpserted (Object (demo_pod ''db'' ''shop'' ''10.0.0.2'')),
      PodUpserted (Object (demo_pod ''web'' ''shop'' ''10.0.0.1'')), PodDeleted (Object (demo_pod ''db'' ''shop'' ''10.0.0.2''))]"


text \<open>
  C33. From pods to rules: after any sequence of pod events, every rule that a policy is expanded into
  through the pod resolver names two registered, non-zero identities. The source belongs to a pod with
  one of the policy's SPIFFE IDs, the destination to a pod the selector lists.
\<close>

theorem policy_rules_name_pods:
  assumes "length evs < 2 ^ 32 - 1" and "watch_pods evs = (r, m)"
    and "CompilePolicyRules (pod_resolver list_pods all_pods r) pol = Inr rs" and "rule \<in> set rs"
  shows "\<exists>every selected src dst. all_pods = Inr every \<and> list_pods (mp_Selector (mp_Spec pol)) = Inr selected \<and>
    src \<in> set every \<and> pod_spiffe src \<in> set (mp_Sources (mp_Spec pol)) \<and> dst \<in> set selected \<and>
    LookupByName (pod_Name src) r = Some (SrcIdentity (Key rule)) \<and>
    LookupByName (pod_Name dst) r = Some (DstIdentity (Key rule)) \<and>
    SrcIdentity (Key rule) \<noteq> IdentityUnknown \<and> DstIdentity (Key rule) \<noteq> IdentityUnknown"
proof -
  let ?R = "pod_resolver list_pods all_pods r"
  have "pods_ok (pod_view evs) (r, m)" using watch_pods_ok [OF assms(1)] assms(2) by simp
  then have ok: "registry_ok r" by (rule pods_okD(1))
  have nz: "j \<noteq> IdentityUnknown" if "LookupByName n r = Some j" for n j
    using ok that unfolding registry_ok_def by (metis IdentityUnknown_def less_irrefl)
  have "spec_valid (mp_Spec pol)"
    using assms(3) ValidatePolicySpec_ok by (auto simp: CompilePolicyRules_def Let_def split: sum.splits)
  then have "rule \<in> crd_product ?R (mp_Spec pol)" using valid_policy_cases [of pol ?R] assms(3,4) by auto
  then obtain s d p t dsts where rule: "rule = crd_rule (effective_verdict (mp_Spec pol)) s d p t"
      "Some s \<in> ResolveSpiffeID ?R ` set (mp_Sources (mp_Spec pol))"
      "ResolveSelector ?R (mp_Selector (mp_Spec pol)) = Inr dsts" "d \<in> set dsts"
    unfolding crd_product_def by blast
  from rule(2) obtain spiffe where spiffe: "spiffe \<in> set (mp_Sources (mp_Spec pol))" "ResolveSpiffeID ?R spiffe = Some s"
    by (metis imageE)
  then obtain every where every: "all_pods = Inr every" "find_spiffe (PodIdentity r) spiffe every = Some s"
    by (auto simp: pod_resolver_def pod_ResolveSpiffeID_def split: sum.splits)
  then obtain src where src: "src \<in> set every" "pod_spiffe src = spiffe" "PodIdentity r src = Some s"
    using find_spiffe_Some by blast
  have "pod_ResolveSelector list_pods (PodIdentity r) (mp_Selector (mp_Spec pol)) = Inr dsts"
    using rule(3) by (simp add: pod_resolver_def)
  then obtain selected where sel: "list_pods (mp_Selector (mp_Spec pol)) = Inr selected"
      "set dsts = {i. \<exists>pod\<in>set selected. PodIdentity r pod = Some i}"
    by (rule pod_ResolveSelector_ok)
  then obtain dst where dst: "dst \<in> set selected" "PodIdentity r dst = Some d" using rule(4) by blast
  have "LookupByName (pod_Name src) r = Some (SrcIdentity (Key rule))"
    "LookupByName (pod_Name dst) r = Some (DstIdentity (Key rule))"
    using src(3) dst(2) rule(1) by (simp_all add: crd_rule_def PodIdentity_def)
  then show ?thesis using every(1) sel(1) src(1,2) spiffe(1) dst(1) nz by metis
qed

lemma demo_pods_registered:
  "watch_pods (take 3 demo_pod_events) = (r, m) \<Longrightarrow> byName r = [(''db'', 1), (''web'', 2)]"
  by (auto simp: watch_pods_def demo_pod_events_def onPodAdd_def demo_pod_def Allocate_def NewRegistry_def Let_def)

definition demo_pods :: "Pod list" where
  "demo_pods = [demo_pod ''db'' ''shop'' ''10.0.0.2'', demo_pod ''web'' ''shop'' ''10.0.0.1'']"

definition demo_pod_policy :: MeridianPolicy where
  "demo_pod_policy = \<lparr>mp_Namespace = ''shop'', mp_Name = ''p'',
     mp_Spec = \<lparr>mp_Selector = \<lparr>ws_Namespace = ''shop'', ws_Labels = []\<rparr>, mp_Sources = [''spiffe://shop''],
       mp_Ports = [5432], mp_Protocols = [], mp_Action = ''deny''\<rparr>\<rparr>"

theorem policy_rules_name_pods_witness:
  "\<exists>src dst. src \<in> set demo_pods \<and> dst \<in> set demo_pods \<and>
     LookupByName (pod_Name src) (fst (watch_pods (take 3 demo_pod_events))) = Some 1 \<and>
     LookupByName (pod_Name dst) (fst (watch_pods (take 3 demo_pod_events))) = Some 2"
proof -
  obtain r m where w: "watch_pods (take 3 demo_pod_events) = (r, m)" by fastforce
  note r = demo_pods_registered [OF w]
  have l: "length (take 3 demo_pod_events) < 2 ^ 32 - 1" by (simp add: demo_pod_events_def)
  let ?list = "\<lambda>sel. Inr demo_pods :: unit + Pod list"
  have "CompilePolicyRules (pod_resolver ?list (Inr demo_pods) r) demo_pod_policy =
      Inr [crd_rule \<lparr>Action = PolicyActionDeny, Flags = 0\<rparr> 1 1 5432 6, crd_rule \<lparr>Action = PolicyActionDeny, Flags = 0\<rparr> 1 2 5432 6]"
    by (simp add: CompilePolicyRules_def ValidatePolicySpec_def demo_pod_policy_def good_source_def HasPrefix_def
        pod_resolver_def pod_ResolveSpiffeID_def pod_ResolveSelector_def demo_pods_def demo_pod_def PodIdentity_def
        LookupByName_def r Let_def protocolNumbers_def verdictForAction_def expand_rules_def)
  from policy_rules_name_pods [OF l w this, of "crd_rule \<lparr>Action = PolicyActionDeny, Flags = 0\<rparr> 1 2 5432 6"]
  show ?thesis unfolding w by (auto simp: crd_rule_def)
qed

text \<open>
  C40. The registry key is the pod name without its namespace. Two meshed pods with the same name in
  different namespaces share one identity; the store keeps only the one seen last, the address of the
  other is unknown to the data plane, and deleting the last one removes the entry while the other pod
  still runs.
\<close>

theorem same_name_pods_collide:
  assumes "length evs < 2 ^ 32 - 3" and "meshed p" and "meshed q"
    and "pod_Name p = pod_Name q" and "pod_Namespace p \<noteq> pod_Namespace q"
    and "watch_pods (evs @ [PodUpserted (Object p), PodUpserted (Object q)]) = (r, m)"
  shows "PodIdentity r p = PodIdentity r q \<and> PodIdentity r p \<noteq> None \<and>
    \<not> (\<exists>x. x \<in> ran (map_of (mem_identities m)) \<and> Name x = pod_Name p \<and> Namespace x = pod_Namespace p) \<and>
    \<not> (\<exists>x. x \<in> ran (map_of (mem_identities (snd (onPodDelete (Object q) (r, m))))) \<and> Name x = pod_Name p)"
proof -
  let ?evs = "evs @ [PodUpserted (Object p), PodUpserted (Object q)]"
  have view: "pod_view ?evs (pod_Name p) = Some q" "pod_view (?evs @ [PodDeleted (Object q)]) (pod_Name p) = None"
    using assms(2-4) by (simp_all add: pod_view_def)
  have ok: "pods_ok (pod_view ?evs) (r, m)" using watch_pods_ok [of ?evs] assms(1,6) by simp
  have gone: "pod_view (es @ [PodDeleted (Object q)]) = (pod_view es)(pod_Name q := None)" for es
    by (simp add: pod_view_def)
  have del: "pods_ok (pod_view (?evs @ [PodDeleted (Object q)])) (onPodDelete (Object q) (r, m))"
    unfolding gone using pods_ok_delete(1) [OF ok, of q] by (cases "onPodDelete (Object q) (r, m)") simp
  have "\<not> (Name x = pod_Name p \<and> Namespace x = pod_Namespace p)" if "map_of (mem_identities m) i = Some x" for i x
    using stored_pod [OF ok that] view(1) assms(5) by (auto simp: pod_identity_def)
  moreover have "Name x \<noteq> pod_Name p" if "map_of (mem_identities (snd (onPodDelete (Object q) (r, m)))) i = Some x" for i x
    using stored_pod [OF _ that] del view(2) by (metis option.distinct(1) prod.collapse)
  moreover have "PodIdentity r p \<noteq> None" using pods_okD(2) [OF ok view(1)] by (simp add: PodIdentity_def)
  ultimately show ?thesis using assms(4) by (auto simp: PodIdentity_def ran_def)
qed

theorem same_name_pods_collide_witness:
  "\<not> (\<exists>x. x \<in> ran (map_of (mem_identities (snd (watch_pods [PodUpserted (Object (demo_pod ''web'' ''shop'' ''10.0.0.1'')),
     PodUpserted (Object (demo_pod ''web'' ''bank'' ''10.0.0.9''))])))) \<and> Name x = ''web'' \<and> Namespace x = ''shop'')"
proof -
  let ?p = "demo_pod ''web'' ''shop'' ''10.0.0.1''" and ?q = "demo_pod ''web'' ''bank'' ''10.0.0.9''"
  obtain r m where w: "watch_pods ([] @ [PodUpserted (Object ?p), PodUpserted (Object ?q)]) = (r, m)" by fastforce
  have "meshed ?p" "meshed ?q" "pod_Name ?p = pod_Name ?q" "pod_Namespace ?p \<noteq> pod_Namespace ?q"
    by (simp_all add: meshed_def pod_spiffe_def demo_pod_def)
  from same_name_pods_collide [OF _ this w] w show ?thesis by (simp add: demo_pod_def)
qed

end
