(* ===== verification/Spec2Isabelle.thy ===== *)
theory Spec2Isabelle
  imports Overlay_Examples Ingress_Properties Node_System Counter_Program Abi_Check Map_Schema
    Loop_Properties Spec_To_Packet Pod_Watcher
begin

text \<open>
  Meridian: identity-based network policy for the pods of a cluster. Policy is written for workloads,
  compiled to rules between numeric identities, distributed to the nodes and enforced there by eBPF
  programs.

  \<^bold>\<open>The program.\<close> On a node two TC programs, \<^verbatim>\<open>src/bpf/tc_ingress.c\<close> and \<^verbatim>\<open>tc_egress.c\<close>, enforce the
  policy on packets: egress stamps the sender's identity into a Geneve option of tunnelled frames,
  ingress reads it, decides by exact-match lookup (default deny), records the decision, and removes the
  option from frames it allows. Two socket programs, \<^verbatim>\<open>sock_ops.c\<close> and \<^verbatim>\<open>sk_msg.c\<close>, short-cut eligible
  local connections through a SOCKHASH; \<^verbatim>\<open>counter.c\<close> is a smoke program. They share the headers under
  \<^verbatim>\<open>src/bpf/include\<close>. In user space (\<^verbatim>\<open>src/internal\<close>) the control plane allocates identities
  (\<^verbatim>\<open>control/identity\<close>), watches pods and policy objects (\<^verbatim>\<open>control/k8s\<close>), compiles declarative policy
  (\<^verbatim>\<open>control/compiler.go\<close>), keeps the result in a store (\<^verbatim>\<open>control/store\<close>) and pushes it over an ADS stream
  (\<^verbatim>\<open>control/ads\<close>) in the encoding of \<^verbatim>\<open>cc2\<close>. The agent's client (\<^verbatim>\<open>agent/xds\<close>) decodes a push, computes the
  difference from what it has applied, and writes it to the kernel maps (\<^verbatim>\<open>agent/datapath\<close>).

  \<^bold>\<open>How it is modelled.\<close> C integers are words of their width in little-endian order. A packet is a list
  of bytes; a packet pointer is an offset from \<open>data\<close>, and a direct load is an \<open>option\<close> that is \<open>None\<close>
  outside \<open>[data, data_end)\<close>. The state \<open>dp\<close> is the packet, the maps, the CPU and an opaque kernel
  world; every function takes and returns it. The BPF helpers are kernel code outside the repository: a
  record \<open>kernel\<close> of functions over the world, so that two equal calls may end differently. Go functions
  keep their names; strings are byte lists, a Go map is an association list whose iteration order is an
  argument, an error is the left side of a sum. The handles of cilium/ebpf (\<open>ebpf\<close>), the protobuf
  wrapping (\<open>anypb\<close>), the listers of client-go and the policy store of the informer are arguments. What a
  property relies on is a locale about them, never an axiom, and each locale has an instance.

  \<^bold>\<open>Theories of the data plane.\<close>
  \<^item> \<open>Meridian_Prelude\<close>, \<open>Meridian_Types\<close>: words, byte order, bounded loads; constants, enumerations,
    structs as records, byte images.
  \<^item> \<open>Kernel_Helpers\<close>, \<open>Meridian_Maps\<close>: the helper record, its contracts \<open>skb_helpers\<close>, \<open>live_skb_helpers\<close>,
    \<open>lru_helpers\<close>, \<open>sock_helpers\<close>, \<open>live_sock_helpers\<close>, an executable instance, and the state \<open>dp\<close>.
  \<^item> \<open>Telemetry\<close>, \<open>Tc_Interface\<close>: the interfaces of the accounting functions and of a TC program.
  \<^item> \<open>Meridian_Parse\<close>, \<open>Tc_Ingress\<close>, \<open>Tc_Egress\<close>, \<open>Socket_Programs\<close>, \<open>Counter_Program\<close>: the parse helpers
    and the programs, function by function.
  \<^item> \<open>Ingress_Enforcement\<close>, \<open>Geneve_Options\<close>, \<open>Ingress_Program\<close>, \<open>Ingress_Properties\<close>: the abstract
    decision, the option list, the verdict of the whole program, default deny.
  \<^item> \<open>Egress_Options\<close>, \<open>Egress_Program\<close>, \<open>Tlv_Editing\<close>, \<open>Tlv_Liveness\<close>: the option counter, the plan that
    the program carries out, and what the byte-by-byte edits of a frame compute.
  \<^item> \<open>Overlay_Path\<close>, \<open>Overlay_Properties\<close>, \<open>Overlay_Roundtrip\<close>, \<open>Overlay_Examples\<close>: a frame from the
    sending node through the tunnel to the receiving node.
  \<^item> \<open>Socket_Layer\<close>, \<open>Node_System\<close>: the SOCKHASH gate, and a node as a step relation.
  \<^item> \<open>C_Layout\<close>, \<open>Struct_Layout\<close>, \<open>Map_Schema\<close>, \<open>Vmlinux_Uapi\<close>, \<open>Vmlinux_Net\<close>, \<open>Vmlinux_Bpf\<close>,
    \<open>Vmlinux_Enums\<close>, \<open>Abi_Check\<close>: struct layout as a C compiler computes it, the cross-boundary structs,
    the map declarations, and the declarations of \<^verbatim>\<open>vmlinux.h\<close> that the programs work with.

  \<^bold>\<open>Theories of user space.\<close>
  \<^item> \<open>Go_Prelude\<close>, \<open>Go_Json\<close>, \<open>Json_Roundtrip\<close>, \<open>Wire_Types\<close>: results, loops, maps; \<open>encoding/json\<close> as the
    codec uses it; the types of \<^verbatim>\<open>pkg/wire\<close>.
  \<^item> \<open>Policy_Compiler\<close>, \<open>Compiler_Correctness\<close>, \<open>Reference_Evaluator\<close>, \<open>Compiler_Conformance\<close>: the
    compiler, and its agreement with the reference evaluator and the oracle of the conformance test.
  \<^item> \<open>Datapath_Writer\<close>, \<open>Snapshot_Diff\<close>, \<open>Datapath_Update\<close>, \<open>Pod_Addresses\<close>, \<open>Datapath_Properties\<close>: the
    difference of snapshots and its application to the kernel maps.
  \<^item> \<open>Cc2_Codec\<close>, \<open>Cc2_Roundtrip\<close>: encoding and strict decoding of rules and identities.
  \<^item> \<open>Control_Store\<close>, \<open>Xds_Messages\<close>, \<open>Ads_Versioning\<close>, \<open>Ads_Server\<close>, \<open>Xds_Client\<close>, \<open>Client_Behaviour\<close>:
    the store, the version handshake, the server's pushes and the agent's client with its reconnects.
  \<^item> \<open>Control_Loop\<close>, \<open>Loop_Invariant\<close>, \<open>Loop_Properties\<close>: store, server, stream and agent as one step
    relation, in which the store may change and the stream may break at any time.
  \<^item> \<open>Identity_Registry\<close>, \<open>Policy_Crd\<close>, \<open>Policy_Watcher\<close>, \<open>Pod_Watcher\<close>: the allocator, the policy
    resource, and the two informers that feed the store.
  \<^item> \<open>Spec_To_Packet\<close>: compiler, agent and ingress program together.
  \<^item> \<open>Demo_Frames\<close>, \<open>Demo_Cluster\<close>: the frames, states and specifications the witnesses evaluate on.

  \<^bold>\<open>What is shown.\<close> A packet between two pods is treated as the declarative specification says, through
  compiler, agent and ingress program (C1). Whatever happens to store and stream, the agent converges to
  the rules of the store (C2), and meanwhile enforces a state the store has had (C27). Both TC programs
  stay inside the packet and return for every packet, map content and kernel (C3, C7), and for every
  packet sequence (C18). The ingress verdict is a function of frame, identities, policy and posture (C4);
  it is default deny (C5), each decision leaves its trace (C6), and the option decoder agrees with the
  option list (C16). The egress program carries out a plan (C8), refuses only by explicit rule (C15) and
  fails closed (C9). Across the overlay the receiver enforces the identity that the sender stamped (C10),
  an allowed frame loses its option (C14) and arrives as it was sent (C11). The socket layer inserts
  exactly by the gate (C13), a redirect is gated in every reachable state (C12) and finds its socket
  (C17). Helpers written out several times are the same function (C19). The compiler agrees with the
  reference evaluator and the oracle (C22) and returns exactly the granted rules (C23). A plan turns the
  maps of one snapshot into those of the next (C24), and every lookup has its old or its new result while
  it runs (C25). The handshake accepts only answers to the last push (C28), the codec is a round trip
  (C29), reconnects keep to their schedule (C38). Pods and policy objects are mirrored into the store
  (C35, C34), admitted policies expand to their product (C36) over registered identities (C33), which are
  not reused (C37). C20, C21, C26, C30, C31, C32, C39 and C40 state limits of the code: shared SOCKHASH keys,
  option areas beyond the decoder, changed addresses, incomplete rules, rules no record names, flags
  the compiler shifts away, the cleanup of shared keys, and pods that share a name.

  \<^bold>\<open>Bounds and termination.\<close> Every loop of the C source has a compile-time bound, and its model is a
  structural recursion on the iterations left (4 options, 80 header bytes, 256 inner bytes). Frames are
  assumed shorter than 2 GiB where 32-bit offsets must not wrap. The JSON reader recurses on fuel of twice
  the input length plus one, which the round trip shows to be enough for every printed document. The
  handshake is stated for fewer than \<open>2^64\<close> calls and the registry for fewer than \<open>2^32 - 1\<close>, where their
  counters wrap. The steps of the distribution are bounded by a measure of the messages due.

  \<^bold>\<open>Not modelled.\<close> The bodies of the kernel helpers, concurrency of several CPUs inside one program run,
  \<open>skb->csum\<close>, the eviction order of the LRU maps, and the declarations of \<^verbatim>\<open>vmlinux.h\<close> that no program of
  the repository touches. In user space: the REST surface, certificate issuance and the etcd backend
  (HTTP, cryptography and an external service), loading and attaching programs and the telemetry readers
  of the agent (kernel I/O), the node proxy (TLS and byte streams) and the command line tools.
\<close>

section \<open>Helpers written out several times\<close>


end
